(* ===== verification/FC_Prelude.thy ===== *)
theory FC_Prelude
  imports Main "HOL-Library.Monad_Syntax" "HOL-Library.Word" "HOL-Library.Char_ord" "HOL-Library.List_Lexorder"
begin

text \<open>
  Shared vocabulary of the development: the machine types of the C++ code, the
  byte and string values it passes around, and the ordered associative container
  \<^verbatim>\<open>std::map\<close> that most components keep their state in.

  A \<^verbatim>\<open>std::map\<close> is a list of key/value pairs in strictly increasing key order, so that
  \<^verbatim>\<open>begin()\<close> is the head and iteration is list order.  The operations the code calls
  (\<^verbatim>\<open>find\<close>, \<^verbatim>\<open>operator[] =\<close>, \<^verbatim>\<open>emplace\<close>, \<^verbatim>\<open>erase\<close>) are functions on that list, and the
  locale \<open>std_map\<close> states what a client may rely on.
\<close>

type_synonym byte = "8 word"
type_synonym bytes = "byte list"
type_synonym u16 = "16 word"
type_synonym u32 = "32 word"
type_synonym u64 = "64 word"

named_theorems roundtrip \<open>decode after encode\<close>
named_theorems refine \<open>concrete operation against abstract value\<close>
named_theorems keeps \<open>operations that keep an invariant\<close>

section \<open>Size arithmetic\<close>

text \<open>\<^verbatim>\<open>size_t\<close> is 64 bits wide; sizes are naturals and additions that may wrap are
  written with \<open>szadd\<close>.\<close>

definition SIZE_MOD :: nat where
  "SIZE_MOD = 2 ^ 64"

definition szadd :: "nat \<Rightarrow> nat \<Rightarrow> nat" where
  "szadd a b = (a + b) mod SIZE_MOD"

lemma szadd_small [simp]: "a + b < SIZE_MOD \<Longrightarrow> szadd a b = a + b"
  by (simp add: szadd_def)

lemma szadd_le: "szadd a b \<le> a + b"
  by (simp add: szadd_def)

lemma szadd_no_wrap:
  "a + b \<le> szadd a b \<longleftrightarrow> szadd a b = a + b"
  "n \<le> szadd 0 n \<longleftrightarrow> szadd 0 n = n"
  using szadd_le [of a b] szadd_le [of 0 n] by auto

section \<open>Characters and bytes\<close>

definition char_byte :: "char \<Rightarrow> byte" where
  "char_byte c = of_nat (of_char c)"

definition byte_char :: "byte \<Rightarrow> char" where
  "byte_char b = char_of (unat b)"

definition string_bytes :: "string \<Rightarrow> bytes" where
  "string_bytes s = map char_byte s"

definition bytes_string :: "bytes \<Rightarrow> string" where
  "bytes_string bs = map byte_char bs"

lemma unat_char_byte: "unat (char_byte c) = of_char c"
  by (simp add: char_byte_def unat_of_nat of_char_mod_256)

lemma byte_char_char_byte [simp]: "byte_char (char_byte c) = c"
  by (simp add: byte_char_def unat_char_byte)

lemma char_byte_byte_char [simp]: "char_byte (byte_char b) = b"
proof -
  have "unat b < 256"
    by (rule less_le_trans [OF unsigned_less]) simp
  then show ?thesis
    by (simp add: char_byte_def byte_char_def)
qed

lemma bytes_string_string_bytes [simp, roundtrip]: "bytes_string (string_bytes s) = s"
  by (simp add: bytes_string_def string_bytes_def comp_def)

lemma string_bytes_bytes_string [simp, roundtrip]: "string_bytes (bytes_string bs) = bs"
  by (simp add: bytes_string_def string_bytes_def comp_def)

lemma length_string_bytes [simp]: "length (string_bytes s) = length s"
  by (simp add: string_bytes_def)

section \<open>Ordered maps\<close>

type_synonym ('k, 'v) omap = "('k \<times> 'v) list"

definition om_empty :: "('k, 'v) omap" where
  "om_empty = []"

definition om_find :: "('k, 'v) omap \<Rightarrow> 'k \<Rightarrow> 'v option" where
  "om_find m k = map_of m k"

fun om_put :: "'k :: linorder \<Rightarrow> 'v \<Rightarrow> ('k, 'v) omap \<Rightarrow> ('k, 'v) omap" where
  "om_put k v [] = [(k, v)]"
| "om_put k v (p # m) =
     (if fst p < k then p # om_put k v m
      else if fst p = k then (k, v) # m
      else (k, v) # p # m)"

definition om_emplace :: "'k :: linorder \<Rightarrow> 'v \<Rightarrow> ('k, 'v) omap \<Rightarrow> ('k, 'v) omap" where
  "om_emplace k v m = (case om_find m k of None \<Rightarrow> om_put k v m | Some _ \<Rightarrow> m)"

definition om_erase :: "'k \<Rightarrow> ('k, 'v) omap \<Rightarrow> ('k, 'v) omap" where
  "om_erase k m = filter (\<lambda>p. fst p \<noteq> k) m"

definition om_keys :: "('k, 'v) omap \<Rightarrow> 'k list" where
  "om_keys m = map fst m"

definition om_ok :: "('k :: linorder, 'v) omap \<Rightarrow> bool" where
  "om_ok m = sorted_wrt (<) (om_keys m)"

text \<open>The contract of the container: lookups after each update, and the order kept.\<close>

locale std_map =
  fixes empty :: "'m"
    and find :: "'m \<Rightarrow> 'k \<Rightarrow> 'v option"
    and put :: "'k \<Rightarrow> 'v \<Rightarrow> 'm \<Rightarrow> 'm"
    and emplace :: "'k \<Rightarrow> 'v \<Rightarrow> 'm \<Rightarrow> 'm"
    and erase :: "'k \<Rightarrow> 'm \<Rightarrow> 'm"
    and ok :: "'m \<Rightarrow> bool"
  assumes find_empty: "find empty k = None"
    and find_put: "find (put k v m) k' = (if k' = k then Some v else find m k')"
    and find_emplace:
      "find (emplace k v m) k' = (if k' = k \<and> find m k = None then Some v else find m k')"
    and find_erase: "find (erase k m) k' = (if k' = k then None else find m k')"
    and ok_empty: "ok empty"
    and ok_put: "ok m \<Longrightarrow> ok (put k v m)"
    and ok_emplace: "ok m \<Longrightarrow> ok (emplace k v m)"
    and ok_erase: "ok m \<Longrightarrow> ok (erase k m)"
begin

lemma find_put_same: "find (put k v m) k = Some v"
  by (simp add: find_put)

lemma find_put_other: "k' \<noteq> k \<Longrightarrow> find (put k v m) k' = find m k'"
  by (simp add: find_put)

lemma find_erase_same: "find (erase k m) k = None"
  by (simp add: find_erase)

lemma find_erase_other: "k' \<noteq> k \<Longrightarrow> find (erase k m) k' = find m k'"
  by (simp add: find_erase)

lemma emplace_keeps_present: "find m k = Some w \<Longrightarrow> find (emplace k v m) k = Some w"
  by (simp add: find_emplace)

lemma emplace_absent: "find m k = None \<Longrightarrow> find (emplace k v m) k = Some v"
  by (simp add: find_emplace)

lemma put_commute:
  "k \<noteq> k' \<Longrightarrow> find (put k v (put k' v' m)) x = find (put k' v' (put k v m)) x"
  by (simp add: find_put)

lemma put_erase: "find (put k v (erase k m)) x = find (put k v m) x"
  by (simp add: find_put find_erase)

end

lemma map_of_om_put: "map_of (om_put k v m) k' = (if k' = k then Some v else map_of m k')"
  by (induction k v m rule: om_put.induct) auto

lemma map_of_filter_neq:
  "map_of (filter (\<lambda>p. fst p \<noteq> k) m) k' = (if k' = k then None else map_of m k')"
  by (induction m) auto

lemma set_keys_om_put: "set (om_keys (om_put k v m)) = insert k (set (om_keys m))"
  by (induction k v m rule: om_put.induct) (auto simp: om_keys_def)

lemma om_ok_Cons: "om_ok (p # m) \<longleftrightarrow> (\<forall>k \<in> set (om_keys m). fst p < k) \<and> om_ok m"
  by (simp add: om_ok_def om_keys_def)

lemma om_ok_Nil: "om_ok []"
  by (simp add: om_ok_def om_keys_def)

lemma om_ok_put: "om_ok m \<Longrightarrow> om_ok (om_put k v m)"
proof (induction k v m rule: om_put.induct)
  case (1 k v)
  then show ?case by (simp add: om_ok_def om_keys_def)
next
  case (2 k v p m)
  show ?case
  proof (cases "fst p < k")
    case True
    with 2 show ?thesis by (simp add: om_ok_Cons set_keys_om_put)
  next
    case False
    with 2 show ?thesis
      by (cases "fst p = k") (auto simp: om_ok_Cons om_keys_def)
  qed
qed

lemma om_ok_erase: "om_ok m \<Longrightarrow> om_ok (om_erase k m)"
  by (induction m) (auto simp: om_ok_def om_keys_def om_erase_def)

interpretation om: std_map om_empty om_find om_put om_emplace om_erase om_ok
  by unfold_locales
    (auto simp: om_empty_def om_find_def map_of_om_put om_emplace_def om_erase_def
        map_of_filter_neq om_ok_put om_ok_erase [unfolded om_erase_def] om_ok_Nil
      split: option.splits)

lemma om_ok_distinct: "om_ok m \<Longrightarrow> distinct (om_keys m)"
  by (simp add: om_ok_def strict_sorted_iff)

lemma om_find_None_iff: "om_find m k = None \<longleftrightarrow> k \<notin> set (om_keys m)"
  by (simp add: om_find_def om_keys_def map_of_eq_None_iff)

lemma om_find_Cons: "om_find ((k, v) # m) k' = (if k' = k then Some v else om_find m k')"
  by (simp add: om_find_def)

lemma om_find_Nil [simp]: "om_find [] k = None"
  by (simp add: om_find_def)

lemma om_find_mem: "om_find m k = Some v \<Longrightarrow> (k, v) \<in> set m"
  by (simp add: om_find_def map_of_SomeD)

lemma om_mem_find: "om_ok m \<Longrightarrow> (k, v) \<in> set m \<Longrightarrow> om_find m k = Some v"
  using om_ok_distinct [of m] by (simp add: om_find_def om_keys_def)

lemma om_head_least:
  assumes "om_ok ((k, v) # m)" and "om_find ((k, v) # m) k' = Some w"
  shows "k \<le> k'"
proof (cases "k' = k")
  case False
  with assms(2) have "k' \<in> set (om_keys m)"
    by (metis om_find_Cons om_find_None_iff option.discI)
  with assms(1) show ?thesis by (auto simp: om_ok_Cons)
qed simp

lemma om_put_nonempty [simp]: "om_put k v m \<noteq> []"
  by (cases m) auto

lemma om_erase_absent: "om_find m k = None \<Longrightarrow> om_erase k m = m"
  by (auto simp: om_find_None_iff om_erase_def om_keys_def filter_id_conv)

lemma om_erase_head: "om_ok ((k, v) # m) \<Longrightarrow> om_erase k ((k, v) # m) = m"
  by (auto simp: om_ok_Cons om_erase_def om_keys_def filter_id_conv)

lemma length_om_erase:
  assumes "om_ok m" and "om_find m k = Some v"
  shows "length m = Suc (length (om_erase k m))"
  using assms
proof (induction m)
  case (Cons p m)
  obtain k' v' where p: "p = (k', v')" by (cases p)
  show ?case
  proof (cases "k' = k")
    case True
    with Cons.prems p show ?thesis by (simp add: om_erase_head)
  next
    case False
    with Cons.prems p have "om_ok m" "om_find m k = Some v"
      by (auto simp: om_ok_Cons om_find_Cons)
    with Cons.IH False p show ?thesis by (simp add: om_erase_def)
  qed
qed simp

lemmas om_map_simps = om.find_empty om.find_put om.find_emplace om.find_erase
lemmas om_keeps_ok [keeps] = om.ok_empty om.ok_put om.ok_emplace om.ok_erase

end
