(* ===== verification/FC_AnyMap.thy ===== *)
theory FC_AnyMap
  imports FC_Prelude
begin

text \<open>
  The container of typed values, \<^verbatim>\<open>utils/AnyMap\<close>, that \<^verbatim>\<open>Details\<close> inherits from.

  A C++ type is a record: its name, the hash of its type information, its default value, whether it can be
  copied, and what a move leaves behind.  An entry of the map is a holder or, after its pointer was moved
  away, null; a holder has the type it was made with and a pointer to the value, null when it was made of a
  null pointer.  Reading an entry is a \<^verbatim>\<open>reinterpret_cast\<close>, so the model keeps apart a value of the type
  asked for, a value of another type and a null reference.
\<close>

section \<open>Model\<close>

record 'v cpp_type =
  ty_name :: string
  ty_hash :: u64
  ty_default :: 'v
  ty_copyable :: bool
  ty_moved :: "'v \<Rightarrow> 'v"

record 'v ObjHolder =
  oh_type :: "'v cpp_type"
  oh_pt :: "'v option"

type_synonym 'v AnyMap = "(u64, 'v ObjHolder option) omap"

datatype 'v access = AccOk 'v | AccNull | AccOther

definition ObjHolder_clone :: "'v ObjHolder \<Rightarrow> 'v ObjHolder option" where
  "ObjHolder_clone h = (if ty_copyable (oh_type h) \<and> oh_pt h \<noteq> None then Some h else None)"

text \<open>The object behind an entry, as a reference to type \<open>T\<close>.\<close>

definition entry_access :: "'v cpp_type \<Rightarrow> 'v ObjHolder option \<Rightarrow> 'v access" where
  "entry_access T e =
     (case e of
        None \<Rightarrow> AccNull
      | Some h \<Rightarrow>
          if ty_name (oh_type h) \<noteq> ty_name T then AccOther
          else (case oh_pt h of None \<Rightarrow> AccNull | Some v \<Rightarrow> AccOk v))"

definition AnyMap_get :: "'v cpp_type \<Rightarrow> 'v AnyMap \<Rightarrow> 'v access \<times> 'v AnyMap" where
  "AnyMap_get T m =
     (case om_find m (ty_hash T) of
        None \<Rightarrow> (AccOk (ty_default T), om_emplace (ty_hash T) (Some \<lparr>oh_type = T, oh_pt = Some (ty_default T)\<rparr>) m)
      | Some e \<Rightarrow> (entry_access T e, m))"

text \<open>Writing through the reference; \<open>None\<close> when there is no object of the type behind it.\<close>

definition AnyMap_assign_ref :: "'v cpp_type \<Rightarrow> 'v \<Rightarrow> 'v AnyMap \<Rightarrow> 'v AnyMap option" where
  "AnyMap_assign_ref T v m =
     (case AnyMap_get T m of
        (AccOk _, m) \<Rightarrow> Some (om_put (ty_hash T) (Some \<lparr>oh_type = T, oh_pt = Some v\<rparr>) m)
      | _ \<Rightarrow> None)"

definition AnyMap_take :: "'v cpp_type \<Rightarrow> 'v AnyMap \<Rightarrow> 'v access \<times> 'v AnyMap" where
  "AnyMap_take T m =
     (case om_find m (ty_hash T) of
        None \<Rightarrow> (AccOk (ty_default T), m)
      | Some e \<Rightarrow>
          (case entry_access T e of
             AccOk v \<Rightarrow> (AccOk v, om_put (ty_hash T) (Some \<lparr>oh_type = T, oh_pt = Some (ty_moved T v)\<rparr>) m)
           | a \<Rightarrow> (a, m)))"

text \<open>The value is copied or moved into a new holder; a pointer is taken over, also when it is null.\<close>

definition AnyMap_set_ptr :: "'v cpp_type \<Rightarrow> 'v option \<Rightarrow> 'v AnyMap \<Rightarrow> 'v AnyMap" where
  "AnyMap_set_ptr T pt m =
     (case om_find m (ty_hash T) of
        Some _ \<Rightarrow> om_put (ty_hash T) (Some \<lparr>oh_type = T, oh_pt = pt\<rparr>) m
      | None \<Rightarrow> om_emplace (ty_hash T) (Some \<lparr>oh_type = T, oh_pt = pt\<rparr>) m)"

definition AnyMap_set :: "'v cpp_type \<Rightarrow> 'v \<Rightarrow> 'v AnyMap \<Rightarrow> 'v AnyMap" where
  "AnyMap_set T v m =
     (case om_find m (ty_hash T) of
        Some _ \<Rightarrow> om_put (ty_hash T) (Some \<lparr>oh_type = T, oh_pt = Some v\<rparr>) m
      | None \<Rightarrow> om_emplace (ty_hash T) (Some \<lparr>oh_type = T, oh_pt = Some v\<rparr>) m)"

definition AnyMap_has :: "'v cpp_type \<Rightarrow> 'v AnyMap \<Rightarrow> bool" where
  "AnyMap_has T m = (om_find m (ty_hash T) \<noteq> None)"

definition AnyMap_clear :: "'v cpp_type \<Rightarrow> 'v AnyMap \<Rightarrow> 'v AnyMap" where
  "AnyMap_clear T m = om_erase (ty_hash T) m"

text \<open>The loops over the other map, which is another object (a map assigned or added to itself is left as it is);
  cloning a null entry is a call on a null pointer, \<open>None\<close>.\<close>

fun copy_entries :: "'v AnyMap \<Rightarrow> 'v AnyMap \<Rightarrow> 'v AnyMap option" where
  "copy_entries [] m = Some m"
| "copy_entries ((k, e) # t) m =
     (case e of
        None \<Rightarrow> None
      | Some h \<Rightarrow>
          (case ObjHolder_clone h of
             None \<Rightarrow> copy_entries t m
           | Some h' \<Rightarrow> copy_entries t (om_emplace k (Some h') m)))"

definition AnyMap_assign :: "'v AnyMap \<Rightarrow> 'v AnyMap option" where
  "AnyMap_assign t = copy_entries t om_empty"

fun add_entries :: "'v AnyMap \<Rightarrow> 'v AnyMap \<Rightarrow> 'v AnyMap option" where
  "add_entries [] m = Some m"
| "add_entries ((k, e) # rhs) m =
     (case e of
        None \<Rightarrow> None
      | Some h \<Rightarrow>
          (case ObjHolder_clone h of
             None \<Rightarrow> add_entries rhs m
           | Some _ \<Rightarrow> add_entries rhs (om_put k (ObjHolder_clone h) m)))"

text \<open>The entries of the other map stay, without their holders.\<close>

fun move_entries :: "'v AnyMap \<Rightarrow> 'v AnyMap \<Rightarrow> 'v AnyMap \<times> 'v AnyMap" where
  "move_entries [] m = (m, [])"
| "move_entries ((k, e) # rhs) m =
     (case move_entries rhs (om_put k e m) of (m, rhs) \<Rightarrow> (m, (k, None) # rhs))"

section \<open>Types\<close>

text \<open>A set of types in use, which differ in name and hash.\<close>

definition types_ok :: "'v cpp_type set \<Rightarrow> bool" where
  "types_ok TT \<longleftrightarrow> inj_on ty_hash TT \<and> inj_on ty_name TT"

text \<open>Every entry is a holder of a value, of the type whose hash is the key.\<close>

definition am_ok :: "'v cpp_type set \<Rightarrow> 'v AnyMap \<Rightarrow> bool" where
  "am_ok TT m \<longleftrightarrow> om_ok m \<and>
     (\<forall>k e. om_find m k = Some e \<longrightarrow> (\<exists>T\<in>TT. \<exists>v. k = ty_hash T \<and> e = Some \<lparr>oh_type = T, oh_pt = Some v\<rparr>))"

text \<open>The value of a type.\<close>

definition am_val :: "'v AnyMap \<Rightarrow> 'v cpp_type \<Rightarrow> 'v option" where
  "am_val m T = (case om_find m (ty_hash T) of Some (Some h) \<Rightarrow> oh_pt h | _ \<Rightarrow> None)"

datatype 'v am_op =
    AmGet "'v cpp_type"
  | AmWrite "'v cpp_type" 'v
  | AmTake "'v cpp_type"
  | AmSet "'v cpp_type" 'v
  | AmSetPtr "'v cpp_type" 'v
  | AmClear "'v cpp_type"
  | AmAssign "'v AnyMap"
  | AmAddCopy "'v AnyMap"
  | AmAddMove "'v AnyMap"

fun am_step :: "'v am_op \<Rightarrow> 'v AnyMap \<Rightarrow> 'v AnyMap option" where
  "am_step (AmGet T) m = (case AnyMap_get T m of (AccOk _, m) \<Rightarrow> Some m | _ \<Rightarrow> None)"
| "am_step (AmWrite T v) m = AnyMap_assign_ref T v m"
| "am_step (AmTake T) m = (case AnyMap_take T m of (AccOk _, m) \<Rightarrow> Some m | _ \<Rightarrow> None)"
| "am_step (AmSet T v) m = Some (AnyMap_set T v m)"
| "am_step (AmSetPtr T v) m = Some (AnyMap_set_ptr T (Some v) m)"
| "am_step (AmClear T) m = Some (AnyMap_clear T m)"
| "am_step (AmAssign t) m = AnyMap_assign t"
| "am_step (AmAddCopy rhs) m = add_entries rhs m"
| "am_step (AmAddMove rhs) m = Some (fst (move_entries rhs m))"

fun am_run :: "'v am_op list \<Rightarrow> 'v AnyMap \<Rightarrow> 'v AnyMap option" where
  "am_run [] m = Some m"
| "am_run (p # ps) m = Option.bind (am_step p m) (am_run ps)"

text \<open>The specification: a value for every type.\<close>

fun am_spec :: "'v am_op \<Rightarrow> ('v cpp_type \<Rightarrow> 'v option) \<Rightarrow> 'v cpp_type \<Rightarrow> 'v option" where
  "am_spec (AmGet T) s U = (if U = T then Some (case s T of Some v \<Rightarrow> v | None \<Rightarrow> ty_default T) else s U)"
| "am_spec (AmWrite T v) s U = (if U = T then Some v else s U)"
| "am_spec (AmTake T) s U = (if U = T then map_option (ty_moved T) (s T) else s U)"
| "am_spec (AmSet T v) s U = (if U = T then Some v else s U)"
| "am_spec (AmSetPtr T v) s U = (if U = T then Some v else s U)"
| "am_spec (AmClear T) s U = (if U = T then None else s U)"
| "am_spec (AmAssign t) s U = (if ty_copyable U then am_val t U else None)"
| "am_spec (AmAddCopy rhs) s U = (if ty_copyable U \<and> am_val rhs U \<noteq> None then am_val rhs U else s U)"
| "am_spec (AmAddMove rhs) s U = (if am_val rhs U \<noteq> None then am_val rhs U else s U)"

fun am_op_ok :: "'v cpp_type set \<Rightarrow> 'v am_op \<Rightarrow> bool" where
  "am_op_ok TT (AmGet T) = (T \<in> TT)"
| "am_op_ok TT (AmWrite T v) = (T \<in> TT)"
| "am_op_ok TT (AmTake T) = (T \<in> TT)"
| "am_op_ok TT (AmSet T v) = (T \<in> TT)"
| "am_op_ok TT (AmSetPtr T v) = (T \<in> TT)"
| "am_op_ok TT (AmClear T) = (T \<in> TT)"
| "am_op_ok TT (AmAssign t) = am_ok TT t"
| "am_op_ok TT (AmAddCopy t) = am_ok TT t"
| "am_op_ok TT (AmAddMove t) = am_ok TT t"

lemma am_okD:
  assumes "am_ok TT m" and "om_find m k = Some e"
  obtains T v where "T \<in> TT" "k = ty_hash T" "e = Some \<lparr>oh_type = T, oh_pt = Some v\<rparr>"
  using assms unfolding am_ok_def by blast

lemma am_ok_empty: "am_ok TT om_empty"
  by (simp add: am_ok_def om.find_empty om.ok_empty)

lemma am_ok_put: "am_ok TT m \<Longrightarrow> T \<in> TT \<Longrightarrow> am_ok TT (om_put (ty_hash T) (Some \<lparr>oh_type = T, oh_pt = Some v\<rparr>) m)"
  by (auto simp: am_ok_def om.find_put om.ok_put)

lemma am_ok_erase: "am_ok TT m \<Longrightarrow> am_ok TT (om_erase k m)"
  by (auto simp: am_ok_def om.find_erase om.ok_erase split: if_splits)

lemma om_emplace_absent: "om_find m k = None \<Longrightarrow> om_emplace k v m = om_put k v m"
  by (simp add: om_emplace_def)

lemma am_val_put:
  assumes "types_ok TT" and "T \<in> TT" and "U \<in> TT"
  shows "am_val (om_put (ty_hash T) (Some \<lparr>oh_type = T, oh_pt = Some v\<rparr>) m) U = (if U = T then Some v else am_val m U)"
  using assms by (auto simp: am_val_def om.find_put types_ok_def inj_on_eq_iff)

lemma am_val_erase:
  assumes "types_ok TT" and "T \<in> TT" and "U \<in> TT"
  shows "am_val (om_erase (ty_hash T) m) U = (if U = T then None else am_val m U)"
  using assms by (auto simp: am_val_def om.find_erase types_ok_def inj_on_eq_iff)

lemma am_val_empty: "am_val om_empty = (\<lambda>_. None)"
  by (auto simp: am_val_def om.find_empty)

text \<open>What the map holds for a type in use.\<close>

lemma am_find:
  assumes "types_ok TT" and "am_ok TT m" and "T \<in> TT"
  shows "om_find m (ty_hash T) = map_option (\<lambda>v. Some \<lparr>oh_type = T, oh_pt = Some v\<rparr>) (am_val m T)"
proof (cases "om_find m (ty_hash T)")
  case (Some e)
  then obtain U v where "U \<in> TT" "ty_hash T = ty_hash U" "e = Some \<lparr>oh_type = U, oh_pt = Some v\<rparr>"
    using am_okD [OF assms(2)] by blast
  moreover from this have "U = T" using assms by (metis types_ok_def inj_on_eq_iff)
  ultimately show ?thesis using Some by (simp add: am_val_def)
qed (simp add: am_val_def)

lemma entry_access_same: "entry_access T (Some \<lparr>oh_type = T, oh_pt = Some v\<rparr>) = AccOk v"
  by (simp add: entry_access_def)

lemma am_ok_Cons:
  assumes "am_ok TT ((k, e) # t)"
  obtains T v where "T \<in> TT" "k = ty_hash T" "e = Some \<lparr>oh_type = T, oh_pt = Some v\<rparr>" "am_ok TT t" "om_find t (ty_hash T) = None"
proof -
  obtain T v where T: "T \<in> TT" "k = ty_hash T" "e = Some \<lparr>oh_type = T, oh_pt = Some v\<rparr>"
    using am_okD [OF assms, of k e] by (auto simp: om_find_Cons)
  have absent: "om_find t k = None" and ok: "om_ok t"
    using assms by (auto simp: am_ok_def om_ok_Cons om_find_None_iff)
  have "am_ok TT t" unfolding am_ok_def
  proof (intro conjI ok allI impI)
    fix k' e' assume k': "om_find t k' = Some e'"
    then have "om_find ((k, e) # t) k' = Some e'" using absent by (auto simp: om_find_Cons)
    then show "\<exists>T\<in>TT. \<exists>v. k' = ty_hash T \<and> e' = Some \<lparr>oh_type = T, oh_pt = Some v\<rparr>"
      by (rule am_okD [OF assms]) blast
  qed
  with T absent that show thesis by blast
qed

lemma copy_is_add:
  assumes "om_ok t" and "\<And>k. om_find t k \<noteq> None \<Longrightarrow> om_find m k = None"
  shows "copy_entries t m = add_entries t m"
  using assms
proof (induction t m rule: copy_entries.induct)
  case (2 k e t m)
  have absent: "om_find m k = None" using "2.prems"(2) [of k] by (simp add: om_find_Cons)
  have k: "om_find t k = None" and t: "om_ok t" using "2.prems"(1) by (auto simp: om_ok_Cons om_find_None_iff)
  have m: "om_find m k' = None" if "om_find t k' \<noteq> None" for k'
    using "2.prems"(2) [of k'] that by (auto simp: om_find_Cons split: if_splits)
  have put: "om_find (om_put k v m) k' = None" if "om_find t k' \<noteq> None" for k' v
    using m [OF that] that k by (auto simp: om.find_put)
  show ?case
  proof (cases e)
    case (Some h)
    show ?thesis
    proof (cases "ObjHolder_clone h")
      case None
      then show ?thesis using "2.IH"(1) [OF Some None t m] Some by simp
    next
      case (Some h')
      then show ?thesis
        using "2.IH"(2) [OF \<open>e = Some h\<close> Some t] put \<open>e = Some h\<close> by (simp add: om_emplace_absent [OF absent])
    qed
  qed simp
qed simp

lemma add_entries_val:
  assumes "types_ok TT" and "am_ok TT t" and "am_ok TT m"
  shows "\<exists>m'. add_entries t m = Some m' \<and> am_ok TT m' \<and>
    (\<forall>U\<in>TT. am_val m' U = (if ty_copyable U \<and> am_val t U \<noteq> None then am_val t U else am_val m U))"
  using assms(2,3)
proof (induction t arbitrary: m)
  case (Cons p t)
  obtain k e where p: "p = (k, e)" by fastforce
  obtain T v where T: "T \<in> TT" "k = ty_hash T" "e = Some \<lparr>oh_type = T, oh_pt = Some v\<rparr>" "am_ok TT t" "om_find t (ty_hash T) = None"
    using am_ok_Cons Cons.prems(1) unfolding p by blast
  have val: "am_val (p # t) U = (if U = T then Some v else am_val t U)" if "U \<in> TT" for U
    using assms(1) T that by (auto simp: am_val_def p om_find_Cons types_ok_def inj_on_eq_iff)
  have none: "am_val t T = None" using T(5) by (simp add: am_val_def)
  show ?case
  proof (cases "ty_copyable T")
    case True
    let ?m = "om_put k (Some \<lparr>oh_type = T, oh_pt = Some v\<rparr>) m"
    obtain m' where "add_entries t ?m = Some m'" "am_ok TT m'"
      "\<forall>U\<in>TT. am_val m' U = (if ty_copyable U \<and> am_val t U \<noteq> None then am_val t U else am_val ?m U)"
      using Cons.IH [OF T(4), of ?m] am_ok_put [OF Cons.prems(2) T(1)] T(2) by blast
    then show ?thesis using True T val none am_val_put [OF assms(1) T(1)] by (auto simp: p ObjHolder_clone_def)
  next
    case False
    then show ?thesis using Cons.IH [OF T(4) Cons.prems(2)] T val none by (auto simp: p ObjHolder_clone_def)
  qed
qed (simp add: am_val_def)

lemma move_entries_val:
  assumes "types_ok TT" and "am_ok TT t" and "am_ok TT m"
  shows "am_ok TT (fst (move_entries t m)) \<and>
    (\<forall>U\<in>TT. am_val (fst (move_entries t m)) U = (if am_val t U \<noteq> None then am_val t U else am_val m U))"
  using assms(2,3)
proof (induction t arbitrary: m)
  case (Cons p t)
  obtain k e where p: "p = (k, e)" by fastforce
  obtain T v where T: "T \<in> TT" "k = ty_hash T" "e = Some \<lparr>oh_type = T, oh_pt = Some v\<rparr>" "am_ok TT t" "om_find t (ty_hash T) = None"
    using am_ok_Cons Cons.prems(1) unfolding p by blast
  have val: "am_val (p # t) U = (if U = T then Some v else am_val t U)" if "U \<in> TT" for U
    using assms(1) T that by (auto simp: am_val_def p om_find_Cons types_ok_def inj_on_eq_iff)
  have none: "am_val t T = None" using T(5) by (simp add: am_val_def)
  have "fst (move_entries (p # t) m) = fst (move_entries t (om_put k e m))"
    by (simp add: p case_prod_unfold)
  then show ?case
    using Cons.IH [OF T(4) am_ok_put [OF Cons.prems(2) T(1)], of v] T val none am_val_put [OF assms(1) T(1)] by auto
qed (simp add: am_val_def)

lemma am_step_refines:
  assumes "types_ok TT" and "am_ok TT m" and "am_op_ok TT p"
  shows "\<exists>m'. am_step p m = Some m' \<and> am_ok TT m' \<and> (\<forall>U\<in>TT. am_val m' U = am_spec p (am_val m) U)"
proof -
  note find = am_find [OF assms(1,2)]
  note put = am_ok_put [OF assms(2)] am_val_put [OF assms(1)]
  show ?thesis
  proof (cases p)
    case (AmGet T)
    with assms find [of T] put [of T] show ?thesis
      by (cases "am_val m T") (auto simp: AnyMap_get_def entry_access_same om_emplace_absent)
  next
    case (AmWrite T v)
    have "om_put k x (om_put k y n) = om_put k x n" for k x y and n :: "'a AnyMap"
      by (induction n) auto
    with AmWrite assms find [of T] put [of T] show ?thesis
      by (cases "am_val m T") (auto simp: AnyMap_assign_ref_def AnyMap_get_def entry_access_same om_emplace_absent)
  next
    case (AmTake T)
    with assms find [of T] put [of T] show ?thesis
      by (cases "am_val m T") (auto simp: AnyMap_take_def entry_access_same)
  next
    case (AmSet T v)
    with assms put [of T] show ?thesis
      by (cases "om_find m (ty_hash T)") (auto simp: AnyMap_set_def om_emplace_absent)
  next
    case (AmSetPtr T v)
    with assms put [of T] show ?thesis
      by (cases "om_find m (ty_hash T)") (auto simp: AnyMap_set_ptr_def om_emplace_absent)
  next
    case (AmClear T)
    with assms am_ok_erase [OF assms(2)] am_val_erase [OF assms(1)] show ?thesis by (simp add: AnyMap_clear_def)
  next
    case (AmAssign t)
    then have t: "am_ok TT t" using assms(3) by simp
    have "AnyMap_assign t = add_entries t om_empty"
      unfolding AnyMap_assign_def by (rule copy_is_add) (use t in \<open>simp_all add: am_ok_def om.find_empty\<close>)
    with AmAssign add_entries_val [OF assms(1) t am_ok_empty] show ?thesis
      by (auto simp: am_val_def om.find_empty)
  next
    case (AmAddCopy t)
    with add_entries_val [OF assms(1) _ assms(2), of t] assms(3) show ?thesis by auto
  next
    case (AmAddMove t)
    with move_entries_val [OF assms(1) _ assms(2), of t] assms(3) show ?thesis by auto
  qed
qed

fun am_spec_run :: "'v am_op list \<Rightarrow> ('v cpp_type \<Rightarrow> 'v option) \<Rightarrow> 'v cpp_type \<Rightarrow> 'v option" where
  "am_spec_run [] s = s"
| "am_spec_run (p # ps) s = am_spec_run ps (am_spec p s)"

lemma am_spec_cong:
  assumes "\<forall>U\<in>TT. s U = s' U" and "am_op_ok TT p" and "U \<in> TT"
  shows "am_spec p s U = am_spec p s' U"
  using assms by (cases p) auto

lemma am_spec_run_cong:
  assumes "\<forall>U\<in>TT. s U = s' U" and "\<forall>p\<in>set ps. am_op_ok TT p" and "U \<in> TT"
  shows "am_spec_run ps s U = am_spec_run ps s' U"
  using assms
proof (induction ps arbitrary: s s')
  case (Cons p ps)
  then have "\<forall>U\<in>TT. am_spec p s U = am_spec p s' U" using am_spec_cong [OF Cons.prems(1)] by simp
  with Cons show ?case by simp
qed simp

lemma am_run_refines:
  assumes "types_ok TT" and "am_ok TT m" and "\<forall>p\<in>set ps. am_op_ok TT p"
  shows "\<exists>m'. am_run ps m = Some m' \<and> am_ok TT m' \<and> (\<forall>U\<in>TT. am_val m' U = am_spec_run ps (am_val m) U)"
  using assms(2,3)
proof (induction ps arbitrary: m)
  case (Cons p ps)
  obtain m1 where m1: "am_step p m = Some m1" "am_ok TT m1" "\<forall>U\<in>TT. am_val m1 U = am_spec p (am_val m) U"
    using am_step_refines [OF assms(1) Cons.prems(1), of p] Cons.prems(2) by auto
  obtain m2 where "am_run ps m1 = Some m2" "am_ok TT m2" "\<forall>U\<in>TT. am_val m2 U = am_spec_run ps (am_val m1) U"
    using Cons.IH [OF m1(2)] Cons.prems(2) by auto
  then show ?case using m1 am_spec_run_cong [OF m1(3), of ps] Cons.prems(2) by simp
qed simp


definition demo_int :: "nat cpp_type" where
  "demo_int = \<lparr>ty_name = ''int'', ty_hash = 1, ty_default = 0, ty_copyable = True, ty_moved = id\<rparr>"

definition demo_lock :: "nat cpp_type" where
  "demo_lock = \<lparr>ty_name = ''std::mutex'', ty_hash = 2, ty_default = 9, ty_copyable = False, ty_moved = id\<rparr>"


section \<open>Where it fails\<close>

text \<open>Types with one hash are confused.\<close>

lemma AnyMap_hash_collision:
  assumes "ty_hash T = ty_hash U" and "ty_name T \<noteq> ty_name U"
  shows "fst (AnyMap_get T (AnyMap_set U v m)) = AccOther"
  using assms
  by (cases "om_find m (ty_hash U)")
    (auto simp: AnyMap_get_def AnyMap_set_def om_emplace_absent om.find_put entry_access_def)

text \<open>A null pointer that is stored is given out as a reference.\<close>

lemma AnyMap_null_pointer: "fst (AnyMap_get T (AnyMap_set_ptr T None m)) = AccNull"
  by (cases "om_find m (ty_hash T)")
    (auto simp: AnyMap_get_def AnyMap_set_ptr_def om_emplace_absent om.find_put entry_access_def)

text \<open>A map that was added by move to another one keeps its keys with null entries: reading any of its types
  and copying the map are calls on a null pointer.\<close>

lemma move_entries_rest: "snd (move_entries t m) = map (\<lambda>(k, e). (k, None)) t"
  by (induction t m rule: move_entries.induct) (simp_all add: case_prod_unfold)

lemma AnyMap_moved_from:
  fixes t :: "'v AnyMap"
  assumes "om_find t (ty_hash T) \<noteq> None"
  shows "fst (AnyMap_get T (snd (move_entries t m))) = AccNull" and "AnyMap_assign (snd (move_entries t m)) = None"
proof -
  have "om_find (map (\<lambda>(k, e). (k, None :: 'v ObjHolder option)) t) (ty_hash T) = Some None"
    using assms by (induction t) (auto simp: om_find_def split: if_splits)
  then show "fst (AnyMap_get T (snd (move_entries t m))) = AccNull"
    by (simp add: move_entries_rest AnyMap_get_def entry_access_def)
  show "AnyMap_assign (snd (move_entries t m)) = None"
    using assms by (cases t) (auto simp: move_entries_rest AnyMap_assign_def)
qed

end
