(* ===== verification/FC_BinData.thy ===== *)
theory FC_BinData
  imports FC_Prelude
begin

text \<open>
  \<^verbatim>\<open>utils/BinData\<close> and \<^verbatim>\<open>utils/SafeData\<close>: the owning byte buffer every other component
  stores keys, hashes and encodings in.

  The heap block is the list of its bytes (its length is the allocated capacity), and
  \<open>len\<close> is the used length, which \<^verbatim>\<open>truncateFront\<close> makes smaller than the capacity.
  An operation returns the new object together with the blocks handed back to the
  allocator, with the contents they had at that moment; \<open>None\<close> is an access outside an
  allocated block.  A source pointer is \<open>None\<close> (null) or the bytes readable behind it.
\<close>

section \<open>Model\<close>

record BinData =
  bSecure :: bool
  buffer :: "bytes option"
  len :: nat

type_synonym bd_result = "(BinData \<times> bytes list) option"

definition BinData_new :: "bool \<Rightarrow> BinData" where
  "BinData_new secure = \<lparr>bSecure = secure, buffer = None, len = 0\<rparr>"

definition zeroize :: "nat \<Rightarrow> bytes \<Rightarrow> bytes" where
  "zeroize n d = replicate n 0 @ drop n d"

definition BinData_cleanup :: "BinData \<Rightarrow> BinData \<times> bytes list" where
  "BinData_cleanup b =
     (b\<lparr>buffer := None, len := 0\<rparr>,
      case buffer b of
        None \<Rightarrow> []
      | Some d \<Rightarrow> [if bSecure b \<and> 0 < len b then zeroize (len b) d else d])"

definition BinData_clear :: "BinData \<Rightarrow> BinData \<times> bytes list" where
  "BinData_clear b = BinData_cleanup b"

text \<open>\<^verbatim>\<open>realloc\<close> to length 0 releases the block and gives null; otherwise the old block may
  be handed back as it is.\<close>

definition BinData_resize :: "nat \<Rightarrow> BinData \<Rightarrow> BinData \<times> bytes list" where
  "BinData_resize n b =
     (if len b \<noteq> n then
        (case buffer b of
           None \<Rightarrow> (b\<lparr>buffer := Some (replicate n 0), len := n\<rparr>, [])
         | Some d \<Rightarrow>
             if \<not> bSecure b then
               (b\<lparr>buffer := (if n = 0 then None
                            else Some (take n (take (len b) d) @ replicate (n - len b) 0)),
                  len := n\<rparr>, [d])
             else
               (let newData = take (min n (len b)) d @ replicate (n - min n (len b)) 0;
                    (b', released) = BinData_cleanup b
                in (b'\<lparr>buffer := Some newData, len := n\<rparr>, released)))
      else (b, []))"

definition BinData_setData :: "bytes option \<Rightarrow> nat \<Rightarrow> BinData \<Rightarrow> bd_result" where
  "BinData_setData src n b =
     (let (b', released) = BinData_cleanup b
      in case src of
           None \<Rightarrow> Some (b', released)
         | Some d \<Rightarrow>
             if n = 0 then Some (b', released)
             else if n \<le> length d
               then Some (b'\<lparr>buffer := Some (take n d), len := n\<rparr>, released)
               else None)"

text \<open>\<^verbatim>\<open>setBuffer\<close> takes over a block of the caller.\<close>

definition BinData_setBuffer :: "bytes option \<Rightarrow> nat \<Rightarrow> BinData \<Rightarrow> BinData \<times> bytes list" where
  "BinData_setBuffer src n b =
     (let (b', released) = BinData_cleanup b
      in if n = 0 then (b', released @ (case src of None \<Rightarrow> [] | Some d \<Rightarrow> [d]))
         else (case src of
                 None \<Rightarrow> (b', released)
               | Some d \<Rightarrow> (b'\<lparr>buffer := Some d, len := n\<rparr>, released)))"

definition BinData_truncateFront :: "nat \<Rightarrow> BinData \<Rightarrow> BinData" where
  "BinData_truncateFront n b =
     (let k = (if n > len b then len b else n)
      in if k > 0 then
           b\<lparr>buffer := map_option (\<lambda>d. take (len b - k) (drop k d) @ drop (len b - k) d) (buffer b),
             len := len b - k\<rparr>
         else b)"

text \<open>\<^verbatim>\<open>pos + len\<close> is a \<^verbatim>\<open>size_t\<close> addition and wraps.\<close>

definition BinData_sub :: "nat \<Rightarrow> nat \<Rightarrow> BinData \<Rightarrow> BinData option" where
  "BinData_sub pos n b =
     (let ret = BinData_new (bSecure b)
      in if n = 0 then Some ret
         else
           let (pos', n') =
                 (if pos > len b then (0, 0)
                  else if szadd pos n > len b then (pos, len b - pos)
                  else (pos, n))
           in map_option fst (BinData_setData (map_option (drop pos') (buffer b)) n' ret))"

definition BinData_append :: "bytes option \<Rightarrow> nat \<Rightarrow> BinData \<Rightarrow> bd_result" where
  "BinData_append src n b =
     (if n = 0 then Some (b, [])
      else case src of
        None \<Rightarrow> Some (b, [])
      | Some d \<Rightarrow>
          let newLen = szadd (len b) n;
              newBuffer = (case buffer b of None \<Rightarrow> [] | Some e \<Rightarrow> take (len b) e) @ take n d;
              (b', released) = BinData_cleanup b
          in if n \<le> length d \<and> len b + n \<le> newLen
             then Some (b'\<lparr>buffer := Some newBuffer, len := newLen\<rparr>, released)
             else None)"

definition BinData_prepend :: "bytes option \<Rightarrow> nat \<Rightarrow> BinData \<Rightarrow> bd_result" where
  "BinData_prepend src n b =
     (if n = 0 then Some (b, [])
      else case src of
        None \<Rightarrow> Some (b, [])
      | Some d \<Rightarrow>
          let newLen = szadd (len b) n;
              newBuffer = take n d @ (case buffer b of None \<Rightarrow> [] | Some e \<Rightarrow> take (len b) e);
              (b', released) = BinData_cleanup b
          in if n \<le> length d \<and> len b + n \<le> newLen
             then Some (b'\<lparr>buffer := Some newBuffer, len := newLen\<rparr>, released)
             else None)"

definition BinData_isEmpty :: "BinData \<Rightarrow> bool" where
  "BinData_isEmpty b = (len b = 0)"

definition BinData_eq :: "BinData \<Rightarrow> BinData \<Rightarrow> bool" where
  "BinData_eq a b =
     (len a = len b \<and>
      (case buffer a of None \<Rightarrow> [] | Some d \<Rightarrow> take (len a) d) =
      (case buffer b of None \<Rightarrow> [] | Some d \<Rightarrow> take (len a) d))"

definition BinData_addAssign :: "BinData \<Rightarrow> BinData \<Rightarrow> bd_result" where
  "BinData_addAssign rhs b = BinData_append (buffer rhs) (len rhs) b"

text \<open>Assignment between two distinct objects: the new target, the new source and the
  blocks the target released.\<close>

definition BinData_assign_move :: "BinData \<Rightarrow> BinData \<Rightarrow> BinData \<times> BinData \<times> bytes list" where
  "BinData_assign_move this rhs =
     (let (this', released) = BinData_cleanup this
      in (this'\<lparr>bSecure := bSecure rhs, buffer := buffer rhs, len := len rhs\<rparr>,
          rhs\<lparr>buffer := None, len := 0\<rparr>,
          released))"

definition BinData_assign_copy :: "BinData \<Rightarrow> BinData \<Rightarrow> bd_result" where
  "BinData_assign_copy this rhs =
     map_option (\<lambda>(this', released). (this'\<lparr>bSecure := bSecure rhs\<rparr>, released))
       (BinData_setData (buffer rhs) (len rhs) this)"

definition BinData_of_bytes :: "bytes \<Rightarrow> bd_result" where
  "BinData_of_bytes d = BinData_setData (Some d) (length d) (BinData_new False)"

definition BinData_of_string :: "string \<Rightarrow> bd_result" where
  "BinData_of_string s =
     BinData_setData (Some (string_bytes s)) (length s) (BinData_new False)"

definition BinData_of_cstr :: "string option \<Rightarrow> bd_result" where
  "BinData_of_cstr psz =
     (case psz of
        None \<Rightarrow> Some (BinData_new False, [])
      | Some s \<Rightarrow>
          let str = takeWhile (\<lambda>c. c \<noteq> CHR 0x00) s
          in if str \<noteq> []
             then BinData_setData (Some (string_bytes str)) (length str) (BinData_new False)
             else Some (BinData_new False, []))"

definition BinData_plus :: "BinData \<Rightarrow> BinData \<Rightarrow> bd_result" where
  "BinData_plus lhs rhs =
     (case BinData_assign_copy (BinData_new False) lhs of
        None \<Rightarrow> None
      | Some (ret, _) \<Rightarrow> BinData_addAssign rhs ret)"

text \<open>\<^verbatim>\<open>SafeData\<close> starts secure; its constructors from another object assign through
  \<^verbatim>\<open>BinData::operator=\<close>.\<close>

definition SafeData_new :: BinData where
  "SafeData_new = BinData_new True"

definition SafeData_of_bytes :: "bytes \<Rightarrow> bd_result" where
  "SafeData_of_bytes d = BinData_setData (Some d) (length d) SafeData_new"

definition SafeData_of_string :: "string \<Rightarrow> bd_result" where
  "SafeData_of_string s = BinData_setData (Some (string_bytes s)) (length s) SafeData_new"

definition SafeData_move :: "BinData \<Rightarrow> BinData \<times> BinData \<times> bytes list" where
  "SafeData_move rhs = BinData_assign_move SafeData_new rhs"

definition SafeData_copy :: "BinData \<Rightarrow> bd_result" where
  "SafeData_copy rhs = BinData_assign_copy SafeData_new rhs"

definition SafeData_assign_move :: "BinData \<Rightarrow> BinData \<Rightarrow> BinData \<times> BinData \<times> bytes list" where
  "SafeData_assign_move this rhs = BinData_assign_move this rhs"

definition SafeData_assign_copy :: "BinData \<Rightarrow> BinData \<Rightarrow> bd_result" where
  "SafeData_assign_copy this rhs = BinData_assign_copy this rhs"

text \<open>Appending on the byte sequence a buffer stands for, with the null check of \<^verbatim>\<open>append\<close>: an
  empty buffer has a null data pointer.  \<open>None\<close> reads past the source.\<close>

definition append_bytes :: "bytes \<Rightarrow> nat \<Rightarrow> bytes \<Rightarrow> bytes option" where
  "append_bytes d n acc =
     (if n = 0 \<or> d = [] then Some acc
      else if n \<le> length d then Some (acc @ take n d) else None)"

section \<open>Abstraction and invariant\<close>

definition bd_bytes :: "BinData \<Rightarrow> bytes" where
  "bd_bytes b = (case buffer b of None \<Rightarrow> [] | Some d \<Rightarrow> take (len b) d)"

definition bd_ok :: "BinData \<Rightarrow> bool" where
  "bd_ok b = (case buffer b of None \<Rightarrow> len b = 0 | Some d \<Rightarrow> len b \<le> length d \<and> length d < SIZE_MOD)"

definition bd_tight :: "BinData \<Rightarrow> bool" where
  "bd_tight b = (case buffer b of None \<Rightarrow> len b = 0 | Some d \<Rightarrow> length d = len b)"

definition wiped :: "bytes list \<Rightarrow> bool" where
  "wiped blocks = list_all (list_all (\<lambda>x. x = 0)) blocks"

lemmas bd_defs = BinData_new_def BinData_cleanup_def BinData_clear_def BinData_resize_def
  BinData_setData_def BinData_setBuffer_def BinData_truncateFront_def BinData_sub_def
  BinData_append_def BinData_prepend_def

lemma length_bd_bytes: "bd_ok b \<Longrightarrow> length (bd_bytes b) = len b"
  by (auto simp: bd_ok_def bd_bytes_def split: option.splits)

lemma bd_cleanup_empty:
  "bd_bytes (fst (BinData_cleanup b)) = []" "bd_ok (fst (BinData_cleanup b))"
  "bd_tight (fst (BinData_cleanup b))" "bSecure (fst (BinData_cleanup b)) = bSecure b"
  by (simp_all add: BinData_cleanup_def bd_bytes_def bd_ok_def bd_tight_def)

lemma bd_cleanup_wiped: "bSecure b \<Longrightarrow> bd_tight b \<Longrightarrow> wiped (snd (BinData_cleanup b))"
  by (auto simp: BinData_cleanup_def bd_tight_def wiped_def zeroize_def list_all_iff
      split: option.splits)


section \<open>Every operation against the byte sequence it stands for\<close>

lemma bd_setData_refines [refine]:
  assumes "n \<le> length d" and "length d < SIZE_MOD"
  obtains b' r where "BinData_setData (Some d) n b = Some (b', r)"
    and "bd_bytes b' = take n d" and "bd_ok b'" and "bd_tight b'"
    and "bSecure b' = bSecure b" and "r = snd (BinData_cleanup b)"
  using assms that
  by (cases "n = 0")
    (simp_all add: BinData_setData_def BinData_cleanup_def bd_bytes_def bd_ok_def bd_tight_def)

lemma bd_append_refines [refine]:
  assumes "bd_ok b" and "n \<le> length d" and "len b + n < SIZE_MOD" and "0 < n"
  obtains b' r where "BinData_append (Some d) n b = Some (b', r)"
    and "bd_bytes b' = bd_bytes b @ take n d" and "bd_ok b'" and "bd_tight b'"
    and "bSecure b' = bSecure b" and "r = snd (BinData_cleanup b)"
  using assms that
  by (cases "buffer b")
    (auto simp: BinData_append_def BinData_cleanup_def bd_bytes_def bd_ok_def bd_tight_def)

lemma bd_prepend_refines [refine]:
  assumes "bd_ok b" and "n \<le> length d" and "len b + n < SIZE_MOD" and "0 < n"
  obtains b' r where "BinData_prepend (Some d) n b = Some (b', r)"
    and "bd_bytes b' = take n d @ bd_bytes b" and "bd_ok b'" and "bd_tight b'"
    and "bSecure b' = bSecure b" and "r = snd (BinData_cleanup b)"
  using assms that
  by (cases "buffer b")
    (auto simp: BinData_prepend_def BinData_cleanup_def bd_bytes_def bd_ok_def bd_tight_def)

lemma bd_truncateFront_refines [refine]:
  assumes "bd_ok b"
  shows "bd_bytes (BinData_truncateFront n b) = drop n (bd_bytes b)"
    and "bd_ok (BinData_truncateFront n b)"
    and "bSecure (BinData_truncateFront n b) = bSecure b"
  using assms
  by (auto simp: BinData_truncateFront_def Let_def bd_bytes_def bd_ok_def take_drop
      split: option.splits)

lemma bd_resize_refines [refine]:
  assumes "bd_ok b" and "n < SIZE_MOD"
  shows "bd_bytes (fst (BinData_resize n b)) = take n (bd_bytes b) @ replicate (n - len b) 0"
    and "bd_ok (fst (BinData_resize n b))"
    and "bSecure (fst (BinData_resize n b)) = bSecure b"
  using assms
  by (auto simp: BinData_resize_def BinData_cleanup_def bd_bytes_def bd_ok_def Let_def min_def
      split: option.splits)

lemma bd_sub_refines [refine]:
  assumes ok: "bd_ok b" and fits: "pos + n < SIZE_MOD"
  shows "\<exists>b'. BinData_sub pos n b = Some b' \<and> bd_ok b' \<and> bSecure b' = bSecure b \<and>
           bd_bytes b' = (if pos \<le> len b then take n (drop pos (bd_bytes b)) else [])"
proof (cases "buffer b")
  case None
  with ok fits show ?thesis
    by (simp add: BinData_sub_def BinData_new_def BinData_setData_def BinData_cleanup_def
        bd_bytes_def bd_ok_def Let_def)
next
  case (Some d)
  have d: "len b \<le> length d" "length d < SIZE_MOD"
    using ok Some by (simp_all add: bd_ok_def)
  consider "n = 0" | "0 < n" "pos > len b" | "0 < n" "pos \<le> len b" "pos + n > len b" | "0 < n" "pos + n \<le> len b"
    by linarith
  then show ?thesis
    using Some d fits
    by cases (auto simp: BinData_sub_def BinData_new_def BinData_setData_def BinData_cleanup_def
        bd_bytes_def bd_ok_def drop_take min_def Let_def)
qed

lemma bd_eq_refines [refine]:
  assumes "bd_ok a" and "bd_ok b"
  shows "BinData_eq a b \<longleftrightarrow> bd_bytes a = bd_bytes b"
proof (cases "len a = len b")
  case True
  then show ?thesis by (auto simp: BinData_eq_def bd_bytes_def split: option.splits)
next
  case False
  with assms length_bd_bytes [of a] length_bd_bytes [of b] show ?thesis
    by (auto simp: BinData_eq_def)
qed

lemma append_bytes_refines [refine]:
  assumes "bd_ok b" and "len b + n < SIZE_MOD"
  shows "map_option (\<lambda>(b', r). bd_bytes b') (BinData_append (if d = [] then None else Some d) n b) =
           append_bytes d n (bd_bytes b)"
proof (cases "d = [] \<or> n = 0 \<or> \<not> n \<le> length d")
  case True
  then show ?thesis
    by (auto simp: append_bytes_def BinData_append_def Let_def)
next
  case False
  then have n: "n \<le> length d" "0 < n" by auto
  obtain b' r where "BinData_append (Some d) n b = Some (b', r)" "bd_bytes b' = bd_bytes b @ take n d"
    using bd_append_refines [OF assms(1) n(1) assms(2) n(2)] by blast
  with False show ?thesis
    by (simp add: append_bytes_def)
qed

section \<open>Sequences of operations\<close>

datatype bd_op =
    SetData bytes
  | Append bytes
  | Prepend bytes
  | Resize nat
  | TruncateFront nat
  | Clear

fun bd_exec :: "bd_op \<Rightarrow> BinData \<Rightarrow> bd_result" where
  "bd_exec (SetData d) b = BinData_setData (Some d) (length d) b"
| "bd_exec (Append d) b = BinData_append (Some d) (length d) b"
| "bd_exec (Prepend d) b = BinData_prepend (Some d) (length d) b"
| "bd_exec (Resize n) b = Some (BinData_resize n b)"
| "bd_exec (TruncateFront n) b = Some (BinData_truncateFront n b, [])"
| "bd_exec Clear b = Some (BinData_clear b)"

fun bd_spec :: "bd_op \<Rightarrow> bytes \<Rightarrow> bytes" where
  "bd_spec (SetData d) bs = d"
| "bd_spec (Append d) bs = bs @ d"
| "bd_spec (Prepend d) bs = d @ bs"
| "bd_spec (Resize n) bs = take n bs @ replicate (n - length bs) 0"
| "bd_spec (TruncateFront n) bs = drop n bs"
| "bd_spec Clear bs = []"

fun bd_run :: "bd_op list \<Rightarrow> BinData \<Rightarrow> bd_result" where
  "bd_run [] b = Some (b, [])"
| "bd_run (op # ops) b =
     (case bd_exec op b of
        None \<Rightarrow> None
      | Some (b', r) \<Rightarrow> map_option (\<lambda>(b'', r'). (b'', r @ r')) (bd_run ops b'))"

fun bd_fits :: "bd_op list \<Rightarrow> nat \<Rightarrow> bool" where
  "bd_fits [] n = True"
| "bd_fits (SetData d # ops) n = (length d < SIZE_MOD \<and> bd_fits ops (length d))"
| "bd_fits (Append d # ops) n = (n + length d < SIZE_MOD \<and> bd_fits ops (n + length d))"
| "bd_fits (Prepend d # ops) n = (n + length d < SIZE_MOD \<and> bd_fits ops (n + length d))"
| "bd_fits (Resize m # ops) n = (m < SIZE_MOD \<and> bd_fits ops m)"
| "bd_fits (TruncateFront m # ops) n = bd_fits ops (n - m)"
| "bd_fits (Clear # ops) n = bd_fits ops 0"

fun is_truncate :: "bd_op \<Rightarrow> bool" where
  "is_truncate (TruncateFront _) = True"
| "is_truncate _ = False"

lemma bd_fits_Cons:
  assumes "bd_fits (op # ops) (length bs)"
  shows "bd_fits [op] (length bs)" and "bd_fits ops (length (bd_spec op bs))"
  using assms by (cases op; simp add: min_def add.commute split: if_splits)+

lemma bd_exec_refines:
  assumes ok: "bd_ok b" and fits: "bd_fits [op] (len b)"
  shows "\<exists>b' r. bd_exec op b = Some (b', r) \<and> bd_ok b' \<and> bSecure b' = bSecure b \<and>
           bd_bytes b' = bd_spec op (bd_bytes b)"
proof (cases op)
  case (SetData d)
  with fits show ?thesis
    using bd_setData_refines [of "length d" d b] by (metis bd_exec.simps(1) bd_fits.simps(2)
        bd_spec.simps(1) order_refl take_all)
next
  case (Append d)
  show ?thesis
  proof (cases "d = []")
    case True
    with Append ok show ?thesis by (simp add: BinData_append_def)
  next
    case False
    with Append ok fits show ?thesis
      using bd_append_refines [of b "length d" d] by (metis bd_exec.simps(2) bd_fits.simps(3)
          bd_spec.simps(2) length_greater_0_conv order_refl take_all)
  qed
next
  case (Prepend d)
  show ?thesis
  proof (cases "d = []")
    case True
    with Prepend ok show ?thesis by (simp add: BinData_prepend_def)
  next
    case False
    with Prepend ok fits show ?thesis
      using bd_prepend_refines [of b "length d" d] by (metis bd_exec.simps(3) bd_fits.simps(4)
          bd_spec.simps(3) length_greater_0_conv order_refl take_all)
  qed
next
  case (Resize n)
  with ok fits show ?thesis
    using bd_resize_refines [of b n] by (cases "BinData_resize n b") (simp add: length_bd_bytes)
next
  case (TruncateFront n)
  with ok show ?thesis by (simp add: bd_truncateFront_refines)
next
  case Clear
  then show ?thesis
    using bd_cleanup_empty [of b] by (cases "BinData_cleanup b") (simp add: BinData_clear_def)
qed

lemma bd_exec_tight:
  assumes "bd_tight b" and "bSecure b" and "\<not> is_truncate op" and "bd_exec op b = Some (b', r)"
  shows "bd_tight b' \<and> bSecure b' \<and> wiped r"
proof -
  have w: "wiped (snd (BinData_cleanup b))"
    using assms(1,2) by (rule bd_cleanup_wiped [rotated])
  have nil: "wiped []" by (simp add: wiped_def)
  show ?thesis
  proof (cases op)
    case (TruncateFront n)
    with assms(3) show ?thesis by simp
  next
    case (Resize n)
    with assms w nil show ?thesis
      by (auto simp: BinData_resize_def Let_def bd_tight_def BinData_cleanup_def
          split: if_splits option.splits)
  qed (use assms w nil in
      \<open>auto simp: BinData_setData_def BinData_append_def BinData_prepend_def BinData_clear_def
          Let_def bd_tight_def BinData_cleanup_def min_def szadd_no_wrap
          split: if_splits option.splits\<close>)
qed

text \<open>Claim C12.  Any sequence of buffer operations whose lengths stay below the address
  space runs without touching memory outside a block, keeps the object well formed and
  its security flag, and holds exactly the bytes that the same operations give on byte
  sequences.\<close>

theorem BinData_refines_bytes:
  assumes "bd_ok b" and "bd_fits ops (len b)"
  shows "\<exists>b' r. bd_run ops b = Some (b', r) \<and> bd_ok b' \<and> bSecure b' = bSecure b \<and>
           bd_bytes b' = fold bd_spec ops (bd_bytes b)"
  using assms
proof (induction ops arbitrary: b)
  case (Cons op ops)
  have fits: "bd_fits (op # ops) (length (bd_bytes b))"
    using Cons.prems by (simp add: length_bd_bytes)
  obtain b1 r1 where b1: "bd_exec op b = Some (b1, r1)" "bd_ok b1" "bSecure b1 = bSecure b"
      "bd_bytes b1 = bd_spec op (bd_bytes b)"
    using bd_exec_refines [OF Cons.prems(1)] bd_fits_Cons(1) [OF fits] Cons.prems(1)
    by (metis length_bd_bytes)
  have "bd_fits ops (len b1)"
    using bd_fits_Cons(2) [OF fits] b1 by (metis length_bd_bytes)
  from Cons.IH [OF b1(2) this] b1 show ?case by auto
qed simp

theorem BinData_refines_bytes_witness:
  "\<exists>b' r. bd_run [SetData [1, 2, 3], TruncateFront 1, Append [4], Resize 5] (BinData_new True) = Some (b', r)
     \<and> bd_ok b' \<and> bSecure b' \<and> bd_bytes b' = [2, 3, 4, 0, 0]"
proof -
  let ?ops = "[SetData [1, 2, 3], TruncateFront 1, Append [4], Resize 5]"
  have "fold bd_spec ?ops (bd_bytes (BinData_new True)) = [2, 3, 4, 0, 0]"
    by code_simp
  moreover have "bd_ok (BinData_new True)" "bd_fits ?ops (len (BinData_new True))"
      "bSecure (BinData_new True)"
    by (simp_all add: bd_ok_def BinData_new_def SIZE_MOD_def)
  ultimately show ?thesis
    using BinData_refines_bytes [of "BinData_new True" ?ops] by metis
qed

text \<open>Claim C31.  A secure buffer that was never shortened from the front wipes every block
  it gives back to the allocator, over any sequence of operations and the final
  destruction.\<close>

theorem SafeData_wipes_memory:
  assumes "bSecure b" and "bd_tight b" and "\<forall>op \<in> set ops. \<not> is_truncate op"
    and "bd_run ops b = Some (b', r)"
  shows "wiped r \<and> wiped (snd (BinData_cleanup b'))"
  using assms
proof (induction ops arbitrary: b r)
  case Nil
  then show ?case using bd_cleanup_wiped by (auto simp: wiped_def)
next
  case (Cons op ops)
  then obtain b1 r1 r2 where "bd_exec op b = Some (b1, r1)" "bd_run ops b1 = Some (b', r2)"
      "r = r1 @ r2"
    by (auto split: option.splits)
  with Cons show ?case
    using bd_exec_tight [of b op b1 r1] by (auto simp: wiped_def)
qed

theorem SafeData_wipes_memory_witness:
  "\<exists>b' r. bd_run [SetData [1, 2, 3], Append [4]] SafeData_new = Some (b', r) \<and> r = [[0, 0, 0]] \<and>
     wiped r \<and> wiped (snd (BinData_cleanup b'))"
proof -
  let ?ops = "[SetData [1, 2, 3], Append [4]]"
  have "szadd 3 1 = 4"
    by (simp add: szadd_def SIZE_MOD_def)
  then have num: "szadd (Suc (Suc (Suc 0))) (Suc 0) = 4"
    by (simp add: numeral_3_eq_3)
  have run: "bd_run ?ops SafeData_new =
      Some (\<lparr>bSecure = True, buffer = Some [1, 2, 3, 4], len = 4\<rparr>, [[0, 0, 0]])"
    by (simp add: SafeData_new_def bd_defs zeroize_def num Let_def)
  have "bSecure SafeData_new" "bd_tight SafeData_new"
    by (simp_all add: SafeData_new_def BinData_new_def bd_tight_def)
  then show ?thesis
    using SafeData_wipes_memory [OF _ _ _ run] run by auto
qed

text \<open>Reading a sub-range leaves the allocated block exactly when the \<^verbatim>\<open>size_t\<close>
  sum of position and length wraps; every other request is answered, clamped to the
  bytes present.\<close>

theorem BinData_sub_fault_iff:
  assumes "bd_ok b" and "pos < SIZE_MOD" and "n < SIZE_MOD"
  shows "BinData_sub pos n b = None \<longleftrightarrow>
           buffer b \<noteq> None \<and> pos \<le> len b \<and> SIZE_MOD \<le> pos + n"
proof (cases "pos + n < SIZE_MOD")
  case True
  with bd_sub_refines [OF assms(1), of pos n] show ?thesis by auto
next
  case False
  with assms have wrap: "szadd pos n = pos + n - SIZE_MOD"
    by (simp add: szadd_def mod_if)
  show ?thesis
  proof (cases "buffer b")
    case None
    with assms False wrap show ?thesis
      by (auto simp: BinData_sub_def BinData_setData_def BinData_cleanup_def Let_def)
  next
    case (Some d)
    with assms False wrap show ?thesis
      by (auto simp: BinData_sub_def BinData_setData_def BinData_cleanup_def Let_def bd_ok_def)
  qed
qed

theorem BinData_sub_fault_iff_witness:
  "BinData_sub 1 (SIZE_MOD - 1) \<lparr>bSecure = False, buffer = Some [7, 8], len = 2\<rparr> = None"
  using BinData_sub_fault_iff
    [of "\<lparr>bSecure = False, buffer = Some [7, 8], len = 2\<rparr>" 1 "SIZE_MOD - 1"]
  by (simp add: bd_ok_def SIZE_MOD_def)

text \<open>A \<^verbatim>\<open>SafeData\<close> built from another buffer takes over that buffer's security
  flag: built from an ordinary \<^verbatim>\<open>BinData\<close> it is not secure, and it later releases its bytes
  unchanged.\<close>

theorem SafeData_move_takes_flag:
  "bSecure (fst (SafeData_move rhs)) = bSecure rhs \<and>
   bd_bytes (fst (SafeData_move rhs)) = bd_bytes rhs \<and>
   (\<not> bSecure rhs \<longrightarrow>
     snd (BinData_cleanup (fst (SafeData_move rhs))) = (case buffer rhs of None \<Rightarrow> [] | Some d \<Rightarrow> [d]))"
  by (simp add: SafeData_move_def BinData_assign_move_def BinData_cleanup_def bd_bytes_def
      split: option.splits)

theorem SafeData_move_takes_flag_witness:
  "snd (BinData_cleanup (fst (SafeData_move \<lparr>bSecure = False, buffer = Some [7, 8], len = 2\<rparr>)))
     = [[7, 8]]"
  using SafeData_move_takes_flag [of "\<lparr>bSecure = False, buffer = Some [7, 8], len = 2\<rparr>"]
  by simp

section \<open>The buffer as an interface\<close>

text \<open>What the key and address code relies on when it glues encodings together and takes
  them apart again.\<close>

locale byte_buffer =
  fixes content :: "'b \<Rightarrow> bytes"
    and ok :: "'b \<Rightarrow> bool"
    and put_back :: "bytes \<Rightarrow> 'b \<Rightarrow> 'b option"
    and put_front :: "bytes \<Rightarrow> 'b \<Rightarrow> 'b option"
    and cut_front :: "nat \<Rightarrow> 'b \<Rightarrow> 'b"
    and slice :: "nat \<Rightarrow> nat \<Rightarrow> 'b \<Rightarrow> 'b option"
    and limit :: nat
  assumes put_back: "ok b \<Longrightarrow> length (content b) + length d < limit \<Longrightarrow>
      \<exists>b'. put_back d b = Some b' \<and> ok b' \<and> content b' = content b @ d"
    and put_front: "ok b \<Longrightarrow> length (content b) + length d < limit \<Longrightarrow>
      \<exists>b'. put_front d b = Some b' \<and> ok b' \<and> content b' = d @ content b"
    and cut_front: "ok b \<Longrightarrow> ok (cut_front n b) \<and> content (cut_front n b) = drop n (content b)"
    and slice: "ok b \<Longrightarrow> pos + n < limit \<Longrightarrow> pos \<le> length (content b) \<Longrightarrow>
      \<exists>b'. slice pos n b = Some b' \<and> ok b' \<and> content b' = take n (drop pos (content b))"
begin

lemma cut_after_put_front:
  assumes "ok b" and "length (content b) + length d < limit"
  shows "\<exists>b'. put_front d b = Some b' \<and> ok (cut_front (length d) b') \<and>
           content (cut_front (length d) b') = content b"
  using put_front [OF assms] cut_front by fastforce

lemma slice_tail_after_put_front:
  assumes "ok b" and "length (content b) + length d < limit"
  shows "\<exists>b' b''. put_front d b = Some b' \<and> slice (length d) (length (content b)) b' = Some b'' \<and>
           content b'' = content b"
proof -
  obtain b' where b': "put_front d b = Some b'" "ok b'" "content b' = d @ content b"
    using put_front [OF assms] by blast
  with slice [of b' "length d" "length (content b)"] assms show ?thesis by auto
qed

lemma slice_head_after_put_back:
  assumes "ok b" and "length (content b) + length d < limit"
  shows "\<exists>b' b''. put_back d b = Some b' \<and> slice 0 (length (content b)) b' = Some b'' \<and>
           content b'' = content b"
proof -
  obtain b' where b': "put_back d b = Some b'" "ok b'" "content b' = content b @ d"
    using put_back [OF assms] by blast
  with slice [of b' 0 "length (content b)"] assms show ?thesis by auto
qed

end

interpretation bd: byte_buffer bd_bytes bd_ok
  "\<lambda>d b. map_option fst (BinData_append (Some d) (length d) b)"
  "\<lambda>d b. map_option fst (BinData_prepend (Some d) (length d) b)"
  BinData_truncateFront BinData_sub SIZE_MOD
proof (unfold_locales, goal_cases)
  case (1 b d)
  then show ?case
    using bd_exec_refines [of b "Append d"] by (auto simp: length_bd_bytes)
next
  case (2 b d)
  then show ?case
    using bd_exec_refines [of b "Prepend d"] by (auto simp: length_bd_bytes)
next
  case (3 b n)
  then show ?case by (simp add: bd_truncateFront_refines)
next
  case (4 b pos n)
  then show ?case
    using bd_sub_refines [of b pos n] by (auto simp: length_bd_bytes)
qed

end
