(* ===== verification/FC_Codecs.thy ===== *)
theory FC_Codecs
  imports FC_BinData
begin

unbundle bit_operations_syntax

text \<open>
  \<^verbatim>\<open>utils/Hex\<close> and \<^verbatim>\<open>utils/Base64\<close>.  Bytes and the bit accumulator are 8-bit words, so the
  shifts lose high bits as \<^verbatim>\<open>unsigned char\<close> does.  The loops are folds of one step function
  over the input with the loop's local variables as state.
\<close>

section \<open>Hex\<close>

definition Hex_toChar :: "byte \<Rightarrow> char" where
  "Hex_toChar uc =
     (if uc < 10 then byte_char (char_byte CHR ''0'' + uc)
      else byte_char (char_byte CHR ''A'' + uc - 10))"

definition Hex_encode :: "bytes \<Rightarrow> string" where
  "Hex_encode binary =
     concat (map (\<lambda>uc. [Hex_toChar (drop_bit 4 uc), Hex_toChar (uc AND 0x0F)]) binary)"

section \<open>Base64\<close>

definition webEncoding :: string where
  "webEncoding = ''ABCDEFGHIJKLMNOPQRSTUVWXYZabcdefghijklmnopqrstuvwxyz0123456789-_''"

text \<open>The array also holds the terminating NUL at index 64.\<close>

definition webEncoding_at :: "nat \<Rightarrow> char" where
  "webEncoding_at n = (webEncoding @ [CHR 0x00]) ! n"

definition Base64_charToVal :: "char \<Rightarrow> int" where
  "Base64_charToVal c =
     (let v = (of_char c :: int) in
      if of_char CHR ''A'' \<le> v \<and> v \<le> of_char CHR ''Z'' then v - of_char CHR ''A''
      else if of_char CHR ''a'' \<le> v \<and> v \<le> of_char CHR ''z'' then v - of_char CHR ''a'' + 26
      else if of_char CHR ''0'' \<le> v \<and> v \<le> of_char CHR ''9'' then v - of_char CHR ''0'' + 52
      else if c = CHR ''+'' \<or> c = CHR ''-'' then 62
      else if c = CHR ''/'' \<or> c = CHR ''_'' \<or> c = CHR '','' then 63
      else - 1)"

definition Base64_valToChar :: "byte \<Rightarrow> char" where
  "Base64_valToChar val =
     (if unat val \<ge> length webEncoding + 1 then CHR 0x00 else webEncoding_at (unat val))"

type_synonym b64_enc = "nat \<times> byte \<times> string"
type_synonym b64_dec = "nat \<times> byte \<times> bytes"

definition Base64_encode_step :: "byte \<Rightarrow> b64_enc \<Rightarrow> b64_enc" where
  "Base64_encode_step uc st =
     (case st of (bits, curVal, encoded) \<Rightarrow>
        if bits = 0 then
          (2, uc AND 0x03, encoded @ [webEncoding_at (unat (drop_bit 2 uc))])
        else if bits = 2 then
          (4, uc AND 0x0F,
           encoded @ [webEncoding_at (unat (push_bit 4 curVal OR drop_bit 4 uc))])
        else if bits = 4 then
          (0, push_bit 2 curVal,
           encoded @ [webEncoding_at (unat (push_bit 2 curVal OR drop_bit 6 uc)),
                      webEncoding_at (unat (uc AND 0x3F))])
        else st)"

definition Base64_encode :: "bytes \<Rightarrow> string" where
  "Base64_encode binary =
     (case fold Base64_encode_step binary (0, 0, []) of (bits, curVal, encoded) \<Rightarrow>
        if bits > 0
        then encoded @ [webEncoding_at (unat (push_bit (6 - bits) (ucast curVal :: u32)))]
        else encoded)"

function Base64_equals :: "string \<Rightarrow> nat \<Rightarrow> nat" where
  "Base64_equals s equals =
     (if equals < length s - equals \<and> s ! (length s - equals - 1) = CHR ''=''
      then Base64_equals s (equals + 1) else equals)"
  by pat_completeness auto
termination
  by (relation "measure (\<lambda>(s, equals). length s - equals)") auto

declare Base64_equals.simps [simp del]

definition Base64_decode_step :: "char \<Rightarrow> b64_dec \<Rightarrow> b64_dec" where
  "Base64_decode_step c st =
     (case st of (bits, curVal, decoded) \<Rightarrow>
        let intVal = Base64_charToVal c; v = (word_of_int intVal :: byte) in
        if intVal < 0 then st
        else if bits = 0 then (6, v, decoded)
        else if bits = 2 then
          (0, push_bit 6 curVal OR v, decoded @ [push_bit 6 curVal OR v])
        else if bits = 4 then
          (2, v AND 0x03, decoded @ [push_bit 4 curVal OR drop_bit 2 v])
        else if bits = 6 then
          (4, v AND 0x0F, decoded @ [push_bit 2 curVal OR drop_bit 4 v])
        else st)"

text \<open>The output block is allocated before the loop; \<open>Base64_decode_capacity\<close> is its size.\<close>

definition Base64_decode_capacity :: "string \<Rightarrow> nat" where
  "Base64_decode_capacity printable = (length printable div 4 + 1) * 3"

definition Base64_decode :: "string \<Rightarrow> bytes" where
  "Base64_decode printable =
     (if printable = [] then []
      else snd (snd (fold Base64_decode_step
             (take (length printable - Base64_equals printable 0) printable) (0, 0, []))))"

section \<open>Lemmas\<close>

lemma charToVal_webEncoding_all:
  "list_all (\<lambda>n. Base64_charToVal (webEncoding_at n) = int n) [0..<64]"
  by code_simp

lemma charToVal_webEncoding:
  assumes "n < 64"
  shows "Base64_charToVal (webEncoding_at n) = int n"
  using assms charToVal_webEncoding_all by (simp add: list_all_iff)

lemma Base64_charToVal_range: "Base64_charToVal c < 64" "- 1 \<le> Base64_charToVal c"
  by (auto simp: Base64_charToVal_def Let_def)

lemma decode_step_webEncoding:
  assumes "v < 64"
  shows "Base64_decode_step (webEncoding_at (unat v)) (bits, curVal, decoded) =
     (if bits = 0 then (6, v, decoded)
      else if bits = 2 then (0, push_bit 6 curVal OR v, decoded @ [push_bit 6 curVal OR v])
      else if bits = 4 then (2, v AND 0x03, decoded @ [push_bit 4 curVal OR drop_bit 2 v])
      else if bits = 6 then (4, v AND 0x0F, decoded @ [push_bit 2 curVal OR drop_bit 4 v])
      else (bits, curVal, decoded))"
proof -
  have "unat v < 64"
    using assms by (simp add: word_less_nat_alt)
  then show ?thesis
    by (simp add: Base64_decode_step_def charToVal_webEncoding Let_def)
qed

section \<open>Bit facts on bytes\<close>

lemma bit_byte_high [simp]: "8 \<le> n \<Longrightarrow> \<not> bit (b :: byte) n"
  using bit_imp_le_length [of b n] by auto

lemma less_8_cases:
  "(n :: nat) < 8 \<Longrightarrow> n = 0 \<or> n = 1 \<or> n = 2 \<or> n = 3 \<or> n = 4 \<or> n = 5 \<or> n = 6 \<or> n = 7"
  by auto

lemmas byte_bits = bit_simps numeral_2_eq_2 [symmetric] numeral_3_eq_3 [symmetric]

lemma byte_less_64:
  assumes "\<not> bit x 6" and "\<not> bit x 7"
  shows "(x :: byte) < 64"
proof -
  have "x = take_bit 6 x"
    using assms by (auto intro!: bit_word_eqI simp: bit_simps dest!: less_8_cases)
  then have "unat x = take_bit 6 (unat x)"
    by (metis unsigned_take_bit_eq)
  then have "unat x < 64"
    using take_bit_nat_less_exp [of 6 "unat x"] by simp
  then show ?thesis
    by (simp add: word_less_nat_alt)
qed

lemma sextet_bounds:
  "drop_bit 2 a < (64 :: byte)"
  "push_bit 4 (a AND 3) OR drop_bit 4 b < (64 :: byte)"
  "push_bit 2 (a AND 15) OR drop_bit 6 b < (64 :: byte)"
  "a AND 63 < (64 :: byte)"
  "push_bit 4 (a AND 3) < (64 :: byte)"
  "push_bit 2 (a AND 15) < (64 :: byte)"
  by (rule byte_less_64; auto simp: byte_bits)+

lemma octets:
  "push_bit 2 (drop_bit 2 a) OR drop_bit 4 (push_bit 4 (a AND 3) OR drop_bit 4 b) = (a :: byte)"
  "(push_bit 4 (a AND 3) OR drop_bit 4 b) AND 15 = drop_bit 4 (b :: byte)"
  "push_bit 4 (drop_bit 4 a) OR drop_bit 2 (push_bit 2 (a AND 15) OR drop_bit 6 b) = (a :: byte)"
  "(push_bit 2 (a AND 15) OR drop_bit 6 b) AND 3 = drop_bit 6 (b :: byte)"
  "push_bit 6 (drop_bit 6 a) OR (a AND 63) = (a :: byte)"
  "push_bit 2 (drop_bit 2 a) OR drop_bit 4 (push_bit 4 (a AND 3)) = (a :: byte)"
  "push_bit 4 (drop_bit 4 a) OR drop_bit 2 (push_bit 2 (a AND 15)) = (a :: byte)"
  by (rule bit_word_eqI; auto simp: byte_bits dest!: less_8_cases)+

lemma leftover_index:
  "unat (push_bit 4 (ucast (a AND 3 :: byte) :: u32)) = unat (push_bit 4 (a AND 3 :: byte))"
  "unat (push_bit 2 (ucast (a AND 15 :: byte) :: u32)) = unat (push_bit 2 (a AND 15 :: byte))"
proof -
  have "a AND 3 = take_bit 2 a" "a AND 15 = take_bit 4 a"
    by (simp_all add: take_bit_eq_mask mask_eq_exp_minus_1)
  then have "unat (a AND 3) = take_bit 2 (unat a)" "unat (a AND 15) = take_bit 4 (unat a)"
    by (simp_all add: unsigned_take_bit_eq)
  then have "unat (a AND 3) < 4" "unat (a AND 15) < 16"
    by (simp_all add: take_bit_eq_mod)
  then show "unat (push_bit 4 (ucast (a AND 3 :: byte) :: u32)) = unat (push_bit 4 (a AND 3 :: byte))"
    and "unat (push_bit 2 (ucast (a AND 15 :: byte) :: u32)) = unat (push_bit 2 (a AND 15 :: byte))"
    by (simp_all add: push_bit_eq_mult unat_word_ariths unsigned_ucast_eq take_bit_eq_mod)
qed

section \<open>Base64 round trip\<close>

definition b64_related :: "bytes \<Rightarrow> b64_enc \<Rightarrow> bool" where
  "b64_related bs st =
     (case st of (bits, curVal, encoded) \<Rightarrow>
        case fold Base64_decode_step encoded (0, 0, []) of (dbits, dcur, out) \<Rightarrow>
          if bits = 0 then dbits = 0 \<and> out = bs
          else bs \<noteq> [] \<and> out = butlast bs \<and>
            (bits = 2 \<and> dbits = 6 \<and> dcur = drop_bit 2 (last bs) \<and> curVal = last bs AND 3 \<or>
             bits = 4 \<and> dbits = 4 \<and> dcur = drop_bit 4 (last bs) \<and> curVal = last bs AND 15))"

lemma b64_related_step:
  assumes "b64_related bs st"
  shows "b64_related (bs @ [uc]) (Base64_encode_step uc st)"
proof -
  obtain bits curVal encoded where st: "st = (bits, curVal, encoded)"
    by (cases st) auto
  obtain dbits dcur out where dec: "fold Base64_decode_step encoded (0, 0, []) = (dbits, dcur, out)"
    by (cases "fold Base64_decode_step encoded (0, 0, [])") auto
  from assms st dec consider "bits = 0" "dbits = 0" "out = bs"
    | "bits = 2" "dbits = 6" "bs \<noteq> []" "out = butlast bs" "dcur = drop_bit 2 (last bs)"
        "curVal = last bs AND 3"
    | "bits = 4" "dbits = 4" "bs \<noteq> []" "out = butlast bs" "dcur = drop_bit 4 (last bs)"
        "curVal = last bs AND 15"
    by (auto simp: b64_related_def split: if_splits)
  then show ?thesis
    by cases (simp_all add: st dec b64_related_def Base64_encode_step_def
        decode_step_webEncoding sextet_bounds octets del: push_bit_and)
qed

lemma b64_related_fold:
  "b64_related bs st \<Longrightarrow> b64_related (bs @ cs) (fold Base64_encode_step cs st)"
proof (induction cs arbitrary: bs st)
  case (Cons c cs)
  from Cons.IH [OF b64_related_step [OF Cons.prems, of c]] show ?case by simp
qed simp

lemma fold_decode_encode:
  "snd (snd (fold Base64_decode_step (Base64_encode bs) (0, 0, []))) = bs"
proof -
  obtain bits curVal encoded where enc: "fold Base64_encode_step bs (0, 0, []) = (bits, curVal, encoded)"
    by (cases "fold Base64_encode_step bs (0, 0, [])") auto
  have "b64_related [] (0, 0, [])"
    by (simp add: b64_related_def)
  from b64_related_fold [OF this, of bs] have rel: "b64_related bs (bits, curVal, encoded)"
    by (simp add: enc)
  obtain dbits dcur out where dec: "fold Base64_decode_step encoded (0, 0, []) = (dbits, dcur, out)"
    by (cases "fold Base64_decode_step encoded (0, 0, [])") auto
  from rel dec consider "bits = 0" "out = bs"
    | "bits = 2" "dbits = 6" "bs \<noteq> []" "out = butlast bs" "dcur = drop_bit 2 (last bs)"
        "curVal = last bs AND 3"
    | "bits = 4" "dbits = 4" "bs \<noteq> []" "out = butlast bs" "dcur = drop_bit 4 (last bs)"
        "curVal = last bs AND 15"
    by (auto simp: b64_related_def split: if_splits)
  then show ?thesis
    by cases (simp_all only: Base64_encode_def enc prod.case fold_append comp_apply dec leftover_index
        if_True if_False fold_simps less_numeral_extra zero_less_numeral, 
        simp_all add: leftover_index decode_step_webEncoding sextet_bounds octets dec del: push_bit_and)
qed

section \<open>Padding, lengths and bounds\<close>

lemma Base64_equals_suffix:
  assumes "e \<le> length s" and "\<forall>i. length s - e \<le> i \<and> i < length s \<longrightarrow> s ! i = CHR ''=''"
  shows "Base64_equals s e \<le> length s \<and>
    (\<forall>i. length s - Base64_equals s e \<le> i \<and> i < length s \<longrightarrow> s ! i = CHR ''='')"
  using assms
proof (induction s e rule: Base64_equals.induct)
  case (1 s e)
  show ?case
  proof (cases "e < length s - e \<and> s ! (length s - e - 1) = CHR ''=''")
    case True
    have "\<forall>i. length s - (e + 1) \<le> i \<and> i < length s \<longrightarrow> s ! i = CHR ''=''"
    proof (intro allI impI)
      fix i assume i: "length s - (e + 1) \<le> i \<and> i < length s"
      show "s ! i = CHR ''=''"
      proof (cases "length s - e \<le> i")
        case False
        with i have "i = length s - e - 1" by linarith
        with True show ?thesis by simp
      qed (use i "1.prems" in simp)
    qed
    moreover have "e + 1 \<le> length s" using True by linarith
    ultimately show ?thesis
      using "1.IH" [OF True] True by (simp add: Base64_equals.simps [of s e])
  next
    case False
    then have "Base64_equals s e = e"
      by (subst Base64_equals.simps) (simp only: if_False)
    with "1.prems" show ?thesis by simp
  qed
qed

lemma decode_step_skip: "Base64_charToVal c < 0 \<Longrightarrow> Base64_decode_step c st = st"
  by (cases st) (simp add: Base64_decode_step_def)

lemma decode_fold_skip:
  "\<forall>c \<in> set cs. Base64_charToVal c < 0 \<Longrightarrow> fold Base64_decode_step cs st = st"
  by (induction cs) (simp_all add: decode_step_skip)

lemma charToVal_equals [simp]: "Base64_charToVal CHR ''='' = - 1"
  by code_simp

lemma Base64_decode_fold:
  "Base64_decode s = snd (snd (fold Base64_decode_step s (0, 0, [])))"
proof -
  let ?e = "Base64_equals s 0"
  have e: "?e \<le> length s \<and> (\<forall>i. length s - ?e \<le> i \<and> i < length s \<longrightarrow> s ! i = CHR ''='')"
    by (rule Base64_equals_suffix) auto
  have "c = CHR ''=''" if "c \<in> set (drop (length s - ?e) s)" for c
  proof -
    from that obtain j where "j < ?e" "c = s ! (length s - ?e + j)"
      using e by (auto simp: in_set_conv_nth)
    moreover have "length s - ?e \<le> length s - ?e + j" "length s - ?e + j < length s"
      using e \<open>j < ?e\<close> by linarith+
    ultimately show ?thesis using e by blast
  qed
  then have skip: "fold Base64_decode_step (drop (length s - ?e) s) st = st" for st
    by (intro decode_fold_skip) (metis charToVal_equals neg_less_0_iff_less zero_less_one)
  have "fold Base64_decode_step s st = fold Base64_decode_step (take (length s - ?e) s) st" for st
    by (metis append_take_drop_id fold_append comp_apply skip)
  then show ?thesis
    by (simp add: Base64_decode_def)
qed

lemma Base64_decode_step_bound:
  assumes "Base64_decode_step c (bits, cur, out) = (bits', cur', out')"
    and "bits \<in> {0, 2, 4, 6}" and "8 * length out + bits \<le> 6 * n"
  shows "bits' \<in> {0, 2, 4, 6} \<and> 8 * length out' + bits' \<le> 6 * Suc n"
  using assms by (auto simp: Base64_decode_step_def Let_def split: if_splits)

lemma Base64_decode_fold_bound:
  assumes "fold Base64_decode_step s (bits, cur, out) = (bits', cur', out')"
    and "bits \<in> {0, 2, 4, 6}" and "8 * length out + bits \<le> 6 * n"
  shows "8 * length out' + bits' \<le> 6 * (n + length s)"
  using assms
proof (induction s arbitrary: bits cur out n)
  case (Cons c s)
  obtain b1 c1 o1 where step: "Base64_decode_step c (bits, cur, out) = (b1, c1, o1)"
    by (cases "Base64_decode_step c (bits, cur, out)") auto
  from Base64_decode_step_bound [OF step Cons.prems(2,3)] Cons.IH [of b1 c1 o1 "Suc n"]
  show ?case using Cons.prems(1) step by simp
qed simp

lemma Base64_encode_step_length:
  assumes "Base64_encode_step uc (bits, cur, out) = (bits', cur', out')"
    and "bits \<in> {0, 2, 4}" and "6 * length out + bits = 8 * n"
  shows "bits' \<in> {0, 2, 4} \<and> 6 * length out' + bits' = 8 * Suc n"
  using assms by (auto simp: Base64_encode_step_def)

lemma Base64_encode_fold_length:
  assumes "fold Base64_encode_step bs (bits, cur, out) = (bits', cur', out')"
    and "bits \<in> {0, 2, 4}" and "6 * length out + bits = 8 * n"
  shows "bits' \<in> {0, 2, 4} \<and> 6 * length out' + bits' = 8 * (n + length bs)"
  using assms
proof (induction bs arbitrary: bits cur out n)
  case (Cons c s)
  obtain b1 c1 o1 where step: "Base64_encode_step c (bits, cur, out) = (b1, c1, o1)"
    by (cases "Base64_encode_step c (bits, cur, out)") auto
  from Base64_encode_step_length [OF step Cons.prems(2,3)] Cons.IH [of b1 c1 o1 "Suc n"]
  show ?case using Cons.prems(1) step by simp
qed simp

lemma length_Base64_encode: "length (Base64_encode bs) = (4 * length bs + 2) div 3"
proof -
  obtain b c e where f: "fold Base64_encode_step bs (0, 0, []) = (b, c, e)"
    by (cases "fold Base64_encode_step bs (0, 0, [])") auto
  from Base64_encode_fold_length [OF f, of 0] have "b \<in> {0, 2, 4}" "6 * length e + b = 8 * length bs"
    by auto
  then show ?thesis
    by (auto simp: Base64_encode_def f)
qed

lemma Base64_decode_encode [roundtrip]: "Base64_decode (Base64_encode bs) = bs"
  by (simp add: Base64_decode_fold fold_decode_encode)

lemma Hex_toChar_all:
  "map (\<lambda>n. Hex_toChar (of_nat n)) [0..<16] = ''0123456789ABCDEF''"
  by code_simp

lemma Hex_toChar_inj:
  assumes "a < 16" and "b < 16" and "Hex_toChar a = Hex_toChar b"
  shows "a = b"
proof -
  have less: "unat a < 16" "unat b < 16"
    using assms(1,2) by (simp_all add: word_less_nat_alt)
  have nth: "Hex_toChar (of_nat n) = ''0123456789ABCDEF'' ! n" if "n < 16" for n
    using arg_cong [OF Hex_toChar_all, of "\<lambda>l. l ! n"] that by (simp del: upt_rec_numeral)
  have "distinct ''0123456789ABCDEF''" "length ''0123456789ABCDEF'' = 16"
    by simp_all
  then have "unat a = unat b"
    using nth [OF less(1)] nth [OF less(2)] less assms(3) by (simp add: nth_eq_iff_index_eq)
  then show ?thesis
    by (simp add: word_unat_eq_iff)
qed

lemma nibble_bounds: "drop_bit 4 a < (16 :: byte)" "a AND 0x0F < (16 :: byte)"
proof -
  have "a AND 15 = take_bit 4 a"
    by (simp add: take_bit_eq_mask mask_eq_exp_minus_1)
  then show "a AND 0x0F < (16 :: byte)"
    by (simp add: word_less_nat_alt unat_mod take_bit_eq_mod)
  have "unat a < 256"
    by (rule less_le_trans [OF unsigned_less]) simp
  then show "drop_bit 4 a < (16 :: byte)"
    by (simp add: word_less_nat_alt drop_bit_eq_div unat_div)
qed

lemma nibbles_join: "push_bit 4 (drop_bit 4 a) OR (a AND 0x0F) = (a :: byte)"
  by (rule bit_word_eqI) (auto simp: byte_bits dest!: less_8_cases)

text \<open>Claim C16.  Decoding undoes encoding for every byte string, also when the text was
  padded with any number of equals signs.\<close>

theorem Base64_roundtrip:
  "Base64_decode (Base64_encode bs @ replicate k CHR ''='') = bs"
proof -
  have "fold Base64_decode_step (replicate k CHR ''='') st = st" for st
    by (rule decode_fold_skip) simp
  then show ?thesis
    by (simp only: Base64_decode_fold fold_append comp_apply fold_decode_encode)
qed

text \<open>Claim C32.  The decoder never writes past the block it allocates, for any input text.\<close>

theorem Base64_decode_in_bounds:
  "length (Base64_decode s) < Base64_decode_capacity s"
proof -
  obtain b c d where f: "fold Base64_decode_step s (0, 0, []) = (b, c, d)"
    by (cases "fold Base64_decode_step s (0, 0, [])") auto
  from Base64_decode_fold_bound [OF f, of 0] have "8 * length d + b \<le> 6 * length s"
    by simp
  then show ?thesis
    by (simp add: Base64_decode_fold f Base64_decode_capacity_def)
qed

text \<open>The hexadecimal form has two characters per byte and determines the bytes.\<close>

theorem Hex_encode_injective:
  "length (Hex_encode a) = 2 * length a \<and> (Hex_encode a = Hex_encode b \<longleftrightarrow> a = b)"
proof -
  have len: "length (Hex_encode a) = 2 * length a" for a
    by (induction a) (simp_all add: Hex_encode_def)
  have "a = b" if "Hex_encode a = Hex_encode b"
    using that
  proof (induction a arbitrary: b)
    case Nil
    then show ?case using len [of b] by (simp add: Hex_encode_def)
  next
    case (Cons x a)
    then obtain y b' where b: "b = y # b'"
      using len [of b] by (cases b) (auto simp: Hex_encode_def)
    with Cons.prems have "drop_bit 4 x = drop_bit 4 y" "x AND 0x0F = y AND 0x0F"
        "Hex_encode a = Hex_encode b'"
      by (auto simp: Hex_encode_def intro: Hex_toChar_inj nibble_bounds)
    with Cons.IH b show ?case
      by (metis nibbles_join)
  qed
  with len show ?thesis by blast
qed

end
