(* ===== verification/FC_Base58.thy ===== *)
theory FC_Base58
  imports FC_Codecs
begin

text \<open>
  \<^verbatim>\<open>alg/Base58\<close>.  The big-number arithmetic is OpenSSL's and enters as the record
  \<open>bn_ops\<close> of the functions the code calls; \<open>bn_laws\<close> states their documented meaning
  relative to the number a \<^verbatim>\<open>BIGNUM\<close> holds.  The division loop has no visible bound in the
  code, so it is a partial function whose \<open>None\<close> is divergence or a write past the
  allocated text buffer; the theorems show that neither happens.
\<close>

section \<open>Model\<close>

record 'bn bn_ops =
  BN_bin2bn :: "bytes \<Rightarrow> int \<Rightarrow> 'bn"
  BN_set_word :: "nat \<Rightarrow> 'bn"
  BN_is_zero :: "'bn \<Rightarrow> bool"
  BN_div :: "'bn \<Rightarrow> 'bn \<Rightarrow> 'bn \<times> 'bn"
  BN_get_word :: "'bn \<Rightarrow> nat"
  BN_mul_word :: "'bn \<Rightarrow> nat \<Rightarrow> 'bn"
  BN_add_word :: "'bn \<Rightarrow> nat \<Rightarrow> 'bn"
  BN_bn2bin :: "'bn \<Rightarrow> bytes"

definition b58Encoding :: string where
  "b58Encoding = ''123456789ABCDEFGHJKLMNPQRSTUVWXYZabcdefghijkmnopqrstuvwxyz''"

definition Base58_charToVal :: "char \<Rightarrow> byte" where
  "Base58_charToVal c =
     (let v = (of_char c :: int) in
      if of_char CHR ''1'' \<le> v \<and> v \<le> of_char CHR ''9'' then word_of_int (v - of_char CHR ''1'')
      else if of_char CHR ''A'' \<le> v \<and> v \<le> of_char CHR ''H'' then word_of_int (v - of_char CHR ''A'' + 9)
      else if of_char CHR ''J'' \<le> v \<and> v \<le> of_char CHR ''N'' then word_of_int (v - of_char CHR ''J'' + 17)
      else if of_char CHR ''P'' \<le> v \<and> v \<le> of_char CHR ''Z'' then word_of_int (v - of_char CHR ''P'' + 22)
      else if of_char CHR ''a'' \<le> v \<and> v \<le> of_char CHR ''k'' then word_of_int (v - of_char CHR ''a'' + 33)
      else if of_char CHR ''m'' \<le> v \<and> v \<le> of_char CHR ''z'' then word_of_int (v - of_char CHR ''m'' + 44)
      else 0)"

definition Base58_valToChar :: "byte \<Rightarrow> char" where
  "Base58_valToChar val =
     (if unat val \<ge> length b58Encoding + 1 then CHR 0x00
      else (b58Encoding @ [CHR 0x00]) ! unat val)"

text \<open>The digits, least significant first, as the loop stores them in \<^verbatim>\<open>encoded\<close>, a
  block of \<open>encodedSize\<close> characters.\<close>

partial_function (option) Base58_digits ::
  "'bn bn_ops \<Rightarrow> 'bn \<Rightarrow> nat \<Rightarrow> 'bn \<Rightarrow> string \<Rightarrow> string option" where
  "Base58_digits B bn58 encodedSize bn encoded =
     (if BN_is_zero B bn then Some encoded
      else
        (let (q, rem) = BN_div B bn bn58;
             val = (of_nat (BN_get_word B rem) :: byte)
         in if length encoded < encodedSize
            then Base58_digits B bn58 encodedSize q (encoded @ [Base58_valToChar val])
            else None))"

definition Base58_encode :: "'bn bn_ops \<Rightarrow> bytes \<Rightarrow> string option" where
  "Base58_encode B binary =
     (if binary = [] then Some []
      else
        let zeros = length (takeWhile (\<lambda>x. x = 0) binary);
            encodedSize = length binary * 138 div 100 + 2;
            bn = BN_bin2bn B binary (sint (of_nat (length binary) :: u32));
            bn58 = BN_set_word B 58
        in map_option (\<lambda>encoded. replicate zeros CHR ''1'' @ rev encoded)
             (Base58_digits B bn58 encodedSize bn []))"

definition Base58_decode_bn :: "'bn bn_ops \<Rightarrow> string \<Rightarrow> 'bn" where
  "Base58_decode_bn B digits =
     fold (\<lambda>c bn. BN_add_word B (BN_mul_word B bn 58) (unat (Base58_charToVal c))) digits (BN_set_word B 0)"

text \<open>\<open>None\<close>: \<^verbatim>\<open>BN_bn2bin\<close> writes past the block of \<^verbatim>\<open>printable.length()\<close> bytes.\<close>

definition Base58_decode :: "'bn bn_ops \<Rightarrow> string \<Rightarrow> bytes option" where
  "Base58_decode B printable =
     (let zeros = length (takeWhile (\<lambda>c. c = CHR ''1'') printable);
          bn = Base58_decode_bn B (drop zeros printable);
          bin = BN_bn2bin B bn
      in if zeros + length bin \<le> length printable
         then Some (replicate zeros 0 @ bin) else None)"

section \<open>Numbers behind the digits\<close>

fun be_nat :: "bytes \<Rightarrow> nat" where
  "be_nat [] = 0"
| "be_nat (b # bs) = unat b * 256 ^ length bs + be_nat bs"

text \<open>Documented meaning of the OpenSSL functions: \<open>val\<close> is the number held, conversion is
  big-endian, \<^verbatim>\<open>BN_bn2bin\<close> gives the shortest form.\<close>

definition bn_laws :: "'bn bn_ops \<Rightarrow> ('bn \<Rightarrow> nat) \<Rightarrow> bool" where
  "bn_laws B val \<longleftrightarrow>
     (\<forall>bs n. 0 \<le> n \<and> nat n \<le> length bs \<longrightarrow> val (BN_bin2bn B bs n) = be_nat (take (nat n) bs)) \<and>
     (\<forall>w. w < 2 ^ 64 \<longrightarrow> val (BN_set_word B w) = w) \<and>
     (\<forall>x. BN_is_zero B x \<longleftrightarrow> val x = 0) \<and>
     (\<forall>x y. val y \<noteq> 0 \<longrightarrow> val (fst (BN_div B x y)) = val x div val y \<and>
                         val (snd (BN_div B x y)) = val x mod val y) \<and>
     (\<forall>x. val x < 2 ^ 64 \<longrightarrow> BN_get_word B x = val x) \<and>
     (\<forall>x w. w < 2 ^ 64 \<longrightarrow> val (BN_mul_word B x w) = val x * w) \<and>
     (\<forall>x w. w < 2 ^ 64 \<longrightarrow> val (BN_add_word B x w) = val x + w) \<and>
     (\<forall>x. be_nat (BN_bn2bin B x) = val x) \<and>
     (\<forall>x. BN_bn2bin B x = [] \<or> hd (BN_bn2bin B x) \<noteq> 0)"

lemma bn_lawsD:
  assumes "bn_laws B val"
  shows "0 \<le> n \<Longrightarrow> nat n \<le> length bs \<Longrightarrow> val (BN_bin2bn B bs n) = be_nat (take (nat n) bs)"
    and "w < 2 ^ 64 \<Longrightarrow> val (BN_set_word B w) = w"
    and "BN_is_zero B x \<longleftrightarrow> val x = 0"
    and "val y \<noteq> 0 \<Longrightarrow> val (fst (BN_div B x y)) = val x div val y"
    and "val y \<noteq> 0 \<Longrightarrow> val (snd (BN_div B x y)) = val x mod val y"
    and "val x < 2 ^ 64 \<Longrightarrow> BN_get_word B x = val x"
    and "w < 2 ^ 64 \<Longrightarrow> val (BN_mul_word B x w) = val x * w"
    and "w < 2 ^ 64 \<Longrightarrow> val (BN_add_word B x w) = val x + w"
    and "be_nat (BN_bn2bin B x) = val x"
    and "BN_bn2bin B x = [] \<or> hd (BN_bn2bin B x) \<noteq> 0"
  using assms unfolding bn_laws_def by blast+

lemma be_nat_less: "be_nat bs < 256 ^ length bs"
proof (induction bs)
  case (Cons b bs)
  have "unat b < 256"
    by (rule less_le_trans [OF unsigned_less]) simp
  then have "unat b * 256 ^ length bs \<le> 255 * 256 ^ length bs"
    by simp
  moreover have "256 ^ length (b # bs) = 255 * 256 ^ length bs + (256 :: nat) ^ length bs"
    by simp
  ultimately show ?case
    using Cons by (simp only: be_nat.simps)
qed simp

lemma be_nat_zeros: "be_nat (replicate n 0 @ bs) = be_nat bs"
  by (induction n) simp_all

lemma be_nat_lower:
  assumes "bs \<noteq> []" and "hd bs \<noteq> 0"
  shows "256 ^ (length bs - 1) \<le> be_nat bs"
proof (cases bs)
  case (Cons b cs)
  with assms have "1 \<le> unat b"
    by (simp add: Suc_leI unat_gt_0)
  then have "256 ^ length cs \<le> unat b * 256 ^ length cs"
    by simp
  also have "\<dots> \<le> be_nat bs"
    by (simp add: Cons)
  finally show ?thesis by (simp add: Cons)
qed (use assms in simp)

lemma be_nat_inj: "length a = length b \<Longrightarrow> be_nat a = be_nat b \<Longrightarrow> a = b"
proof (induction a arbitrary: b)
  case (Cons x a)
  then obtain y b' where b: "b = y # b'" "length a = length b'"
    by (cases b) auto
  have "be_nat a < 256 ^ length a" "be_nat b' < 256 ^ length a"
    using be_nat_less [of a] be_nat_less [of b'] b by simp_all
  then have "(unat x * 256 ^ length a + be_nat a) div 256 ^ length a = unat x"
    "(unat y * 256 ^ length a + be_nat b') div 256 ^ length a = unat y"
    by simp_all
  with Cons.prems b have "unat x = unat y"
    by simp
  with Cons b show ?case by (simp add: word_unat_eq_iff)
qed simp

section \<open>Digits in base 58\<close>

function digits58 :: "nat \<Rightarrow> nat list" where
  "digits58 n = (if n = 0 then [] else n mod 58 # digits58 (n div 58))"
  by pat_completeness auto
termination
  by (relation "measure id") auto

declare digits58.simps [simp del]

lemma digits58_0 [simp]: "digits58 0 = []"
  by (simp add: digits58.simps)

lemma digits58_pos: "n \<noteq> 0 \<Longrightarrow> digits58 n = n mod 58 # digits58 (n div 58)"
  by (subst digits58.simps) simp

lemma digits58_less: "d \<in> set (digits58 n) \<Longrightarrow> d < 58"
proof (induction n rule: digits58.induct)
  case (1 n)
  then show ?case by (cases "n = 0") (auto simp: digits58_pos)
qed

lemma digits58_value: "foldr (\<lambda>d acc. acc * 58 + d) (digits58 n) 0 = n"
proof (induction n rule: digits58.induct)
  case (1 n)
  then show ?case by (cases "n = 0") (simp_all add: digits58_pos)
qed

lemma digits58_last: "n \<noteq> 0 \<Longrightarrow> digits58 n \<noteq> [] \<and> last (digits58 n) \<noteq> 0"
proof (induction n rule: digits58.induct)
  case (1 n)
  then show ?case
    by (cases "n div 58 = 0") (auto simp: digits58_pos div_eq_0_iff)
qed

lemma digits58_length: "n < 58 ^ k \<Longrightarrow> length (digits58 n) \<le> k"
proof (induction k arbitrary: n)
  case (Suc k)
  then have "n div 58 < 58 ^ k"
    by (simp add: div_less_iff_less_mult mult.commute)
  with Suc.IH show ?case
    by (cases "n = 0") (simp_all add: digits58_pos)
qed simp

lemma power_change_base:
  fixes a b :: nat
  assumes "0 < p" and "1 \<le> b" and base: "a ^ p \<le> b ^ q"
  shows "a ^ n \<le> b ^ (n * q div p + 1)"
proof (rule ccontr)
  define k where "k = n * q div p + 1"
  assume "\<not> a ^ n \<le> b ^ (n * q div p + 1)"
  then have "b ^ k < a ^ n"
    by (simp add: k_def)
  then have "(b ^ k) ^ p < (a ^ n) ^ p"
    using assms(1) by (rule power_strict_mono [OF _ zero_le])
  also have "(a ^ n) ^ p = (a ^ p) ^ n"
    by (metis mult.commute power_mult)
  also have "(a ^ p) ^ n \<le> (b ^ q) ^ n"
    using base by (rule power_mono) simp
  also have "(b ^ q) ^ n = b ^ (n * q)"
    by (metis mult.commute power_mult)
  also have "b ^ (n * q) \<le> b ^ (k * p)"
  proof (rule power_increasing)
    show "n * q \<le> k * p"
      using dividend_less_div_times [OF assms(1), of "n * q"] by (simp add: k_def)
  qed (rule assms(2))
  also have "b ^ (k * p) = (b ^ k) ^ p"
    by (rule power_mult)
  finally show False by simp
qed

lemma pow_256_58_base: "(256 :: nat) ^ 100 \<le> 58 ^ 138"
  by simp

lemma pow_256_58: "(256 :: nat) ^ n \<le> 58 ^ (n * 138 div 100 + 1)"
proof -
  have "0 < (100 :: nat)" "1 \<le> (58 :: nat)"
    by simp_all
  then show ?thesis
    by (rule power_change_base [OF _ _ pow_256_58_base])
qed

lemma b58_valToChar_all: "map (\<lambda>n. Base58_valToChar (of_nat n)) [0..<58] = b58Encoding"
  by code_simp

lemma b58_charToVal_all: "map Base58_charToVal b58Encoding = map of_nat [0..<58]"
  by code_simp

lemma b58Encoding_length [simp]: "length b58Encoding = 58"
  by (simp add: b58Encoding_def)

lemma b58Encoding_distinct: "distinct b58Encoding"
  by (simp add: b58Encoding_def)

lemma b58_nth:
  assumes "n < 58"
  shows "Base58_valToChar (of_nat n) = b58Encoding ! n" and "Base58_charToVal (b58Encoding ! n) = of_nat n"
  using assms arg_cong [OF b58_valToChar_all, of "\<lambda>l. l ! n"]
    arg_cong [OF b58_charToVal_all, of "\<lambda>l. l ! n"] by (simp_all del: upt_rec_numeral)

lemma b58_chars:
  assumes "n < 58"
  shows "unat (Base58_charToVal (Base58_valToChar (of_nat n))) = n"
    and "Base58_valToChar (of_nat n) = CHR ''1'' \<Longrightarrow> n = 0"
proof -
  show "unat (Base58_charToVal (Base58_valToChar (of_nat n))) = n"
    using assms by (simp add: b58_nth unat_of_nat)
  have "b58Encoding ! 0 = CHR ''1''"
    by (simp add: b58Encoding_def)
  then show "n = 0" if "Base58_valToChar (of_nat n) = CHR ''1''"
    using that assms b58Encoding_distinct nth_eq_iff_index_eq [of b58Encoding n 0] by (simp add: b58_nth)
qed

lemma b58_chars_inv:
  assumes "c \<in> set b58Encoding"
  shows "Base58_valToChar (Base58_charToVal c) = c"
    and "Base58_charToVal c = 0 \<Longrightarrow> c = CHR ''1''"
proof -
  obtain n where n: "n < 58" "c = b58Encoding ! n"
    using assms by (metis b58Encoding_length in_set_conv_nth)
  then show "Base58_valToChar (Base58_charToVal c) = c"
    by (simp add: b58_nth)
  assume "Base58_charToVal c = 0"
  with n have "unat (of_nat n :: byte) = 0"
    by (simp add: b58_nth)
  with n have "n = 0"
    by (simp add: unat_of_nat)
  with n show "c = CHR ''1''"
    by (simp add: b58Encoding_def)
qed

lemma unat_word_of_int_byte:
  assumes "numeral k \<le> v" and "v < numeral k + 58"
  shows "unat (word_of_int v - numeral k :: byte) < 58"
proof -
  have "word_of_int v - numeral k = (word_of_int (v - numeral k) :: byte)"
    by simp
  moreover have "unat (word_of_int d :: byte) < 58" if "0 \<le> d" "d < 58" for d
    using that by (simp add: unat_eq_nat_uint uint_word_of_int nat_less_iff)
  ultimately show ?thesis
    using assms by (metis add.commute diff_ge_0_iff_ge diff_less_eq)
qed

lemma Base58_charToVal_less: "unat (Base58_charToVal c) < 58"
  by (auto simp: Base58_charToVal_def Let_def intro!: unat_word_of_int_byte)

section \<open>The loops\<close>

lemma Base58_digits_value:
  assumes "bn_laws B val" and "val bn58 = 58"
    and "length encoded + length (digits58 (val bn)) \<le> sz"
  shows "Base58_digits B bn58 sz bn encoded =
           Some (encoded @ map (\<lambda>d. Base58_valToChar (of_nat d)) (digits58 (val bn)))"
  using assms(3)
proof (induction "val bn" arbitrary: bn encoded rule: digits58.induct)
  case 1
  note laws = bn_lawsD [OF assms(1)]
  show ?case
  proof (cases "val bn = 0")
    case True
    then show ?thesis by (simp add: Base58_digits.simps laws(3))
  next
    case False
    obtain q r where qr: "BN_div B bn bn58 = (q, r)" by (cases "BN_div B bn bn58")
    have q: "val q = val bn div 58" and r: "BN_get_word B r = val bn mod 58"
      using laws(4,5) [of bn58 bn] laws(6) [of r] assms(2) qr
        mod_less_divisor [of 58 "val bn"] by auto
    show ?thesis
      using False "1.hyps" [OF False q [symmetric]] "1.prems"
      by (subst Base58_digits.simps) (simp add: laws(3) qr q r digits58_pos)
  qed
qed

lemma Base58_decode_bn_value:
  assumes "bn_laws B val"
  shows "val (Base58_decode_bn B ds) = fold (\<lambda>c acc. acc * 58 + unat (Base58_charToVal c)) ds 0"
proof -
  note laws = bn_lawsD [OF assms]
  have w: "unat (Base58_charToVal c) < 2 ^ 64" for c
    using Base58_charToVal_less [of c] by simp
  have "val (fold (\<lambda>c bn. BN_add_word B (BN_mul_word B bn 58) (unat (Base58_charToVal c))) ds bn) =
      fold (\<lambda>c acc. acc * 58 + unat (Base58_charToVal c)) ds (val bn)" for bn
    by (induction ds arbitrary: bn) (use w laws(7,8) in simp_all)
  then show ?thesis
    by (simp add: Base58_decode_bn_def laws(2))
qed

lemma fold_58_less: "fold (\<lambda>c acc. acc * 58 + unat (Base58_charToVal c)) ds 0 < 58 ^ length ds"
proof (induction ds rule: rev_induct)
  case (snoc c ds)
  then have "(fold (\<lambda>c acc. acc * 58 + unat (Base58_charToVal c)) ds 0 + 1) * 58 \<le> 58 ^ length ds * 58"
    by (intro mult_right_mono) simp_all
  with Base58_charToVal_less [of c] show ?case by simp
qed simp

section \<open>Encoding and decoding\<close>

lemma bn_bin2bn_all:
  assumes "bn_laws B val" and "length bs < 2 ^ 31"
  shows "val (BN_bin2bn B bs (sint (of_nat (length bs) :: u32))) = be_nat bs"
proof -
  have "sint (of_nat (length bs) :: u32) = int (length bs)"
    using assms(2) by (simp add: signed_of_nat signed_take_bit_int_eq_self)
  with bn_lawsD(1) [OF assms(1), of "int (length bs)" bs] show ?thesis by simp
qed

lemma Base58_encode_value:
  assumes laws: "bn_laws B val" and len: "length bs < 2 ^ 31"
  shows "Base58_encode B bs =
    Some (replicate (length (takeWhile (\<lambda>x. x = 0) bs)) CHR ''1'' @
          rev (map (\<lambda>d. Base58_valToChar (of_nat d)) (digits58 (be_nat bs))))"
proof (cases "bs = []")
  case False
  have "be_nat bs < 58 ^ (length bs * 138 div 100 + 1)"
    using be_nat_less [of bs] pow_256_58 [of "length bs"] by (rule less_le_trans)
  then have "length (digits58 (be_nat bs)) \<le> length bs * 138 div 100 + 1"
    by (rule digits58_length)
  with Base58_digits_value [OF laws bn_lawsD(2) [OF laws, of 58],
      where bn = "BN_bin2bn B bs (sint (of_nat (length bs) :: u32))" and encoded = "[]"
        and sz = "length bs * 138 div 100 + 2"]
  show ?thesis
    using False bn_bin2bn_all [OF laws len] by (simp add: Base58_encode_def Let_def)
qed (simp add: Base58_encode_def)

lemma takeWhile_ones:
  assumes "n \<noteq> 0"
  shows "takeWhile (\<lambda>c. c = CHR ''1'')
      (replicate z CHR ''1'' @ rev (map (\<lambda>d. Base58_valToChar (of_nat d)) (digits58 n))) =
      replicate z CHR ''1''"
proof -
  have "digits58 n \<noteq> []" "last (digits58 n) \<noteq> 0"
    using digits58_last [OF assms] by auto
  moreover from this have "Base58_valToChar (of_nat (last (digits58 n))) \<noteq> CHR ''1''"
    using b58_chars(2) digits58_less [of "last (digits58 n)" n] by fastforce
  ultimately show ?thesis
    by (cases "digits58 n" rule: rev_cases) (simp_all add: takeWhile_append)
qed

lemma minimal_be_unique:
  assumes "be_nat a = be_nat b" and "a = [] \<or> hd a \<noteq> 0" and "b = [] \<or> hd b \<noteq> 0"
  shows "a = b"
proof -
  have "length x \<le> length y"
    if "be_nat x = be_nat y" and "x = [] \<or> hd x \<noteq> 0" for x y :: bytes
  proof (rule ccontr)
    assume less: "\<not> length x \<le> length y"
    then have "x \<noteq> []" by auto
    with that(2) have "256 ^ (length x - 1) \<le> be_nat x"
      by (intro be_nat_lower) auto
    moreover have "(256 :: nat) ^ length y \<le> 256 ^ (length x - 1)"
      using less by (intro power_increasing) auto
    ultimately show False
      using be_nat_less [of y] that(1) by linarith
  qed
  with assms have "length a = length b"
    by (metis antisym)
  with assms(1) show ?thesis by (intro be_nat_inj)
qed

lemma fold_charToVal_digits:
  "fold (\<lambda>c acc. acc * 58 + unat (Base58_charToVal c))
     (rev (map (\<lambda>d. Base58_valToChar (of_nat d)) (digits58 n))) 0 = n"
proof -
  have "foldr (\<lambda>c acc. acc * 58 + unat (Base58_charToVal c))
      (map (\<lambda>d. Base58_valToChar (of_nat d)) ds) 0 = foldr (\<lambda>d acc. acc * 58 + d) ds 0"
    if "\<forall>d \<in> set ds. d < 58" for ds
    using that by (induction ds) (simp_all add: b58_chars(1))
  from this [of "digits58 n"] show ?thesis
    using digits58_less digits58_value by (simp add: foldr_conv_fold)
qed

lemma replicate_takeWhile:
  "replicate (length (takeWhile (\<lambda>x. x = a) xs)) a @ dropWhile (\<lambda>x. x = a) xs = xs"
  by (induction xs) auto

lemma strip_zeros: "bs = replicate (length (takeWhile (\<lambda>x. x = 0) bs)) 0 @ dropWhile (\<lambda>x. x = 0) bs"
  by (simp add: replicate_takeWhile)

lemma digits58_snoc:
  assumes "d < 58" and "acc * 58 + d \<noteq> 0"
  shows "digits58 (acc * 58 + d) = d # digits58 acc"
  using assms by (simp add: digits58_pos)

lemma digits58_fold:
  assumes "ds = [] \<or> Base58_charToVal (hd ds) \<noteq> 0"
  shows "digits58 (fold (\<lambda>c acc. acc * 58 + unat (Base58_charToVal c)) ds 0) =
           rev (map (\<lambda>c. unat (Base58_charToVal c)) ds)"
  using assms
proof (induction ds rule: rev_induct)
  case (snoc c ds)
  let ?f = "\<lambda>ds. fold (\<lambda>c acc. acc * 58 + unat (Base58_charToVal c)) ds (0 :: nat)"
  have hd_ok: "ds = [] \<or> Base58_charToVal (hd ds) \<noteq> 0"
    using snoc.prems by (cases ds) auto
  have "?f ds * 58 + unat (Base58_charToVal c) \<noteq> 0"
  proof (cases ds)
    case Nil
    with snoc.prems show ?thesis by (simp add: unat_gt_0 [symmetric])
  next
    case (Cons d ds')
    with snoc.IH [OF hd_ok] have "digits58 (?f ds) \<noteq> []" by simp
    then show ?thesis by (metis add_is_0 digits58_0 mult_is_0 zero_neq_numeral)
  qed
  with snoc.IH [OF hd_ok] digits58_snoc [OF Base58_charToVal_less] show ?case
    by simp
qed simp

lemma Base58_decode_value:
  assumes laws: "bn_laws B val"
  shows "\<exists>bin. Base58_decode B s = Some (replicate (length (takeWhile (\<lambda>c. c = CHR ''1'') s)) 0 @ bin) \<and>
    be_nat bin = fold (\<lambda>c acc. acc * 58 + unat (Base58_charToVal c)) (dropWhile (\<lambda>c. c = CHR ''1'') s) 0 \<and>
    (bin = [] \<or> hd bin \<noteq> 0) \<and> length bin \<le> length (dropWhile (\<lambda>c. c = CHR ''1'') s)"
proof -
  let ?ds = "dropWhile (\<lambda>c. c = CHR ''1'') s"
  let ?bin = "BN_bn2bin B (Base58_decode_bn B ?ds)"
  have val: "be_nat ?bin = fold (\<lambda>c acc. acc * 58 + unat (Base58_charToVal c)) ?ds 0"
    by (simp add: bn_lawsD(9) [OF laws] Base58_decode_bn_value [OF laws])
  have min: "?bin = [] \<or> hd ?bin \<noteq> 0"
    by (rule bn_lawsD(10) [OF laws])
  have "length ?bin \<le> length ?ds"
  proof (rule ccontr)
    assume long: "\<not> length ?bin \<le> length ?ds"
    then have ne: "?bin \<noteq> []" by auto
    have "(58 :: nat) ^ length ?ds \<le> 256 ^ length ?ds"
      by (rule power_mono) simp_all
    also have "\<dots> \<le> 256 ^ (length ?bin - 1)"
      using long by (intro power_increasing) auto
    also have "\<dots> \<le> be_nat ?bin"
      using ne min by (intro be_nat_lower) auto
    finally show False
      using fold_58_less [of ?ds] val by simp
  qed
  moreover have "length (takeWhile (\<lambda>c. c = CHR ''1'') s) + length ?ds = length s"
    by (metis length_append takeWhile_dropWhile_id)
  ultimately show ?thesis
    using val min by (simp add: Base58_decode_def Let_def dropWhile_eq_drop [symmetric])
qed

lemma Base58_decode_encode [roundtrip]:
  assumes laws: "bn_laws B val" and len: "length bs < 2 ^ 31"
  shows "\<exists>s. Base58_encode B bs = Some s \<and> Base58_decode B s = Some bs"
proof -
  let ?z = "length (takeWhile (\<lambda>x. x = 0) bs)"
  let ?d = "dropWhile (\<lambda>x. x = 0) bs"
  let ?cs = "rev (map (\<lambda>d. Base58_valToChar (of_nat d)) (digits58 (be_nat bs)))"
  let ?s = "replicate ?z CHR ''1'' @ ?cs"
  have enc: "Base58_encode B bs = Some ?s"
    by (rule Base58_encode_value [OF laws len])
  have val: "be_nat ?d = be_nat bs"
    by (metis be_nat_zeros strip_zeros)
  have tw: "takeWhile (\<lambda>c. c = CHR ''1'') ?s = replicate ?z CHR ''1''"
    by (cases "be_nat bs = 0") (simp_all add: takeWhile_ones)
  then have dw: "dropWhile (\<lambda>c. c = CHR ''1'') ?s = ?cs"
    by (simp add: dropWhile_eq_drop)
  obtain bin where bin: "Base58_decode B ?s = Some (replicate ?z 0 @ bin)" "be_nat bin = be_nat bs"
      "bin = [] \<or> hd bin \<noteq> 0"
    using Base58_decode_value [OF laws, of ?s] unfolding tw dw fold_charToVal_digits by auto
  have "bin = ?d"
    using bin(2,3) val hd_dropWhile [of "\<lambda>x. x = 0" bs] by (intro minimal_be_unique) auto
  with bin(1) enc strip_zeros [of bs] show ?thesis by metis
qed

lemma Base58_decode_Nil:
  assumes "bn_laws B val"
  shows "Base58_decode B [] = Some []"
  using Base58_decode_value [OF assms, of "[]"] by auto

text \<open>Claim C13.  For every input below 2 GiB the division loop of the Base58 encoder ends
  inside its text buffer, and decoding the text gives the input back, leading zero bytes
  included.\<close>

theorem Base58_roundtrip:
  assumes "bn_laws B val" and "length bs < 2 ^ 31"
  shows "\<exists>s. Base58_encode B bs = Some s \<and> Base58_decode B s = Some bs"
  using assms by (rule Base58_decode_encode)

text \<open>Decoding any text stays inside the block allocated for it; a text over the
  Base58 alphabet is recovered by encoding the result.\<close>

theorem Base58_decode_total:
  assumes laws: "bn_laws B val" and len: "length s < 2 ^ 31"
  shows "\<exists>bs. Base58_decode B s = Some bs \<and> length bs \<le> length s \<and>
           (set s \<subseteq> set b58Encoding \<longrightarrow> Base58_encode B bs = Some s)"
proof -
  let ?z = "length (takeWhile (\<lambda>c. c = CHR ''1'') s)"
  let ?ds = "dropWhile (\<lambda>c. c = CHR ''1'') s"
  obtain bin where dec: "Base58_decode B s = Some (replicate ?z 0 @ bin)"
    and val: "be_nat bin = fold (\<lambda>c acc. acc * 58 + unat (Base58_charToVal c)) ?ds 0"
    and min: "bin = [] \<or> hd bin \<noteq> 0" and short: "length bin \<le> length ?ds"
    using Base58_decode_value [OF laws, of s] by auto
  have sum: "?z + length ?ds = length s"
    by (metis length_append takeWhile_dropWhile_id)
  have "Base58_encode B (replicate ?z 0 @ bin) = Some s" if alpha: "set s \<subseteq> set b58Encoding"
  proof -
    have ds: "set ?ds \<subseteq> set b58Encoding"
      using alpha set_dropWhileD by fast
    have hd0: "?ds = [] \<or> Base58_charToVal (hd ?ds) \<noteq> 0"
      using b58_chars_inv(2) ds hd_dropWhile [of "\<lambda>c. c = CHR ''1''" s] by (metis hd_in_set subsetD)
    have zeros: "takeWhile (\<lambda>x. x = 0) (replicate ?z (0 :: byte) @ bin) = replicate ?z 0"
      using min by (cases bin) (simp_all add: takeWhile_append)
    have chars: "map (\<lambda>d. Base58_valToChar (of_nat d)) (map (\<lambda>c. unat (Base58_charToVal c)) ?ds) = ?ds"
      using ds b58_chars_inv(1) by (simp add: map_idI subset_iff)
    have ones: "replicate ?z CHR ''1'' @ ?ds = s"
      by (rule replicate_takeWhile)
    show ?thesis
      using len sum short Base58_encode_value [OF laws, of "replicate ?z 0 @ bin"] chars ones
      by (simp add: zeros be_nat_zeros val digits58_fold [OF hd0] rev_map)
  qed
  with dec short sum show ?thesis by auto
qed

section \<open>A concrete big number\<close>

function nat_be :: "nat \<Rightarrow> bytes" where
  "nat_be n = (if n = 0 then [] else nat_be (n div 256) @ [of_nat (n mod 256)])"
  by pat_completeness auto
termination
  by (relation "measure id") auto

declare nat_be.simps [simp del]

definition nat_bn :: "nat bn_ops" where
  "nat_bn = \<lparr>BN_bin2bn = (\<lambda>bs n. be_nat (take (nat n) bs)), BN_set_word = id,
     BN_is_zero = (\<lambda>x. x = 0), BN_div = (\<lambda>x y. (x div y, x mod y)), BN_get_word = id,
     BN_mul_word = (*), BN_add_word = (+), BN_bn2bin = nat_be\<rparr>"

lemma be_nat_snoc: "be_nat (bs @ [b]) = be_nat bs * 256 + unat b"
  by (induction bs) (simp_all add: algebra_simps)

lemma be_nat_nat_be: "be_nat (nat_be n) = n"
proof (induction n rule: nat_be.induct)
  case (1 n)
  then show ?case
    by (cases "n = 0") (subst nat_be.simps; simp add: be_nat_snoc unat_of_nat)+
qed

lemma hd_nat_be: "n \<noteq> 0 \<Longrightarrow> nat_be n \<noteq> [] \<and> hd (nat_be n) \<noteq> 0"
proof (induction n rule: nat_be.induct)
  case (1 n)
  show ?case
  proof (cases "n div 256 = 0")
    case True
    then have "n mod 256 = n" by (simp add: div_eq_0_iff)
    with True 1 show ?thesis
      by (subst (1 2) nat_be.simps) (simp add: nat_be.simps [of 0] word_unat_eq_iff unat_of_nat)
  next
    case False
    with 1 show ?thesis
      by (subst (1 2) nat_be.simps) simp
  qed
qed

lemma nat_bn_laws: "bn_laws nat_bn id"
proof -
  have "nat_be n = [] \<or> hd (nat_be n) \<noteq> 0" for n
    using hd_nat_be [of n] nat_be.simps [of 0] by (cases "n = 0") simp_all
  then show ?thesis
    by (auto simp: bn_laws_def nat_bn_def be_nat_nat_be)
qed

theorem Base58_roundtrip_witness:
  "\<exists>s. Base58_encode nat_bn [0, 1, 2] = Some s \<and> Base58_decode nat_bn s = Some [0, 1, 2]"
  using Base58_roundtrip [OF nat_bn_laws, of "[0, 1, 2]"] by simp

theorem Base58_decode_total_witness:
  "\<exists>bs. Base58_decode nat_bn ''1z'' = Some bs \<and> Base58_encode nat_bn bs = Some ''1z''"
proof -
  have "set ''1z'' \<subseteq> set b58Encoding" by code_simp
  then show ?thesis
    using Base58_decode_total [OF nat_bn_laws, of "''1z''"] by auto
qed

end
