(* ===== verification/FC_Crypto.thy ===== *)
theory FC_Crypto
  imports FC_BinData
begin

text \<open>
  The OpenSSL wrappers \<^verbatim>\<open>ossl/encode.h\<close>, \<^verbatim>\<open>ossl/decode.h\<close>, \<^verbatim>\<open>ossl/Hash\<close>, \<^verbatim>\<open>ossl/Prng\<close> and
  \<^verbatim>\<open>ossl/Curve25519\<close>.  The OpenSSL functions they call are the fields of the record
  \<open>openssl\<close>, an argument of every definition that reaches them; a \<^verbatim>\<open>d2i\<close> function gives \<open>None\<close>
  for a null result and an \<^verbatim>\<open>i2d\<close> function \<open>None\<close> for a non-positive length.  Random bytes are
  read off a tape, so that a run is a function of the bytes the generator produced; \<open>None\<close>
  is a tape that is too short.
\<close>

section \<open>Model\<close>

record 'k openssl =
  i2d_PUBKEY :: "'k \<Rightarrow> bytes option"
  d2i_PUBKEY :: "bytes \<Rightarrow> 'k option"
  i2d_PrivateKey :: "'k \<Rightarrow> bytes option"
  d2i_PrivateKey :: "bytes \<Rightarrow> 'k option"
  EVP_sha256 :: "bytes \<Rightarrow> bytes"
  EVP_sha3_256 :: "bytes \<Rightarrow> bytes"
  EVP_PKEY_size :: "'k \<Rightarrow> int"
  EVP_DigestSign :: "'k \<Rightarrow> bytes \<Rightarrow> int \<times> bytes"
  EVP_DigestVerify :: "'k \<Rightarrow> bytes \<Rightarrow> bytes \<Rightarrow> int"
  EVP_PKEY_keygen :: "bytes \<Rightarrow> 'k option"

definition ossl_encode :: "('a \<Rightarrow> bytes option) \<Rightarrow> 'a \<Rightarrow> bytes" where
  "ossl_encode i2d x = (case i2d x of None \<Rightarrow> [] | Some d \<Rightarrow> d)"

text \<open>The same template on the buffer object: it is resized and written in place.\<close>

definition ossl_encode_into :: "BinData \<Rightarrow> ('a \<Rightarrow> bytes option) \<Rightarrow> 'a \<Rightarrow> BinData" where
  "ossl_encode_into ret i2d x =
     (case i2d x of
        None \<Rightarrow> ret
      | Some d \<Rightarrow>
          if length d > 0 then (fst (BinData_resize (length d) ret))\<lparr>buffer := Some d\<rparr> else ret)"

definition ossl_decode :: "(bytes \<Rightarrow> 'a option) \<Rightarrow> bytes \<Rightarrow> 'a option" where
  "ossl_decode d2i binData = (if binData = [] then None else d2i binData)"

definition doHash :: "bytes \<Rightarrow> (bytes \<Rightarrow> bytes) \<Rightarrow> bytes" where
  "doHash data algorithm = algorithm data"

definition sha2_256 :: "'k openssl \<Rightarrow> bytes \<Rightarrow> bytes" where
  "sha2_256 os data = doHash data (EVP_sha256 os)"

definition sha3_256 :: "'k openssl \<Rightarrow> bytes \<Rightarrow> bytes" where
  "sha3_256 os data = doHash data (EVP_sha3_256 os)"

subsection \<open>Prng\<close>

type_synonym tape = bytes

definition le32 :: "bytes \<Rightarrow> u32" where
  "le32 bs = of_nat (foldr (\<lambda>b acc. unat b + 256 * acc) bs 0)"

definition Prng_rand :: "nat \<Rightarrow> tape \<Rightarrow> (bytes \<times> tape) option" where
  "Prng_rand n t = (if n \<le> length t then Some (take n t, drop n t) else None)"

definition UINT_MAX :: nat where
  "UINT_MAX = 4294967295"

function randInt_loop :: "nat \<Rightarrow> tape \<Rightarrow> (u32 \<times> tape) option" where
  "randInt_loop maxNum t =
     (if length t < 4 then None
      else
        let ret = le32 (take 4 t)
        in if unat ret > maxNum then randInt_loop maxNum (drop 4 t) else Some (ret, drop 4 t))"
  by pat_completeness auto
termination
  by (relation "measure (\<lambda>(m, t). length t)") auto

declare randInt_loop.simps [simp del]

definition randInt :: "u32 \<Rightarrow> u32 \<Rightarrow> tape \<Rightarrow> (u32 \<times> tape) option" where
  "randInt min0 max0 t =
     (if min0 = max0 then Some (min0, t)
      else
        let (mn, mx) = (if min0 > max0 then (max0, min0) else (min0, max0));
            range = mx - mn;
            maxNum = UINT_MAX - UINT_MAX mod unat range
        in map_option (\<lambda>(ret, t'). (ret mod range + mn, t')) (randInt_loop maxNum t))"

subsection \<open>Curve25519\<close>

definition POINT_LEN :: nat where
  "POINT_LEN = 32"

definition pubinfo :: bytes where
  "pubinfo = [0x30, 0x2a, 0x30, 0x05, 0x06, 0x03, 0x2b, 0x65, 0x70, 0x03, 0x21, 0x00] @ replicate 32 0"

definition PUB_ENCODING_LEN :: nat where
  "PUB_ENCODING_LEN = length pubinfo - POINT_LEN"

definition privinfo :: bytes where
  "privinfo = [0x30, 0x2e, 0x02, 0x01, 0x00, 0x30, 0x05, 0x06, 0x03, 0x2b, 0x65, 0x70,
     0x04, 0x22, 0x04, 0x20] @ replicate 32 0"

definition PRIV_ENCODING_LEN :: nat where
  "PRIV_ENCODING_LEN = length privinfo - POINT_LEN"

definition Curve_generate :: "'k openssl \<Rightarrow> tape \<Rightarrow> 'k option" where
  "Curve_generate os t = EVP_PKEY_keygen os t"

definition toPublic :: "'k openssl \<Rightarrow> 'k \<Rightarrow> bytes" where
  "toPublic os key =
     (let x509 = ossl_encode (i2d_PUBKEY os) key
      in if length x509 \<noteq> length pubinfo \<or>
            take PUB_ENCODING_LEN pubinfo \<noteq> take PUB_ENCODING_LEN x509
         then []
         else take POINT_LEN (drop PUB_ENCODING_LEN x509))"

definition fromPublic :: "'k openssl \<Rightarrow> bytes \<Rightarrow> 'k option" where
  "fromPublic os publicPoint =
     (if length publicPoint \<noteq> POINT_LEN then None
      else d2i_PUBKEY os (take PUB_ENCODING_LEN pubinfo @ publicPoint))"

definition toPrivate :: "'k openssl \<Rightarrow> 'k \<Rightarrow> BinData" where
  "toPrivate os key =
     (let ret = ossl_encode_into SafeData_new (i2d_PrivateKey os) key
      in if len ret < POINT_LEN then fst (BinData_clear ret)
         else BinData_truncateFront (len ret - POINT_LEN) ret)"

definition fromPrivate :: "'k openssl \<Rightarrow> bytes \<Rightarrow> 'k option" where
  "fromPrivate os priv =
     (if length priv \<noteq> POINT_LEN then None
      else ossl_decode (d2i_PrivateKey os) (take PRIV_ENCODING_LEN privinfo @ priv))"

definition privateToPublic :: "'k openssl \<Rightarrow> bytes \<Rightarrow> bytes" where
  "privateToPublic os priv =
     (case fromPrivate os priv of None \<Rightarrow> [] | Some key \<Rightarrow> toPublic os key)"

definition Curve_sign :: "'k openssl \<Rightarrow> 'k \<Rightarrow> bytes \<Rightarrow> bytes" where
  "Curve_sign os key data =
     (let n = EVP_PKEY_size os key in
      if n \<le> 0 then []
      else
        let (ret, sig) = EVP_DigestSign os key data
        in if ret \<noteq> 1 then []
           else if length sig \<noteq> nat n then []
           else sig)"

definition Curve_verify :: "'k openssl \<Rightarrow> 'k \<Rightarrow> bytes \<Rightarrow> bytes \<Rightarrow> bool" where
  "Curve_verify os key data signature = (EVP_DigestVerify os key data signature = 1)"

section \<open>Lemmas\<close>

lemma curve_lengths [simp]:
  "POINT_LEN = 32" "length pubinfo = 44" "PUB_ENCODING_LEN = 12" "length privinfo = 48"
  "PRIV_ENCODING_LEN = 16"
  by (simp_all add: POINT_LEN_def pubinfo_def PUB_ENCODING_LEN_def privinfo_def PRIV_ENCODING_LEN_def)

lemma length_toPublic: "length (toPublic os key) = 0 \<or> length (toPublic os key) = 32"
  by (simp add: toPublic_def Let_def)

lemma randInt_loop_bound:
  "randInt_loop m t = Some (r, t') \<Longrightarrow> unat r \<le> m \<and> (\<exists>k. 0 < k \<and> t' = drop (4 * k) t \<and> 4 * k \<le> length t)"
proof (induction m t rule: randInt_loop.induct)
  case (1 m t)
  show ?case
  proof (cases "unat (le32 (take 4 t)) > m")
    case True
    with 1 obtain k where "unat r \<le> m" "0 < k" "t' = drop (4 * k) (drop 4 t)" "4 * k \<le> length (drop 4 t)"
      by (auto simp: randInt_loop.simps [of m t] split: if_splits)
    moreover have "4 \<le> length t"
      using 1(2) by (auto simp: randInt_loop.simps [of m t] split: if_splits)
    ultimately show ?thesis
      by (intro conjI exI [of _ "Suc k"]) (simp_all add: add.commute)
  next
    case False
    with 1(2) show ?thesis
      by (intro conjI exI [of _ 1]) (auto simp: randInt_loop.simps [of m t] split: if_splits)
  qed
qed

text \<open>A number drawn between two different bounds lies at or above the smaller and
  strictly below the larger one: the larger bound itself is never drawn.\<close>

theorem randInt_range:
  assumes "randInt a b t = Some (r, t')" and "a \<noteq> b"
  shows "min a b \<le> r \<and> r < max a b"
proof -
  let ?mn = "min a b" and ?mx = "max a b"
  have lt: "unat ?mn < unat ?mx"
    using assms(2) by (auto simp: word_less_nat_alt [symmetric] min_def max_def)
  have range: "unat (?mx - ?mn) = unat ?mx - unat ?mn"
    using lt by (simp add: unat_sub word_le_nat_alt)
  have order: "(if a > b then (b, a) else (a, b)) = (?mn, ?mx)"
    by (auto simp: min_def max_def)
  obtain d where r: "r = d mod (?mx - ?mn) + ?mn"
    using assms order by (auto simp: randInt_def Let_def)
  define m where "m = d mod (?mx - ?mn)"
  have m: "unat m < unat ?mx - unat ?mn"
    using lt range by (simp add: m_def unat_mod)
  have "unat ?mx < 4294967296"
    by (rule less_le_trans [OF unsigned_less]) simp
  with m have "unat r = unat m + unat ?mn"
    by (simp add: r m_def [symmetric] unat_word_ariths)
  with m show ?thesis
    by (simp add: word_le_nat_alt word_less_nat_alt)
qed

theorem randInt_range_witness:
  "randInt 0 57 [58, 0, 0, 0] = Some (1, []) \<and> (0 :: u32) \<le> 1 \<and> (1 :: u32) < 57"
proof -
  have r: "randInt 0 57 [58, 0, 0, 0] = Some (1, [])"
    by (simp add: randInt_def randInt_loop.simps le32_def UINT_MAX_def)
  then show ?thesis
    using randInt_range [OF r] by simp
qed

section \<open>Keys\<close>

text \<open>Documented behaviour of the DER key functions: what a decoder accepts re-encodes to the
  same bytes; an Ed25519 private key is a 16 byte header and the 32 byte point.\<close>

definition pubkey_canonical :: "'k openssl \<Rightarrow> bool" where
  "pubkey_canonical os \<longleftrightarrow> (\<forall>d k. d2i_PUBKEY os d = Some k \<longrightarrow> i2d_PUBKEY os k = Some d)"

text \<open>A key object that is its own encodings, the instance used in the examples.\<close>

definition plain_openssl :: "bytes openssl" where
  "plain_openssl = \<lparr>i2d_PUBKEY = Some, d2i_PUBKEY = Some,
     i2d_PrivateKey = (\<lambda>k. Some (take 16 privinfo @ drop 12 k)),
     d2i_PrivateKey = (\<lambda>d. Some (take 12 pubinfo @ drop 16 d)),
     EVP_sha256 = (\<lambda>d. take 32 (d @ replicate 32 0)), EVP_sha3_256 = (\<lambda>d. take 32 (d @ replicate 32 0)),
     EVP_PKEY_size = (\<lambda>k. 64), EVP_DigestSign = (\<lambda>k d. (1, take 64 (k @ d @ replicate 64 0))),
     EVP_DigestVerify = (\<lambda>k d s. if s = take 64 (k @ d @ replicate 64 0) then 1 else 0),
     EVP_PKEY_keygen = (\<lambda>t. Some (take 12 pubinfo @ take 32 t))\<rparr>"

text \<open>Key points survive a trip through the key object: a point accepted by
  \<^verbatim>\<open>fromPublic\<close> is 32 bytes long and is what \<^verbatim>\<open>toPublic\<close> returns for that key.\<close>

theorem Curve25519_public_roundtrip:
  assumes "pubkey_canonical os" and "fromPublic os p = Some k"
  shows "toPublic os k = p \<and> length p = 32"
proof -
  have len: "length p = 32" and "d2i_PUBKEY os (take 12 pubinfo @ p) = Some k"
    using assms(2) by (simp_all add: fromPublic_def split: if_splits)
  then have "i2d_PUBKEY os k = Some (take 12 pubinfo @ p)"
    using assms(1) by (simp add: pubkey_canonical_def)
  with len show ?thesis
    by (simp add: toPublic_def ossl_encode_def)
qed

theorem Curve25519_public_roundtrip_witness:
  "\<exists>k. fromPublic plain_openssl (replicate 32 7) = Some k \<and> toPublic plain_openssl k = replicate 32 7"
proof -
  have canonical: "pubkey_canonical plain_openssl"
    by (simp add: pubkey_canonical_def plain_openssl_def)
  have key: "fromPublic plain_openssl (replicate 32 7) = Some (take 12 pubinfo @ replicate 32 7)"
    by (simp add: fromPublic_def plain_openssl_def)
  from Curve25519_public_roundtrip [OF canonical key] key show ?thesis
    by (intro exI [of _ "take 12 pubinfo @ replicate 32 7"] conjI) simp_all
qed

lemma toPrivate_parts:
  assumes "i2d_PrivateKey os k = Some (h @ p)" and "length h = 16" and "length p = 32"
  shows "toPrivate os k = \<lparr>bSecure = True, buffer = Some (p @ drop 16 p), len = 32\<rparr>"
  using assms
  by (simp add: toPrivate_def ossl_encode_into_def SafeData_new_def BinData_new_def
      BinData_resize_def BinData_truncateFront_def)

text \<open>\<^verbatim>\<open>toPrivate\<close> returns the 32 byte private point in a secure buffer, but the
  header it strips leaves the block 16 bytes longer than the recorded length: when the buffer
  is destroyed the last 16 bytes of the private point are still in the released block.\<close>

theorem toPrivate_leaves_key_tail:
  assumes "i2d_PrivateKey os k = Some (h @ p)" and "length h = 16" and "length p = 32"
  shows "bd_bytes (toPrivate os k) = p \<and> bSecure (toPrivate os k) \<and>
         snd (BinData_cleanup (toPrivate os k)) = [replicate 32 0 @ drop 16 p]"
  using toPrivate_parts [OF assms] assms
  by (simp add: bd_bytes_def BinData_cleanup_def zeroize_def)

theorem toPrivate_leaves_key_tail_witness:
  "snd (BinData_cleanup (toPrivate plain_openssl (take 12 pubinfo @ replicate 32 7)))
     = [replicate 32 0 @ replicate 16 7]"
  using toPrivate_leaves_key_tail
    [of plain_openssl "take 12 pubinfo @ replicate 32 7" "take 16 privinfo" "replicate 32 7"]
  by (simp add: plain_openssl_def)

end
