(* ===== verification/FC_Address.thy ===== *)
theory FC_Address
  imports FC_Base58 FC_Crypto
begin

text \<open>
  \<^verbatim>\<open>alg/Address\<close>: wallet and validator addresses.  An address is a 6 byte salt followed by the
  first 20 bytes of a double hash of salt and public key; its printable form is the salt in
  Base64 followed by the rest in Base58.  Buffers are the byte sequences they stand for (the
  buffer theory shows that this is what the buffer operations compute); \<open>None\<close> is an access
  outside a buffer or an exhausted tape of random bytes.
\<close>

section \<open>Model\<close>

definition LENGTH_ADDR :: nat where
  "LENGTH_ADDR = 26"

definition SALT_LENGTH :: nat where
  "SALT_LENGTH = 6"

definition ENCODED_SALT_LENGTH :: nat where
  "ENCODED_SALT_LENGTH = 8"

fun rand_b58_chars :: "nat \<Rightarrow> tape \<Rightarrow> (string \<times> tape) option" where
  "rand_b58_chars 0 t = Some ([], t)"
| "rand_b58_chars (Suc n) t =
     do { (v, t1) \<leftarrow> randInt 0 57 t;
          (s, t2) \<leftarrow> rand_b58_chars n t1;
          Some (Base58_valToChar (ucast v) # s, t2) }"

definition Address_padSalt :: "bytes \<Rightarrow> tape \<Rightarrow> (bytes \<times> tape) option" where
  "Address_padSalt salt t =
     (if length salt > SALT_LENGTH then Some (take SALT_LENGTH salt, t)
      else if length salt < SALT_LENGTH then
        do { (rand, t') \<leftarrow> Prng_rand (SALT_LENGTH - length salt) t;
             Some (salt @ rand, t') }
      else Some (salt, t))"

definition Address_fromSalt :: "'k openssl \<Rightarrow> 'k \<Rightarrow> bytes \<Rightarrow> bytes option" where
  "Address_fromSalt os key paddedSalt =
     (let publicKey = toPublic os key;
          sha3 = sha3_256 os (paddedSalt @ publicKey);
          sha2 = sha2_256 os (paddedSalt @ sha3)
      in append_bytes sha2 20 paddedSalt)"

definition Address_generate_bin :: "'k openssl \<Rightarrow> 'k \<Rightarrow> bytes \<Rightarrow> tape \<Rightarrow> (bytes \<times> tape) option" where
  "Address_generate_bin os key salt t =
     do { (paddedSalt, t') \<leftarrow> Address_padSalt salt t;
          address \<leftarrow> Address_fromSalt os key paddedSalt;
          Some (address, t') }"

definition Address_generate_str :: "'k openssl \<Rightarrow> 'k \<Rightarrow> string \<Rightarrow> tape \<Rightarrow> (bytes \<times> tape) option" where
  "Address_generate_str os key printableSalt t =
     do { (rand, t') \<leftarrow>
            (if length printableSalt mod 4 \<noteq> 0
             then rand_b58_chars (4 - length printableSalt mod 4) t
             else Some ([], t));
          Address_generate_bin os key (Base64_decode (printableSalt @ rand)) t' }"

definition Address_generate :: "'k openssl \<Rightarrow> 'k \<Rightarrow> tape \<Rightarrow> (bytes \<times> tape) option" where
  "Address_generate os key t =
     do { (salt, t') \<leftarrow> rand_b58_chars ENCODED_SALT_LENGTH t;
          Address_generate_str os key salt t' }"

definition Address_verify :: "'k openssl \<Rightarrow> bytes \<Rightarrow> 'k \<Rightarrow> bool option" where
  "Address_verify os address key =
     (if length address \<noteq> LENGTH_ADDR then Some False
      else
        do { (newAddress, _) \<leftarrow> Address_generate_bin os key (take SALT_LENGTH address) [];
             Some (address = newAddress) })"

definition Address_printable :: "'bn bn_ops \<Rightarrow> bytes \<Rightarrow> string option" where
  "Address_printable B address =
     (let ret = Base64_encode (take (min SALT_LENGTH (length address)) address)
      in if length address > SALT_LENGTH
         then map_option (\<lambda>s. ret @ s) (Base58_encode B (drop SALT_LENGTH address))
         else Some ret)"

definition Address_unprintable :: "'bn bn_ops \<Rightarrow> string \<Rightarrow> bytes option" where
  "Address_unprintable B address =
     (let ret = Base64_decode (take (min ENCODED_SALT_LENGTH (length address)) address)
      in if length address > ENCODED_SALT_LENGTH
         then map_option (\<lambda>d. ret @ d) (Base58_decode B (drop ENCODED_SALT_LENGTH address))
         else Some ret)"

definition Address_verify_str :: "'bn bn_ops \<Rightarrow> 'k openssl \<Rightarrow> string \<Rightarrow> 'k \<Rightarrow> bool option" where
  "Address_verify_str B os address key =
     do { a \<leftarrow> Address_unprintable B address; Address_verify os a key }"

section \<open>Lemmas\<close>

lemmas addr_consts = LENGTH_ADDR_def SALT_LENGTH_def ENCODED_SALT_LENGTH_def

text \<open>Documented output size of SHA-256.\<close>

definition sha256_size :: "'k openssl \<Rightarrow> bool" where
  "sha256_size os \<longleftrightarrow> (\<forall>d. length (EVP_sha256 os d) = 32)"

text \<open>The hash part an address of a given salt must carry.\<close>

definition addr_digest :: "'k openssl \<Rightarrow> 'k \<Rightarrow> bytes \<Rightarrow> bytes" where
  "addr_digest os key salt =
     take 20 (sha2_256 os (salt @ sha3_256 os (salt @ toPublic os key)))"

lemma sha2_256_size:
  "sha256_size os \<Longrightarrow> length (sha2_256 os d) = 32"
  by (simp add: sha256_size_def sha2_256_def doHash_def)

lemma fromSalt_digest:
  assumes "sha256_size os"
  shows "Address_fromSalt os key salt = Some (salt @ addr_digest os key salt)"
  using sha2_256_size [OF assms, of "salt @ sha3_256 os (salt @ toPublic os key)"]
  by (auto simp: Address_fromSalt_def append_bytes_def addr_digest_def Let_def)

lemma padSalt_Some:
  assumes "Address_padSalt salt t = Some (s, t')"
  shows "length s = 6" and "take (length salt) s = take 6 salt"
  using assms
  by (auto simp: Address_padSalt_def SALT_LENGTH_def Prng_rand_def split: if_splits bind_splits)

lemma padSalt_total: "6 \<le> length salt + length t \<Longrightarrow> \<exists>s t'. Address_padSalt salt t = Some (s, t')"
  by (auto simp: Address_padSalt_def SALT_LENGTH_def Prng_rand_def)

lemma generate_bin_exact:
  assumes "sha256_size os" and "length salt = 6"
  shows "Address_generate_bin os key salt t = Some (salt @ addr_digest os key salt, t)"
  using assms by (simp add: Address_generate_bin_def Address_padSalt_def SALT_LENGTH_def fromSalt_digest)

lemma generate_bin_salted:
  assumes "sha256_size os" and "Address_generate_bin os key salt t = Some (a, t')"
  shows "\<exists>s. length s = 6 \<and> a = s @ addr_digest os key s \<and> take (length salt) s = take 6 salt"
  using assms padSalt_Some [of salt t]
  by (auto simp: Address_generate_bin_def fromSalt_digest split: bind_splits)

lemma generate_bin_total:
  assumes "sha256_size os" and "6 \<le> length salt + length t"
  shows "\<exists>a t'. Address_generate_bin os key salt t = Some (a, t')"
  using padSalt_total [OF assms(2)] by (auto simp: Address_generate_bin_def fromSalt_digest assms(1))

lemma plain_sha256_size: "sha256_size plain_openssl"
  by (auto simp: sha256_size_def plain_openssl_def)

lemma length_addr_digest: "sha256_size os \<Longrightarrow> length (addr_digest os key s) = 20"
  by (simp add: addr_digest_def sha2_256_size)

lemma verify_iff:
  assumes "sha256_size os"
  shows "Address_verify os a key =
    Some (length a = 26 \<and> drop 6 a = addr_digest os key (take 6 a))"
proof (cases "length a = 26")
  case True
  then have "Address_generate_bin os key (take 6 a) [] =
      Some (take 6 a @ addr_digest os key (take 6 a), [])"
    by (intro generate_bin_exact [OF assms]) simp
  moreover have "a = take 6 a @ d \<longleftrightarrow> drop 6 a = d" for d
    by (metis append_take_drop_id same_append_eq)
  ultimately show ?thesis
    using True by (simp add: Address_verify_def LENGTH_ADDR_def SALT_LENGTH_def)
qed (simp add: Address_verify_def LENGTH_ADDR_def)

lemma printable_unprintable:
  assumes laws: "bn_laws B val" and len: "length a < 2 ^ 31"
  shows "\<exists>s. Address_printable B a = Some s \<and> Address_unprintable B s = Some a"
proof (cases "length a > 6")
  case True
  let ?salt = "Base64_encode (take 6 a)"
  have l8: "length ?salt = 8"
    using True by (simp add: length_Base64_encode)
  have "length (drop 6 a) < 2 ^ 31"
    using len by simp
  from Base58_decode_encode [OF laws this]
  obtain s where s: "Base58_encode B (drop 6 a) = Some s" "Base58_decode B s = Some (drop 6 a)"
    by blast
  have "s \<noteq> []"
    using s(2) True Base58_decode_Nil [OF laws] by auto
  then have "Address_unprintable B (?salt @ s) = Some (take 6 a @ drop 6 a)"
    using l8 s(2) by (simp add: Address_unprintable_def ENCODED_SALT_LENGTH_def Base64_decode_encode)
  with True s(1) show ?thesis
    by (simp add: Address_printable_def SALT_LENGTH_def min_def)
next
  case False
  then have "length (Base64_encode a) \<le> 8"
    by (simp add: length_Base64_encode)
  with False show ?thesis
    by (simp add: Address_printable_def Address_unprintable_def addr_consts min_def Base64_decode_encode)
qed

section \<open>Properties\<close>

text \<open>Claim C15.  Every address generated for a key, from any caller-chosen salt and any random
  bytes, is 26 bytes long, starts with the given salt (cut to 6 bytes) and verifies against
  that key.\<close>

theorem Address_generate_verifies:
  assumes "sha256_size os" and "Address_generate_bin os key salt t = Some (a, t')"
  shows "length a = 26 \<and> take (min 6 (length salt)) a = take 6 salt \<and> Address_verify os a key = Some True"
proof -
  obtain s where s: "length s = 6" "a = s @ addr_digest os key s" "take (length salt) s = take 6 salt"
    using generate_bin_salted [OF assms] by blast
  then have "take (min 6 (length salt)) a = take 6 salt"
    by (auto simp: min_def)
  with s length_addr_digest [OF assms(1), of key s] show ?thesis
    by (simp add: verify_iff [OF assms(1)])
qed

theorem Address_generate_verifies_witness:
  "\<exists>a t'. Address_generate_bin plain_openssl (take 12 pubinfo @ replicate 32 7) [1, 2] [9, 9, 9, 9] = Some (a, t')
     \<and> length a = 26 \<and> take 2 a = [1, 2]
     \<and> Address_verify plain_openssl a (take 12 pubinfo @ replicate 32 7) = Some True"
proof -
  note size = plain_sha256_size
  obtain a t' where g: "Address_generate_bin plain_openssl (take 12 pubinfo @ replicate 32 7) [1, 2] [9, 9, 9, 9]
      = Some (a, t')"
    using generate_bin_total [OF size, of "[1, 2]" "[9, 9, 9, 9]" "take 12 pubinfo @ replicate 32 7"]
    by auto
  from Address_generate_verifies [OF size g] g show ?thesis
    by (simp add: min_def numeral_2_eq_2)
qed

text \<open>Verification accepts exactly the addresses of 26 bytes whose last 20 bytes are
  the truncated double hash of the first 6 bytes and the public key.\<close>

theorem Address_verify_iff:
  assumes "sha256_size os"
  shows "Address_verify os a key =
    Some (length a = 26 \<and>
      drop 6 a = take 20 (sha2_256 os (take 6 a @ sha3_256 os (take 6 a @ toPublic os key))))"
  using verify_iff [OF assms] by (simp add: addr_digest_def)

theorem Address_verify_iff_witness:
  "Address_verify plain_openssl (replicate 25 0) [] = Some False"
  using Address_verify_iff [OF plain_sha256_size, of "replicate 25 0" "[]"] by simp

text \<open>The printable form determines the address: for every byte string below 2 GiB
  printing succeeds and parsing the text gives the bytes back.\<close>

theorem Address_printable_roundtrip:
  assumes laws: "bn_laws B val" and len: "length a < 2 ^ 31"
  shows "\<exists>s. Address_printable B a = Some s \<and> Address_unprintable B s = Some a"
  using assms by (rule printable_unprintable)

theorem Address_printable_roundtrip_witness:
  "\<exists>s. Address_printable nat_bn [1, 2, 3, 4, 5, 6, 0, 8] = Some s \<and>
       Address_unprintable nat_bn s = Some [1, 2, 3, 4, 5, 6, 0, 8]"
  using Address_printable_roundtrip [OF nat_bn_laws, of "[1, 2, 3, 4, 5, 6, 0, 8]"] by simp

end
