(* ===== verification/FC_Decimal.thy ===== *)
theory FC_Decimal
  imports FC_Prelude
begin

text \<open>
  Decimal text, shared by the block file names and the printed amounts: the digits of a
  number, the zero-padded field that the format directives \<^verbatim>\<open>{:08}\<close> and \<^verbatim>\<open>%08u\<close> print, and the
  value of a digit string.
\<close>

section \<open>Model\<close>

definition digit_char :: "nat \<Rightarrow> char" where
  "digit_char d = char_of (48 + d)"

text \<open>Decimal text of a number, and the zero-padded field of a format string.\<close>

function dec :: "nat \<Rightarrow> string" where
  "dec n = (if n < 10 then [digit_char n] else dec (n div 10) @ [digit_char (n mod 10)])"
  by pat_completeness auto
termination
  by (relation "measure id") auto

declare dec.simps [simp del]

definition pad0 :: "nat \<Rightarrow> nat \<Rightarrow> string" where
  "pad0 w n = replicate (w - length (dec n)) CHR ''0'' @ dec n"

definition is_digit :: "char \<Rightarrow> bool" where
  "is_digit c = (of_char CHR ''0'' \<le> (of_char c :: nat) \<and> (of_char c :: nat) \<le> of_char CHR ''9'')"

section \<open>Decimal numbers\<close>

definition digit_val :: "char \<Rightarrow> nat" where
  "digit_val c = of_char c - 48"

definition dval :: "string \<Rightarrow> nat" where
  "dval s = foldl (\<lambda>a c. a * 10 + digit_val c) 0 s"

fun digs :: "nat \<Rightarrow> nat \<Rightarrow> string" where
  "digs 0 n = []"
| "digs (Suc k) n = digs k (n div 10) @ [digit_char (n mod 10)]"

lemma digit_char_val [simp]: "d < 10 \<Longrightarrow> digit_val (digit_char d) = d"
  by (simp add: digit_val_def digit_char_def)

lemma is_digit_char [simp]: "d < 10 \<Longrightarrow> is_digit (digit_char d)"
  by (simp add: is_digit_def digit_char_def)

lemma digit_val_less: "is_digit c \<Longrightarrow> digit_val c < 10"
  by (auto simp: is_digit_def digit_val_def)

lemma digit_char_digit_val: "is_digit c \<Longrightarrow> digit_char (digit_val c) = c"
  by (simp add: is_digit_def digit_char_def digit_val_def)

lemma length_digs [simp]: "length (digs k n) = k"
  by (induction k n rule: digs.induct) simp_all

lemma digs_digits: "list_all is_digit (digs k n)"
  by (induction k n rule: digs.induct) simp_all

lemma dval_digs: "n < 10 ^ k \<Longrightarrow> dval (digs k n) = n"
  by (induction k n rule: digs.induct) (auto simp: dval_def less_mult_imp_div_less)

lemma dval_less: "list_all is_digit s \<Longrightarrow> dval s < 10 ^ length s"
proof (induction s rule: rev_induct)
  case (snoc c s)
  then have "dval s + 1 \<le> 10 ^ length s" "digit_val c < 10"
    by (simp_all add: digit_val_less)
  then show ?case
    by (simp add: dval_def)
qed (simp add: dval_def)

lemma digs_dval: "list_all is_digit s \<Longrightarrow> digs (length s) (dval s) = s"
proof (induction s rule: rev_induct)
  case (snoc c s)
  then have "digit_val c < 10" "is_digit c"
    by (simp_all add: digit_val_less)
  with snoc show ?case
    by (simp add: dval_def digit_char_digit_val)
qed (simp add: dval_def)

lemma digit_char_0: "digit_char 0 = CHR ''0''"
  by code_simp

lemma digs_0: "digs k 0 = replicate k CHR ''0''"
  by (induction k) (simp_all add: digit_char_0 replicate_append_same)

lemma pad0_digs: "n < 10 ^ k \<Longrightarrow> 0 < k \<Longrightarrow> pad0 k n = digs k n"
proof (induction k arbitrary: n)
  case (Suc k)
  show ?case
  proof (cases "n < 10")
    case True
    then show ?thesis
      by (simp add: pad0_def dec.simps digs_0)
  next
    case False
    with Suc.prems have "n div 10 < 10 ^ k" "0 < k"
      by (auto simp: less_mult_imp_div_less intro: Nat.gr0I)
    with Suc.IH have "pad0 k (n div 10) = digs k (n div 10)"
      by blast
    moreover have "dec n = dec (n div 10) @ [digit_char (n mod 10)]"
      using False by (subst dec.simps) simp
    ultimately show ?thesis
      by (simp add: pad0_def)
  qed
qed simp

lemma length_dec_large: "10 ^ k \<le> n \<Longrightarrow> k < length (dec n)"
proof (induction k arbitrary: n)
  case 0
  then show ?case by (subst dec.simps) simp
next
  case (Suc k)
  then have "10 ^ k \<le> n div 10"
    by (simp add: less_eq_div_iff_mult_less_eq mult.commute)
  moreover have "(1 :: nat) \<le> 10 ^ k"
    by simp
  with Suc.prems have "\<not> n < 10"
    by (simp only: power_Suc not_less)
  ultimately show ?case
    using Suc.IH by (subst dec.simps) simp
qed

lemma length_pad0: "length (pad0 w n) = max w (length (dec n))"
  by (simp add: pad0_def)

lemma length_pad0_8: "w \<le> length (pad0 w n)" "10 ^ w \<le> n \<Longrightarrow> w < length (pad0 w n)"
  using length_dec_large [of w n] by (simp_all add: length_pad0)

lemma dec_digits: "list_all is_digit (dec n)"
  by (induction n rule: dec.induct) (subst dec.simps; simp)

lemma dval_dec: "dval (dec n) = n"
  by (induction n rule: dec.induct) (subst dec.simps; auto simp: dval_def)

lemma pad0_digits: "list_all is_digit (pad0 w n)"
  using dec_digits [of n] by (auto simp: pad0_def list_all_iff is_digit_def)

lemma dval_pad0: "dval (pad0 w n) = n"
proof -
  have "dval (replicate k CHR ''0'' @ s) = dval s" for k s
    by (induction k) (simp_all add: dval_def digit_val_def)
  then show ?thesis by (simp add: pad0_def dval_dec)
qed

end
