(* ===== verification/FC_Filename.thy ===== *)
theory FC_Filename
  imports FC_Decimal
begin

text \<open>
  \<^verbatim>\<open>alg/BlockFilename\<close>: the file name of a block on disk, printed from and parsed back into
  reconciliation, shard and block number.  The numbers are 32-bit words.
\<close>

section \<open>Model\<close>

definition BlockFilename_get :: "u32 \<Rightarrow> u32 \<Rightarrow> u32 \<Rightarrow> string" where
  "BlockFilename_get reconciliation shard block =
     pad0 8 (unat reconciliation) @ ''-'' @ pad0 4 (unat shard) @ ''-'' @ pad0 4 (unat block) @ ''.der''"

definition char_diff :: "char \<Rightarrow> int" where
  "char_diff c = of_char c - of_char CHR ''0''"

definition from8 :: "string \<Rightarrow> u32" where
  "from8 p =
     word_of_int (char_diff (p ! 0) * 10000000) +
     word_of_int (char_diff (p ! 1) * 1000000) +
     word_of_int (char_diff (p ! 2) * 100000) +
     word_of_int (char_diff (p ! 3) * 10000) +
     word_of_int (char_diff (p ! 4) * 1000) +
     word_of_int (char_diff (p ! 5) * 100) +
     word_of_int (char_diff (p ! 6) * 10) +
     word_of_int (char_diff (p ! 7) * 1)"

definition from4 :: "string \<Rightarrow> u32" where
  "from4 p =
     word_of_int (char_diff (p ! 0) * 1000) +
     word_of_int (char_diff (p ! 1) * 100) +
     word_of_int (char_diff (p ! 2) * 10) +
     word_of_int (char_diff (p ! 3) * 1)"

definition BlockFilename_parse :: "string \<Rightarrow> (u32 \<times> u32 \<times> u32) option" where
  "BlockFilename_parse str =
     (if length str \<noteq> 22 then None
      else if drop 18 str \<noteq> ''.der'' then None
      else if \<not> list_all (\<lambda>ui. if ui = 8 \<or> ui = 13 then str ! ui = CHR ''-'' else is_digit (str ! ui)) [0..<18]
      then None
      else Some (from8 str, from4 (drop 9 str), from4 (drop 14 str)))"

section \<open>Lemmas\<close>

lemma char_diff_digit: "is_digit c \<Longrightarrow> char_diff c = int (digit_val c)"
  using of_nat_of_char [of c, where ?'a = int] by (simp add: is_digit_def char_diff_def digit_val_def)

lemma list8_split:
  "length p = 8 \<Longrightarrow> \<exists>a b c d e f g h. p = [a, b, c, d, e, f, g, h]"
  by (auto simp: length_Suc_conv numeral_eq_Suc)

lemma list4_split: "length p = 4 \<Longrightarrow> \<exists>a b c d. p = [a, b, c, d]"
  by (auto simp: length_Suc_conv numeral_eq_Suc)

lemma from8_dval:
  assumes "length p = 8" and "list_all is_digit p"
  shows "from8 (p @ q) = of_nat (dval p)"
proof -
  obtain a b c d e f g h where p: "p = [a, b, c, d, e, f, g, h]"
    using list8_split [OF assms(1)] by blast
  with assms(2) show ?thesis
    by (simp add: from8_def dval_def char_diff_digit algebra_simps)
qed

lemma from4_dval:
  assumes "length p = 4" and "list_all is_digit p"
  shows "from4 (p @ q) = of_nat (dval p)"
proof -
  obtain a b c d where p: "p = [a, b, c, d]"
    using list4_split [OF assms(1)] by blast
  with assms(2) show ?thesis
    by (simp add: from4_def dval_def char_diff_digit algebra_simps)
qed

lemma filename_layout:
  assumes "length str = 22"
  shows "drop 18 str = ''.der'' \<and>
      list_all (\<lambda>ui. if ui = 8 \<or> ui = 13 then str ! ui = CHR ''-'' else is_digit (str ! ui)) [0..<18] \<longleftrightarrow>
    (\<exists>a b c. str = a @ ''-'' @ b @ ''-'' @ c @ ''.der'' \<and> length a = 8 \<and> length b = 4 \<and> length c = 4 \<and>
      list_all is_digit a \<and> list_all is_digit b \<and> list_all is_digit c)"
    (is "?l \<longleftrightarrow> ?r")
proof
  assume l: ?l
  let ?a = "take 8 str" and ?b = "take 4 (drop 9 str)" and ?c = "take 4 (drop 14 str)"
  have "str = ?a @ [str ! 8] @ ?b @ [str ! 13] @ ?c @ drop 18 str"
    using assms by (simp add: list_eq_iff_nth_eq nth_append less_Suc_eq numeral_eq_Suc nth_Cons')
  moreover have idx: "if i = 8 \<or> i = 13 then str ! i = CHR ''-'' else is_digit (str ! i)" if "i < 18" for i
    using l that by (auto simp: list_all_iff)
  then have "list_all is_digit ?a" "list_all is_digit ?b" "list_all is_digit ?c"
      "str ! 8 = CHR ''-''" "str ! 13 = CHR ''-''"
    using assms idx [of 8] idx [of 13] by (auto simp: list_all_length split: if_splits)
  ultimately show ?r
    using l assms by (intro exI [of _ ?a] exI [of _ ?b] exI [of _ ?c]) simp
next
  assume ?r
  then obtain a b c where r: "str = a @ ''-'' @ b @ ''-'' @ c @ ''.der''" "length a = 8" "length b = 4"
      "length c = 4" "list_all is_digit a" "list_all is_digit b" "list_all is_digit c"
    by blast
  then show ?l
    by (auto simp: list_all_length list_all_iff nth_append nth_Cons')
qed

lemma if_None_Some_iff:
  "(if a then None else if b then None else if c then None else Some x) = Some y \<longleftrightarrow>
     \<not> a \<and> \<not> b \<and> \<not> c \<and> x = y"
  by simp

lemma parse_layout:
  assumes "length a = 8" and "length b = 4" and "length c = 4"
    and "list_all is_digit a" and "list_all is_digit b" and "list_all is_digit c"
  shows "BlockFilename_parse (a @ ''-'' @ b @ ''-'' @ c @ ''.der'') =
           Some (of_nat (dval a), of_nat (dval b), of_nat (dval c))"
proof -
  let ?s = "a @ ''-'' @ b @ ''-'' @ c @ ''.der''"
  have "length ?s = 22"
    using assms by simp
  with filename_layout [of ?s] assms have "drop 18 ?s = ''.der'' \<and>
      list_all (\<lambda>ui. if ui = 8 \<or> ui = 13 then ?s ! ui = CHR ''-'' else is_digit (?s ! ui)) [0..<18]"
    by blast
  moreover have "drop 9 ?s = b @ ''-'' @ c @ ''.der''" "drop 14 ?s = c @ ''.der''"
    using assms by simp_all
  ultimately show ?thesis
    using \<open>length ?s = 22\<close> assms by (simp only: BlockFilename_parse_def from8_dval from4_dval) simp
qed

lemma get_digs:
  assumes "unat r < 10 ^ 8" and "unat s < 10 ^ 4" and "unat b < 10 ^ 4"
  shows "BlockFilename_get r s b = digs 8 (unat r) @ ''-'' @ digs 4 (unat s) @ ''-'' @ digs 4 (unat b) @ ''.der''"
  using assms by (simp add: BlockFilename_get_def pad0_digs del: power_numeral)

lemma parse_get_small:
  assumes "unat r < 10 ^ 8" and "unat s < 10 ^ 4" and "unat b < 10 ^ 4"
  shows "BlockFilename_parse (BlockFilename_get r s b) = Some (r, s, b)"
proof -
  have "BlockFilename_parse (BlockFilename_get r s b) =
      Some (of_nat (dval (digs 8 (unat r))), of_nat (dval (digs 4 (unat s))), of_nat (dval (digs 4 (unat b))))"
    unfolding get_digs [OF assms] by (rule parse_layout) (simp_all add: digs_digits)
  also have "\<dots> = Some (r, s, b)"
    by (simp only: dval_digs [OF assms(1)] dval_digs [OF assms(2)] dval_digs [OF assms(3)] of_nat_unat ucast_id)
  finally show ?thesis .
qed

section \<open>Properties\<close>

text \<open>A file name is parsed back to the numbers it was printed from exactly when the
  reconciliation number has at most eight and the other two at most four decimal digits; a
  name printed from larger numbers is rejected.\<close>

theorem BlockFilename_parse_get:
  "BlockFilename_parse (BlockFilename_get r s b) =
     (if unat r < 100000000 \<and> unat s < 10000 \<and> unat b < 10000 then Some (r, s, b) else None)"
proof (cases "unat r < 10 ^ 8 \<and> unat s < 10 ^ 4 \<and> unat b < 10 ^ 4")
  case True
  then show ?thesis
    using parse_layout [of "digs 8 (unat r)" "digs 4 (unat s)" "digs 4 (unat b)"]
    by (simp add: get_digs digs_digits dval_digs)
next
  case False
  then have "length (BlockFilename_get r s b) \<noteq> 22"
    using length_pad0_8 [where w = 8 and n = "unat r"] length_pad0_8 [where w = 4 and n = "unat s"]
      length_pad0_8 [where w = 4 and n = "unat b"]
    by (auto simp: BlockFilename_get_def)
  with False show ?thesis
    by (auto simp: BlockFilename_parse_def)
qed

text \<open>A name the parser accepts is exactly the name printed from the numbers it
  returns, so two different accepted names never denote the same block.\<close>

theorem BlockFilename_get_parse:
  assumes "BlockFilename_parse str = Some (r, s, b)"
  shows "BlockFilename_get r s b = str"
proof -
  have len: "length str = 22"
    using assms by (simp add: BlockFilename_parse_def split: if_splits)
  have "drop 18 str = ''.der'' \<and>
      list_all (\<lambda>ui. if ui = 8 \<or> ui = 13 then str ! ui = CHR ''-'' else is_digit (str ! ui)) [0..<18]"
    using assms by (simp only: BlockFilename_parse_def if_None_Some_iff not_not simp_thms)
  then obtain x y z where
    str: "str = x @ ''-'' @ y @ ''-'' @ z @ ''.der''" "length x = 8" "length y = 4" "length z = 4"
      "list_all is_digit x" "list_all is_digit y" "list_all is_digit z"
    unfolding filename_layout [OF len] by blast
  from parse_layout [OF this(2-7)] assms str(1)
  have rsb: "r = of_nat (dval x)" "s = of_nat (dval y)" "b = of_nat (dval z)"
    by simp_all
  have less: "dval x < 100000000" "dval y < 10000" "dval z < 10000"
    using dval_less [OF str(5)] dval_less [OF str(6)] dval_less [OF str(7)] str(2-4) by simp_all
  then have "unat r = dval x" "unat s = dval y" "unat b = dval z"
    by (simp_all add: rsb unat_of_nat)
  with less have "BlockFilename_get r s b = digs 8 (dval x) @ ''-'' @ digs 4 (dval y) @ ''-'' @ digs 4 (dval z) @ ''.der''"
    by (subst get_digs) simp_all
  with digs_dval [OF str(5)] digs_dval [OF str(6)] digs_dval [OF str(7)] str(1-4) show ?thesis
    by metis
qed

theorem BlockFilename_get_parse_witness:
  "BlockFilename_get 12 3 4 = ''00000012-0003-0004.der''"
proof -
  have "BlockFilename_parse ''00000012-0003-0004.der'' = Some (12, 3, 4)"
    using parse_layout [of "''00000012''" "''0003''" "''0004''"]
    by (simp add: is_digit_def dval_def digit_val_def)
  then show ?thesis
    by (rule BlockFilename_get_parse)
qed

end
