(* ===== verification/FC_Asn1.thy ===== *)
theory FC_Asn1
  imports FC_Crypto FC_Decimal
begin

text \<open>
  The conversions between C++ values and OpenSSL's ASN.1 objects (\<^verbatim>\<open>ossl/convert\<close>) and the
  leaf classes of the block format: \<^verbatim>\<open>block/Time\<close>, \<^verbatim>\<open>block/Specie\<close>, \<^verbatim>\<open>block/Hash\<close> and the byte
  wrappers \<^verbatim>\<open>block/Address\<close>, \<^verbatim>\<open>block/PublicKey\<close>, \<^verbatim>\<open>block/Signature\<close>.

  An \<^verbatim>\<open>ASN1_INTEGER\<close> is the integer it holds and an \<^verbatim>\<open>ASN1_STRING\<close> its bytes.  \<^verbatim>\<open>ASN1_INTEGER_get\<close>, which returns a \<^verbatim>\<open>long\<close>, is the
  argument \<open>og\<close>.  A method \<^verbatim>\<open>toAsn1\<close> fills the object it is given, so it maps a value and the
  old object to the new one.
\<close>

section \<open>Model\<close>

subsection \<open>Integers and strings\<close>

type_synonym asn1_int = int
type_synonym octets = bytes

definition toBin :: "octets \<Rightarrow> bytes" where
  "toBin t = t"

text \<open>The length is cast to a 32-bit \<^verbatim>\<open>int\<close>.  \<^verbatim>\<open>ASN1_STRING_set\<close> copies that many bytes; a negative length
  stands for a string that ends at its first zero byte (if there is none in the data the C function reads on
  behind it, which is undefined and not described here).\<close>

definition ASN1_STRING_set :: "bytes \<Rightarrow> int \<Rightarrow> octets" where
  "ASN1_STRING_set data n = (if n < 0 then takeWhile (\<lambda>b. b \<noteq> 0) data else take (nat n) data)"

definition int_length :: "bytes \<Rightarrow> int" where
  "int_length data = sint (of_nat (length data) :: u32)"

definition fromBin :: "octets \<Rightarrow> bytes \<Rightarrow> octets" where
  "fromBin t data = ASN1_STRING_set data (int_length data)"

definition asn1_toString :: "octets \<Rightarrow> string" where
  "asn1_toString t = bytes_string t"

definition asn1_fromString :: "octets \<Rightarrow> string \<Rightarrow> octets" where
  "asn1_fromString t str = ASN1_STRING_set (string_bytes str) (int_length (string_bytes str))"

definition toUInt32 :: "(asn1_int \<Rightarrow> int) \<Rightarrow> asn1_int \<Rightarrow> u32" where
  "toUInt32 og t = (if t < 0 \<or> t \<ge> 2 ^ 32 then 0 else word_of_int (og t))"

definition fromUInt32 :: "asn1_int \<Rightarrow> u32 \<Rightarrow> asn1_int" where
  "fromUInt32 t ui = uint ui"

definition toUInt64 :: "(asn1_int \<Rightarrow> int) \<Rightarrow> asn1_int \<Rightarrow> u64" where
  "toUInt64 og t = (if t < 0 \<or> t \<ge> 2 ^ 64 then 0 else word_of_int (og t))"

definition fromUInt64 :: "asn1_int \<Rightarrow> u64 \<Rightarrow> asn1_int" where
  "fromUInt64 t ui = uint ui"

text \<open>The macro-generated stack conversions.  \<open>mv\<close> is the move constructor that
  \<^verbatim>\<open>push_back(std::move(cur))\<close> runs.\<close>

definition to_stack :: "('a \<Rightarrow> 's \<Rightarrow> 's) \<Rightarrow> 's \<Rightarrow> 's list \<Rightarrow> 'a list \<Rightarrow> 's list" where
  "to_stack toA new st objs = map (\<lambda>cur. toA cur new) objs"

definition from_stack :: "('s \<Rightarrow> 'a) \<Rightarrow> ('a \<Rightarrow> 'a) \<Rightarrow> 's list \<Rightarrow> 'a list" where
  "from_stack fromA mv st = map (\<lambda>pt. mv (fromA pt)) st"

subsection \<open>Time\<close>

definition fluffyEpochDelta :: int where
  "fluffyEpochDelta = 0xD87B28B000"

record Time =
  sinceEpoch :: u64

definition Time_new :: Time where
  "Time_new = \<lparr>sinceEpoch = 0\<rparr>"

text \<open>Points of the system clock are milliseconds since the Unix epoch.\<close>

definition Time_getSystemClock :: "Time \<Rightarrow> int" where
  "Time_getSystemClock t =
     (uint (sinceEpoch t div 1000) + fluffyEpochDelta) * 1000 + uint (sinceEpoch t mod 1000)"

definition Time_set :: "u64 \<Rightarrow> Time \<Rightarrow> Time" where
  "Time_set time t = t\<lparr>sinceEpoch := time\<rparr>"

definition Time_setClock :: "int \<Rightarrow> Time \<Rightarrow> Time" where
  "Time_setClock sinceLinuxEpoch t =
     (if sinceLinuxEpoch < fluffyEpochDelta then t\<lparr>sinceEpoch := 0\<rparr>
      else t\<lparr>sinceEpoch := word_of_int (sinceLinuxEpoch - fluffyEpochDelta)\<rparr>)"

definition Time_now :: "int \<Rightarrow> Time" where
  "Time_now clock = Time_setClock clock Time_new"

definition Time_toAsn1 :: "Time \<Rightarrow> asn1_int \<Rightarrow> asn1_int" where
  "Time_toAsn1 x t = fromUInt64 t (sinceEpoch x)"

definition Time_fromAsn1 :: "(asn1_int \<Rightarrow> int) \<Rightarrow> asn1_int \<Rightarrow> Time" where
  "Time_fromAsn1 og t = \<lparr>sinceEpoch = toUInt64 og t\<rparr>"

definition Time_less :: "Time \<Rightarrow> Time \<Rightarrow> bool" where
  "Time_less a b = (sinceEpoch a < sinceEpoch b)"

definition Time_le :: "Time \<Rightarrow> Time \<Rightarrow> bool" where
  "Time_le a b = (sinceEpoch a \<le> sinceEpoch b)"

subsection \<open>Specie\<close>

record Specie =
  coins :: u64
  fluffs :: u32

record Specie_st =
  coins_a :: asn1_int
  fluffs_a :: asn1_int

definition Specie_new :: Specie where
  "Specie_new = \<lparr>coins = 0, fluffs = 0\<rparr>"

definition Specie_st_new :: Specie_st where
  "Specie_st_new = \<lparr>coins_a = 0, fluffs_a = 0\<rparr>"

definition Specie_setCoins :: "u64 \<Rightarrow> Specie \<Rightarrow> Specie" where
  "Specie_setCoins c s = s\<lparr>coins := c\<rparr>"

definition Specie_setFluffs :: "u32 \<Rightarrow> Specie \<Rightarrow> Specie" where
  "Specie_setFluffs f s = s\<lparr>fluffs := f\<rparr>"

definition Specie_toAsn1 :: "Specie \<Rightarrow> Specie_st \<Rightarrow> Specie_st" where
  "Specie_toAsn1 x t =
     t\<lparr>coins_a := fromUInt64 (coins_a t) (coins x), fluffs_a := fromUInt32 (fluffs_a t) (fluffs x)\<rparr>"

definition Specie_fromAsn1 :: "(asn1_int \<Rightarrow> int) \<Rightarrow> Specie_st \<Rightarrow> Specie" where
  "Specie_fromAsn1 og t = \<lparr>coins = toUInt64 og (coins_a t), fluffs = toUInt32 og (fluffs_a t)\<rparr>"

text \<open>The trailing characters are removed while more than one is left.\<close>

function strip_zeros_from :: "string \<Rightarrow> string" where
  "strip_zeros_from s =
     (if length s > 1 \<and> last s = CHR ''0'' then strip_zeros_from (butlast s) else s)"
  by pat_completeness auto
termination
  by (relation "measure length") auto

declare strip_zeros_from.simps [simp del]

definition Specie_to_string :: "Specie \<Rightarrow> string" where
  "Specie_to_string specie =
     (let szRet = strip_zeros_from (dec (unat (coins specie)) @ ''.'' @ pad0 8 (unat (fluffs specie)))
      in if last szRet = CHR ''.'' then butlast szRet else szRet)"

subsection \<open>Hash\<close>

record Hash =
  sha2 :: bytes
  sha3 :: bytes

record Hash_st =
  sha2_a :: octets
  sha3_a :: octets

definition Hash_new :: Hash where
  "Hash_new = \<lparr>sha2 = [], sha3 = []\<rparr>"

definition Hash_st_new :: Hash_st where
  "Hash_st_new = \<lparr>sha2_a = [], sha3_a = []\<rparr>"

definition Hash_of :: "'k openssl \<Rightarrow> bytes \<Rightarrow> Hash" where
  "Hash_of os value = \<lparr>sha2 = sha2_256 os value, sha3 = sha3_256 os value\<rparr>"

definition Hash_setSha2 :: "bytes \<Rightarrow> Hash \<Rightarrow> Hash" where
  "Hash_setSha2 h x = x\<lparr>sha2 := h\<rparr>"

definition Hash_setSha3 :: "bytes \<Rightarrow> Hash \<Rightarrow> Hash" where
  "Hash_setSha3 h x = x\<lparr>sha3 := h\<rparr>"

definition Hash_toAsn1 :: "Hash \<Rightarrow> Hash_st \<Rightarrow> Hash_st" where
  "Hash_toAsn1 x t = t\<lparr>sha2_a := fromBin (sha2_a t) (sha2 x), sha3_a := fromBin (sha3_a t) (sha3 x)\<rparr>"

definition Hash_fromAsn1 :: "Hash_st \<Rightarrow> Hash" where
  "Hash_fromAsn1 t = \<lparr>sha2 = toBin (sha2_a t), sha3 = toBin (sha3_a t)\<rparr>"

definition Hash_encode :: "(Hash_st \<Rightarrow> bytes option) \<Rightarrow> Hash \<Rightarrow> bytes" where
  "Hash_encode i2d_Hash x = ossl_encode i2d_Hash (Hash_toAsn1 x Hash_st_new)"

definition Hash_eq :: "Hash \<Rightarrow> Hash \<Rightarrow> bool" where
  "Hash_eq a b =
     (length (sha2 a) = length (sha2 b) \<and> length (sha3 a) = length (sha3 b) \<and>
      sha2 a = take (length (sha2 a)) (sha2 b) \<and> sha3 a = take (length (sha3 a)) (sha3 b))"

subsection \<open>Address, PublicKey and Signature\<close>

type_synonym Address = bytes
type_synonym PublicKey = bytes
type_synonym Signature = bytes

definition Address_toAsn1 :: "Address \<Rightarrow> octets \<Rightarrow> octets" where
  "Address_toAsn1 x t = fromBin t x"

definition Address_fromAsn1 :: "octets \<Rightarrow> Address" where
  "Address_fromAsn1 t = toBin t"

definition Address_eq :: "Address \<Rightarrow> Address \<Rightarrow> bool" where
  "Address_eq a b = (length b = length a \<and> take (length a) b = a)"

definition PublicKey_toAsn1 :: "PublicKey \<Rightarrow> octets \<Rightarrow> octets" where
  "PublicKey_toAsn1 x t = fromBin t x"

definition PublicKey_fromAsn1 :: "octets \<Rightarrow> PublicKey" where
  "PublicKey_fromAsn1 t = toBin t"

definition PublicKey_eq :: "PublicKey \<Rightarrow> PublicKey \<Rightarrow> bool" where
  "PublicKey_eq a b = (length b = length a \<and> take (length a) b = a)"

definition Signature_toAsn1 :: "Signature \<Rightarrow> octets \<Rightarrow> octets" where
  "Signature_toAsn1 x t = fromBin t x"

definition Signature_fromAsn1 :: "octets \<Rightarrow> Signature" where
  "Signature_fromAsn1 t = toBin t"

definition Signature_eq :: "Signature \<Rightarrow> Signature \<Rightarrow> bool" where
  "Signature_eq a b = (length b = length a \<and> take (length a) b = a)"

section \<open>Lemmas\<close>

text \<open>Documented: the value when it fits a \<^verbatim>\<open>long\<close>, else -1.\<close>

definition long_get :: "(asn1_int \<Rightarrow> int) \<Rightarrow> bool" where
  "long_get og \<longleftrightarrow> (\<forall>n. og n = (if - (2 ^ 63) \<le> n \<and> n < 2 ^ 63 then n else - 1))"

definition ASN1_INTEGER_get :: "asn1_int \<Rightarrow> int" where
  "ASN1_INTEGER_get n = (if - (2 ^ 63) \<le> n \<and> n < 2 ^ 63 then n else - 1)"

lemma long_get_ASN1_INTEGER_get: "long_get ASN1_INTEGER_get"
  by (simp add: long_get_def ASN1_INTEGER_get_def)

text \<open>The values a 64-bit field keeps through its ASN.1 form.\<close>

definition fits_long :: "u64 \<Rightarrow> bool" where
  "fits_long x \<longleftrightarrow> uint x < 2 ^ 63"

lemma uint32_bound: "uint (x :: u32) < 4294967296"
  by (rule less_le_trans [OF unsigned_less]) simp

lemma uint64_bound: "uint (x :: u64) < 18446744073709551616"
  by (rule less_le_trans [OF unsigned_less]) simp

lemma long_min_le_uint [simp]: "- 9223372036854775808 \<le> uint x"
  by (rule order_trans [of _ 0]) simp_all

lemma toUInt32_fromUInt32 [roundtrip]:
  "long_get og \<Longrightarrow> toUInt32 og (fromUInt32 t ui) = ui"
  using uint32_bound [of ui] by (simp add: toUInt32_def fromUInt32_def long_get_def)

lemma toUInt32_fromUInt64:
  "long_get og \<Longrightarrow> toUInt32 og (fromUInt64 t (ucast ui)) = ui"
  using uint32_bound [of ui]
  by (simp add: toUInt32_def fromUInt64_def long_get_def unsigned_ucast_eq take_bit_int_eq_self)

lemma toUInt64_fromUInt64:
  "long_get og \<Longrightarrow> toUInt64 og (fromUInt64 t ui) = (if fits_long ui then ui else - 1)"
  using uint64_bound [of ui] by (simp add: toUInt64_def fromUInt64_def long_get_def fits_long_def)

text \<open>The byte strings whose length an \<^verbatim>\<open>int\<close> holds are kept.\<close>

definition fits_int :: "'a list \<Rightarrow> bool" where
  "fits_int data \<longleftrightarrow> length data < 2 ^ 31"

lemma fits_int_Nil [simp]: "fits_int []"
  by (simp add: fits_int_def)

lemma fits_int_Cons [simp]: "fits_int [x]"
  by (simp add: fits_int_def)

lemma fits_int_string_bytes [simp]: "fits_int (string_bytes s) \<longleftrightarrow> fits_int s"
  by (simp add: fits_int_def string_bytes_def)

lemma int_length_small: "fits_int data \<Longrightarrow> int_length data = int (length data)"
  by (simp add: int_length_def fits_int_def sint_uint unsigned_of_nat take_bit_nat_eq_self signed_take_bit_int_eq_self)

lemma fromBin_small: "fits_int data \<Longrightarrow> fromBin t data = data"
  by (simp add: fromBin_def ASN1_STRING_set_def int_length_small)

lemma octets_roundtrip [simp]:
  "fits_int x \<Longrightarrow> Address_fromAsn1 (Address_toAsn1 x t) = x" "fits_int x \<Longrightarrow> PublicKey_fromAsn1 (PublicKey_toAsn1 x t) = x"
  "fits_int x \<Longrightarrow> Signature_fromAsn1 (Signature_toAsn1 x t) = x" "fits_int x \<Longrightarrow> toBin (fromBin t x) = x"
  "fits_int s \<Longrightarrow> asn1_toString (asn1_fromString t s) = s"
  by (simp_all add: Address_fromAsn1_def Address_toAsn1_def PublicKey_fromAsn1_def PublicKey_toAsn1_def
      Signature_fromAsn1_def Signature_toAsn1_def toBin_def asn1_toString_def asn1_fromString_def
      fromBin_small ASN1_STRING_set_def int_length_small)

definition Hash_ok :: "Hash \<Rightarrow> bool" where
  "Hash_ok x \<longleftrightarrow> fits_int (sha2 x) \<and> fits_int (sha3 x)"

lemma Hash_roundtrip [simp]: "Hash_ok x \<Longrightarrow> Hash_fromAsn1 (Hash_toAsn1 x t) = x"
  by (simp add: Hash_fromAsn1_def Hash_toAsn1_def Hash_ok_def)

lemma byte_wrappers_eq: "Address_eq a b \<longleftrightarrow> a = b" "PublicKey_eq a b \<longleftrightarrow> a = b" "Signature_eq a b \<longleftrightarrow> a = b"
  by (auto simp: Address_eq_def PublicKey_eq_def Signature_eq_def)

lemma Hash_eq_iff: "Hash_eq a b \<longleftrightarrow> a = b"
  by (cases a; cases b) (auto simp: Hash_eq_def)

definition Time_ok :: "Time \<Rightarrow> bool" where
  "Time_ok x \<longleftrightarrow> fits_long (sinceEpoch x)"

definition Specie_ok :: "Specie \<Rightarrow> bool" where
  "Specie_ok x \<longleftrightarrow> fits_long (coins x)"

lemma Time_roundtrip [roundtrip]:
  "long_get og \<Longrightarrow> Time_ok x \<Longrightarrow> Time_fromAsn1 og (Time_toAsn1 x t) = x"
  by (cases x) (simp add: Time_fromAsn1_def Time_toAsn1_def Time_ok_def toUInt64_fromUInt64)

lemma Specie_roundtrip [roundtrip]:
  "long_get og \<Longrightarrow> Specie_ok x \<Longrightarrow> Specie_fromAsn1 og (Specie_toAsn1 x t) = x"
  by (cases x) (simp add: Specie_fromAsn1_def Specie_toAsn1_def Specie_ok_def toUInt64_fromUInt64
      toUInt32_fromUInt32)

section \<open>The conversion interface\<close>

text \<open>A class whose ASN.1 form determines it.  The stack conversions are proved once for every
  such class.\<close>

locale asn1_class =
  fixes toA :: "'a \<Rightarrow> 's \<Rightarrow> 's"
    and fromA :: "'s \<Rightarrow> 'a"
    and good :: "'a \<Rightarrow> bool"
  assumes from_to: "good x \<Longrightarrow> fromA (toA x t) = x"
begin

lemma stack_roundtrip:
  "list_all good xs \<Longrightarrow> from_stack fromA (\<lambda>x. x) (to_stack toA new st xs) = xs"
  by (induction xs) (simp_all add: from_stack_def to_stack_def from_to)

lemma stack_injective:
  "list_all good xs \<Longrightarrow> list_all good ys \<Longrightarrow> to_stack toA new st xs = to_stack toA new st ys \<Longrightarrow> xs = ys"
  by (metis stack_roundtrip)

lemma stack_moved:
  "list_all good xs \<Longrightarrow> from_stack fromA mv (to_stack toA new st xs) = map mv xs"
  by (induction xs) (simp_all add: from_stack_def to_stack_def from_to)

end

interpretation specie_asn1: asn1_class Specie_toAsn1 "Specie_fromAsn1 og" "\<lambda>x. long_get og \<and> Specie_ok x"
  for og
  by unfold_locales (simp add: Specie_roundtrip)

interpretation hash_asn1: asn1_class Hash_toAsn1 Hash_fromAsn1 Hash_ok
  by unfold_locales simp

section \<open>Printed amounts\<close>

definition rstrip0 :: "string \<Rightarrow> string" where
  "rstrip0 p = rev (dropWhile (\<lambda>c. c = CHR ''0'') (rev p))"

lemma strip_zeros_from_dot:
  "strip_zeros_from (a @ CHR ''.'' # p) = a @ CHR ''.'' # rstrip0 p"
proof (induction p rule: rev_induct)
  case Nil
  then show ?case by (simp add: strip_zeros_from.simps rstrip0_def)
next
  case (snoc z p)
  then show ?case
    by (subst strip_zeros_from.simps) (simp add: rstrip0_def butlast_append)
qed

lemma rstrip0_restore: "p = rstrip0 p @ replicate (length p - length (rstrip0 p)) CHR ''0''"
proof (induction p rule: rev_induct)
  case (snoc z p)
  have "length (rstrip0 p) \<le> length p"
    using length_dropWhile_le [of _ "rev p"] by (simp add: rstrip0_def)
  with snoc show ?case
    by (cases "z = CHR ''0''") (auto simp: rstrip0_def Suc_diff_le replicate_append_same [symmetric])
qed (simp add: rstrip0_def)

lemma rstrip0_last: "rstrip0 p \<noteq> [] \<Longrightarrow> last (rstrip0 p) \<noteq> CHR ''0''"
  using hd_dropWhile [of "\<lambda>c. c = CHR ''0''" "rev p"] by (simp add: rstrip0_def last_rev)

lemma digit_not_dot: "is_digit c \<Longrightarrow> c \<noteq> CHR ''.''"
  by (auto simp: is_digit_def)

lemma dec_nonempty [simp]: "dec n \<noteq> []"
  by (subst dec.simps) simp

lemma Specie_to_string_form:
  "Specie_to_string s =
     dec (unat (coins s)) @ (let p = rstrip0 (pad0 8 (unat (fluffs s))) in if p = [] then [] else CHR ''.'' # p)"
proof -
  have pad: "list_all is_digit (pad0 8 (unat (fluffs s)))"
    by (rule pad0_digits)
  have "list_all is_digit (rstrip0 (pad0 8 (unat (fluffs s))))"
    using pad set_dropWhileD unfolding rstrip0_def list_all_iff by fastforce
  then have "rstrip0 (pad0 8 (unat (fluffs s))) \<noteq> [] \<Longrightarrow>
      last (rstrip0 (pad0 8 (unat (fluffs s)))) \<noteq> CHR ''.''"
    using digit_not_dot last_in_set by (metis list_all_iff)
  then show ?thesis
    by (simp add: Specie_to_string_def strip_zeros_from_dot Let_def butlast_append)
qed

lemma split_at_dot:
  assumes "\<forall>c \<in> set a. c \<noteq> CHR ''.''"
  shows "takeWhile (\<lambda>c. c \<noteq> CHR ''.'') (a @ (if p = [] then [] else CHR ''.'' # p)) = a"
    and "drop (Suc (length a)) (a @ (if p = [] then [] else CHR ''.'' # p)) = p"
  using assms by (auto simp: takeWhile_append)

section \<open>Properties\<close>

text \<open>A 64-bit value keeps its ASN.1 integer form exactly below \<open>2^63\<close>; every larger
  value is read back as \<open>2^64 - 1\<close>.\<close>

theorem asn1_uint64_roundtrip_iff:
  assumes "long_get og"
  shows "toUInt64 og (fromUInt64 t ui) = (if uint ui < 2 ^ 63 then ui else 2 ^ 64 - 1)"
  using toUInt64_fromUInt64 [OF assms, of t ui] by (simp add: fits_long_def)

theorem asn1_uint64_roundtrip_iff_witness:
  "toUInt64 ASN1_INTEGER_get (fromUInt64 0 (2 ^ 63)) = 2 ^ 64 - 1"
  using asn1_uint64_roundtrip_iff [OF long_get_ASN1_INTEGER_get, of 0 "2 ^ 63"] by simp

text \<open>Converting a block time to a clock point and back does not give the time: the
  epoch offset, a number of milliseconds, is added as seconds, which moves the result by 999
  times the offset (as long as the sum stays in 64 bits).\<close>

theorem Time_clock_offset:
  assumes "uint (sinceEpoch t) + 999 * fluffyEpochDelta < 2 ^ 64"
  shows "uint (sinceEpoch (Time_setClock (Time_getSystemClock t) t)) = uint (sinceEpoch t) + 999 * fluffyEpochDelta"
proof -
  have "uint (sinceEpoch t div 1000) * 1000 + uint (sinceEpoch t mod 1000) = uint (sinceEpoch t)"
    by (simp add: uint_div uint_mod)
  then have clock: "Time_getSystemClock t - fluffyEpochDelta = uint (sinceEpoch t) + 999 * fluffyEpochDelta"
    by (simp add: Time_getSystemClock_def)
  have "0 \<le> uint (sinceEpoch t) + 999 * fluffyEpochDelta"
    by (simp add: fluffyEpochDelta_def)
  with clock have "\<not> Time_getSystemClock t < fluffyEpochDelta"
    by linarith
  then have "sinceEpoch (Time_setClock (Time_getSystemClock t) t) =
      word_of_int (uint (sinceEpoch t) + 999 * fluffyEpochDelta)"
    by (simp only: Time_setClock_def if_False clock Time.select_convs Time.update_convs Time.surjective) simp
  with assms \<open>0 \<le> _\<close> show ?thesis
    by (simp only: uint_word_of_int) simp
qed

theorem Time_clock_offset_witness:
  "sinceEpoch (Time_setClock (Time_getSystemClock \<lparr>sinceEpoch = 5\<rparr>) \<lparr>sinceEpoch = 5\<rparr>) \<noteq> 5"
proof
  assume eq: "sinceEpoch (Time_setClock (Time_getSystemClock \<lparr>sinceEpoch = 5\<rparr>) \<lparr>sinceEpoch = 5\<rparr>) = 5"
  have "uint (sinceEpoch (Time_setClock (Time_getSystemClock \<lparr>sinceEpoch = 5\<rparr>) \<lparr>sinceEpoch = 5\<rparr>)) =
      uint (sinceEpoch \<lparr>sinceEpoch = 5\<rparr>) + 999 * fluffyEpochDelta"
    by (rule Time_clock_offset) (simp add: fluffyEpochDelta_def)
  with eq show False by (simp add: fluffyEpochDelta_def)
qed

text \<open>The printed form of an amount tells amounts apart: two amounts with fewer than
  100000000 fluffs are printed alike only if they are equal.\<close>

theorem Specie_to_string_injective:
  assumes "fluffs a < 100000000" and "fluffs b < 100000000"
    and "Specie_to_string a = Specie_to_string b"
  shows "coins a = coins b \<and> fluffs a = fluffs b"
proof -
  let ?p = "\<lambda>s. rstrip0 (pad0 8 (unat (fluffs s)))"
  have nodot: "\<forall>c \<in> set (dec n). c \<noteq> CHR ''.''" for n
    using dec_digits [of n] digit_not_dot by (auto simp: list_all_iff)
  have form: "Specie_to_string s = dec (unat (coins s)) @ (if ?p s = [] then [] else CHR ''.'' # ?p s)" for s
    by (simp add: Specie_to_string_form Let_def)
  have "dec (unat (coins a)) = dec (unat (coins b))"
    using split_at_dot(1) [OF nodot] assms(3) unfolding form by metis
  then have coins: "coins a = coins b"
    using dval_dec by (metis word_unat_eq_iff)
  have "?p a = ?p b"
    using split_at_dot(2) [OF nodot] assms(3) coins unfolding form by metis
  moreover have digs: "pad0 8 (unat (fluffs s)) = digs 8 (unat (fluffs s))"
    and len: "unat (fluffs s) < 10 ^ 8" if "fluffs s < 100000000" for s
    using that by (simp_all add: pad0_digs word_less_nat_alt)
  moreover have "length (digs 8 n) = 8" for n
    by simp
  ultimately have "digs 8 (unat (fluffs a)) = digs 8 (unat (fluffs b))"
    using assms(1,2) rstrip0_restore by metis
  then have "unat (fluffs a) = unat (fluffs b)"
    using dval_digs [OF len] assms(1,2) by metis
  with coins show ?thesis by (simp add: word_unat_eq_iff)
qed

theorem Specie_to_string_injective_witness:
  "Specie_to_string \<lparr>coins = 10, fluffs = 50\<rparr> \<noteq> Specie_to_string \<lparr>coins = 10, fluffs = 5\<rparr>"
proof
  assume "Specie_to_string \<lparr>coins = 10, fluffs = 50\<rparr> = Specie_to_string \<lparr>coins = 10, fluffs = 5\<rparr>"
  with Specie_to_string_injective [of "\<lparr>coins = 10, fluffs = 50\<rparr>" "\<lparr>coins = 10, fluffs = 5\<rparr>"]
  show False by simp
qed

end
