(* ===== verification/FC_Transactions.thy ===== *)
theory FC_Transactions
  imports FC_Asn1
begin

text \<open>
  The transaction classes of the block format: \<^verbatim>\<open>block/Exchange\<close>, \<^verbatim>\<open>block/Transfer\<close>,
  \<^verbatim>\<open>block/Validation\<close>, \<^verbatim>\<open>block/Register\<close>, \<^verbatim>\<open>block/Unregister\<close>, \<^verbatim>\<open>block/CredentialChange\<close>,
  \<^verbatim>\<open>block/MineAction\<close> and \<^verbatim>\<open>block/Transaction\<close>, each with its class, its ASN.1 structure and the
  conversions between them.  A choice of the ASN.1 structure is a datatype; the C++ classes keep
  a tag and one owning pointer per alternative, and dereferencing a null pointer is \<open>None\<close>.
\<close>

section \<open>Model\<close>

subsection \<open>Exchange\<close>

record Exchange =
  receiver :: Address
  amount :: Specie

record Exchange_st =
  receiver_a :: octets
  amount_a :: Specie_st

definition Exchange_new :: Exchange where
  "Exchange_new = \<lparr>receiver = [], amount = Specie_new\<rparr>"

definition Exchange_st_new :: Exchange_st where
  "Exchange_st_new = \<lparr>receiver_a = [], amount_a = Specie_st_new\<rparr>"

definition Exchange_setReceiver :: "Address \<Rightarrow> Exchange \<Rightarrow> Exchange" where
  "Exchange_setReceiver v x = x\<lparr>receiver := v\<rparr>"

definition Exchange_setAmount :: "Specie \<Rightarrow> Exchange \<Rightarrow> Exchange" where
  "Exchange_setAmount v x = x\<lparr>amount := v\<rparr>"

definition Exchange_toAsn1 :: "Exchange \<Rightarrow> Exchange_st \<Rightarrow> Exchange_st" where
  "Exchange_toAsn1 x t =
     t\<lparr>receiver_a := Address_toAsn1 (receiver x) (receiver_a t),
       amount_a := Specie_toAsn1 (amount x) (amount_a t)\<rparr>"

definition Exchange_fromAsn1 :: "(asn1_int \<Rightarrow> int) \<Rightarrow> Exchange_st \<Rightarrow> Exchange" where
  "Exchange_fromAsn1 og t =
     \<lparr>receiver = Address_fromAsn1 (receiver_a t), amount = Specie_fromAsn1 og (amount_a t)\<rparr>"

subsection \<open>Transfer\<close>

record Transfer =
  exchanges :: "Exchange list"
  coin :: string

record Transfer_st =
  exchanges_a :: "Exchange_st list"
  coin_a :: octets

definition Transfer_st_new :: Transfer_st where
  "Transfer_st_new = \<lparr>exchanges_a = [], coin_a = []\<rparr>"

definition Transfer_setExchanges :: "Exchange list \<Rightarrow> Transfer \<Rightarrow> Transfer" where
  "Transfer_setExchanges v x = x\<lparr>exchanges := v\<rparr>"

definition Transfer_setCoin :: "string \<Rightarrow> Transfer \<Rightarrow> Transfer" where
  "Transfer_setCoin v x = x\<lparr>coin := v\<rparr>"

definition Transfer_toAsn1 :: "Transfer \<Rightarrow> Transfer_st \<Rightarrow> Transfer_st" where
  "Transfer_toAsn1 x t =
     t\<lparr>exchanges_a := to_stack Exchange_toAsn1 Exchange_st_new (exchanges_a t) (exchanges x),
       coin_a := asn1_fromString (coin_a t) (coin x)\<rparr>"

definition Transfer_fromAsn1 :: "(asn1_int \<Rightarrow> int) \<Rightarrow> Transfer_st \<Rightarrow> Transfer" where
  "Transfer_fromAsn1 og t =
     \<lparr>exchanges = from_stack (Exchange_fromAsn1 og) (\<lambda>x. x) (exchanges_a t), coin = asn1_toString (coin_a t)\<rparr>"

subsection \<open>Validation\<close>

record Validation =
  verified :: bool
  vAddress :: Address
  vSignature :: Signature

text \<open>\<^verbatim>\<open>ASN1_BOOLEAN\<close> is an \<^verbatim>\<open>int\<close>.\<close>

record Validation_st =
  verified_a :: int
  vAddress_a :: octets
  vSignature_a :: octets

definition Validation_new :: Validation where
  "Validation_new = \<lparr>verified = False, vAddress = [], vSignature = []\<rparr>"

definition Validation_st_new :: Validation_st where
  "Validation_st_new = \<lparr>verified_a = - 1, vAddress_a = [], vSignature_a = []\<rparr>"

definition Validation_setVerified :: "bool \<Rightarrow> Validation \<Rightarrow> Validation" where
  "Validation_setVerified v x = x\<lparr>verified := v\<rparr>"

definition Validation_setAddress :: "Address \<Rightarrow> Validation \<Rightarrow> Validation" where
  "Validation_setAddress v x = x\<lparr>vAddress := v\<rparr>"

definition Validation_setSignature :: "Signature \<Rightarrow> Validation \<Rightarrow> Validation" where
  "Validation_setSignature v x = x\<lparr>vSignature := v\<rparr>"

definition Validation_toAsn1 :: "Validation \<Rightarrow> Validation_st \<Rightarrow> Validation_st" where
  "Validation_toAsn1 x t =
     t\<lparr>verified_a := (if verified x then 1 else 0),
       vAddress_a := Address_toAsn1 (vAddress x) (vAddress_a t),
       vSignature_a := Signature_toAsn1 (vSignature x) (vSignature_a t)\<rparr>"

definition Validation_fromAsn1 :: "Validation_st \<Rightarrow> Validation" where
  "Validation_fromAsn1 t =
     \<lparr>verified = (verified_a t \<noteq> 0), vAddress = Address_fromAsn1 (vAddress_a t),
       vSignature = Signature_fromAsn1 (vSignature_a t)\<rparr>"

subsection \<open>Register\<close>

record Register =
  rStakeAmount :: Specie
  rStakeAddress :: Address
  rStakeKey :: PublicKey
  rNewAddress :: Address
  rAuthAddress :: Address
  rAuthKey :: PublicKey
  rStakeSignature :: Signature
  rAuthSignature :: Signature

record RegisterContent_st =
  rStakeAmount_a :: Specie_st
  rStakeAddress_a :: octets
  rStakeKey_a :: octets
  rNewAddress_a :: octets
  rAuthAddress_a :: octets
  rAuthKey_a :: octets

record Register_st =
  rContent_a :: RegisterContent_st
  rStakeSignature_a :: octets
  rAuthSignature_a :: octets

definition Register_st_new :: Register_st where
  "Register_st_new =
     \<lparr>rContent_a = \<lparr>rStakeAmount_a = Specie_st_new, rStakeAddress_a = [], rStakeKey_a = [],
        rNewAddress_a = [], rAuthAddress_a = [], rAuthKey_a = []\<rparr>,
      rStakeSignature_a = [], rAuthSignature_a = []\<rparr>"

definition Register_setStakeAmount :: "Specie \<Rightarrow> Register \<Rightarrow> Register" where
  "Register_setStakeAmount v x = x\<lparr>rStakeAmount := v\<rparr>"

definition Register_setStakeAddress :: "Address \<Rightarrow> Register \<Rightarrow> Register" where
  "Register_setStakeAddress v x = x\<lparr>rStakeAddress := v\<rparr>"

definition Register_setStakeKey :: "PublicKey \<Rightarrow> Register \<Rightarrow> Register" where
  "Register_setStakeKey v x = x\<lparr>rStakeKey := v\<rparr>"

definition Register_setNewAddress :: "Address \<Rightarrow> Register \<Rightarrow> Register" where
  "Register_setNewAddress v x = x\<lparr>rNewAddress := v\<rparr>"

definition Register_setAuthAddress :: "Address \<Rightarrow> Register \<Rightarrow> Register" where
  "Register_setAuthAddress v x = x\<lparr>rAuthAddress := v\<rparr>"

definition Register_setAuthKey :: "PublicKey \<Rightarrow> Register \<Rightarrow> Register" where
  "Register_setAuthKey v x = x\<lparr>rAuthKey := v\<rparr>"

definition Register_setStakeSignature :: "Signature \<Rightarrow> Register \<Rightarrow> Register" where
  "Register_setStakeSignature v x = x\<lparr>rStakeSignature := v\<rparr>"

definition Register_setAuthSignature :: "Signature \<Rightarrow> Register \<Rightarrow> Register" where
  "Register_setAuthSignature v x = x\<lparr>rAuthSignature := v\<rparr>"

definition Register_toAsn1 :: "Register \<Rightarrow> Register_st \<Rightarrow> Register_st" where
  "Register_toAsn1 x t =
     (let c = rContent_a t in
      t\<lparr>rContent_a := c\<lparr>
            rStakeAmount_a := Specie_toAsn1 (rStakeAmount x) (rStakeAmount_a c),
            rStakeAddress_a := Address_toAsn1 (rStakeAddress x) (rStakeAddress_a c),
            rStakeKey_a := PublicKey_toAsn1 (rStakeKey x) (rStakeKey_a c),
            rNewAddress_a := Address_toAsn1 (rNewAddress x) (rNewAddress_a c),
            rAuthAddress_a := Address_toAsn1 (rAuthAddress x) (rAuthAddress_a c),
            rAuthKey_a := PublicKey_toAsn1 (rAuthKey x) (rAuthKey_a c)\<rparr>,
        rStakeSignature_a := Signature_toAsn1 (rStakeSignature x) (rStakeSignature_a t),
        rAuthSignature_a := Signature_toAsn1 (rAuthSignature x) (rAuthSignature_a t)\<rparr>)"

definition Register_fromAsn1 :: "(asn1_int \<Rightarrow> int) \<Rightarrow> Register_st \<Rightarrow> Register" where
  "Register_fromAsn1 og t =
     (let c = rContent_a t in
      \<lparr>rStakeAmount = Specie_fromAsn1 og (rStakeAmount_a c),
       rStakeAddress = Address_fromAsn1 (rStakeAddress_a c),
       rStakeKey = PublicKey_fromAsn1 (rStakeKey_a c),
       rNewAddress = Address_fromAsn1 (rNewAddress_a c),
       rAuthAddress = Address_fromAsn1 (rAuthAddress_a c),
       rAuthKey = PublicKey_fromAsn1 (rAuthKey_a c),
       rStakeSignature = Signature_fromAsn1 (rStakeSignature_a t),
       rAuthSignature = Signature_fromAsn1 (rAuthSignature_a t)\<rparr>)"

definition Register_toContent :: "(RegisterContent_st \<Rightarrow> bytes option) \<Rightarrow> Register \<Rightarrow> bytes" where
  "Register_toContent i2d_RegisterContent x =
     ossl_encode i2d_RegisterContent (rContent_a (Register_toAsn1 x Register_st_new))"

subsection \<open>Unregister\<close>

record Unregister =
  uAuthAddress :: Address
  uAuthSignature :: Signature

record Unregister_st =
  uAuthAddress_a :: octets
  uAuthSignature_a :: octets

definition Unregister_st_new :: Unregister_st where
  "Unregister_st_new = \<lparr>uAuthAddress_a = [], uAuthSignature_a = []\<rparr>"

definition Unregister_setAuthAddress :: "Address \<Rightarrow> Unregister \<Rightarrow> Unregister" where
  "Unregister_setAuthAddress v x = x\<lparr>uAuthAddress := v\<rparr>"

definition Unregister_setAuthSignature :: "Signature \<Rightarrow> Unregister \<Rightarrow> Unregister" where
  "Unregister_setAuthSignature v x = x\<lparr>uAuthSignature := v\<rparr>"

definition Unregister_toAsn1 :: "Unregister \<Rightarrow> Unregister_st \<Rightarrow> Unregister_st" where
  "Unregister_toAsn1 x t =
     t\<lparr>uAuthAddress_a := Address_toAsn1 (uAuthAddress x) (uAuthAddress_a t),
       uAuthSignature_a := Signature_toAsn1 (uAuthSignature x) (uAuthSignature_a t)\<rparr>"

definition Unregister_fromAsn1 :: "Unregister_st \<Rightarrow> Unregister" where
  "Unregister_fromAsn1 t =
     \<lparr>uAuthAddress = Address_fromAsn1 (uAuthAddress_a t),
      uAuthSignature = Signature_fromAsn1 (uAuthSignature_a t)\<rparr>"

definition Unregister_toContent :: "Unregister \<Rightarrow> bytes" where
  "Unregister_toContent x = uAuthAddress x"

subsection \<open>CredentialChange\<close>

record CredentialChange =
  cAuthAddress :: Address
  cNewAuthAddress :: Address
  cNewAuthKey :: PublicKey
  cStakeAddress :: Address
  cStakeKey :: PublicKey
  cNewStakeAddress :: Address
  cAuthSignature :: Signature
  cNewAuthSignature :: Signature
  cStakeSignature :: Signature

record CredentialChangeContent_st =
  cAuthAddress_a :: octets
  cNewAuthAddress_a :: octets
  cNewAuthKey_a :: octets
  cStakeAddress_a :: octets
  cStakeKey_a :: octets
  cNewStakeAddress_a :: octets

record CredentialChange_st =
  cContent_a :: CredentialChangeContent_st
  cAuthSignature_a :: octets
  cNewAuthSignature_a :: octets
  cStakeSignature_a :: octets

definition CredentialChange_st_new :: CredentialChange_st where
  "CredentialChange_st_new =
     \<lparr>cContent_a = \<lparr>cAuthAddress_a = [], cNewAuthAddress_a = [], cNewAuthKey_a = [],
        cStakeAddress_a = [], cStakeKey_a = [], cNewStakeAddress_a = []\<rparr>,
      cAuthSignature_a = [], cNewAuthSignature_a = [], cStakeSignature_a = []\<rparr>"

definition CredentialChange_setAuthAddress :: "Address \<Rightarrow> CredentialChange \<Rightarrow> CredentialChange" where
  "CredentialChange_setAuthAddress v x = x\<lparr>cAuthAddress := v\<rparr>"

definition CredentialChange_setNewAuthAddress :: "Address \<Rightarrow> CredentialChange \<Rightarrow> CredentialChange" where
  "CredentialChange_setNewAuthAddress v x = x\<lparr>cNewAuthAddress := v\<rparr>"

definition CredentialChange_setNewAuthKey :: "PublicKey \<Rightarrow> CredentialChange \<Rightarrow> CredentialChange" where
  "CredentialChange_setNewAuthKey v x = x\<lparr>cNewAuthKey := v\<rparr>"

definition CredentialChange_setStakeAddress :: "Address \<Rightarrow> CredentialChange \<Rightarrow> CredentialChange" where
  "CredentialChange_setStakeAddress v x = x\<lparr>cStakeAddress := v\<rparr>"

definition CredentialChange_setStakeKey :: "PublicKey \<Rightarrow> CredentialChange \<Rightarrow> CredentialChange" where
  "CredentialChange_setStakeKey v x = x\<lparr>cStakeKey := v\<rparr>"

definition CredentialChange_setNewStakeAddress :: "Address \<Rightarrow> CredentialChange \<Rightarrow> CredentialChange" where
  "CredentialChange_setNewStakeAddress v x = x\<lparr>cNewStakeAddress := v\<rparr>"

definition CredentialChange_setAuthSignature :: "Signature \<Rightarrow> CredentialChange \<Rightarrow> CredentialChange" where
  "CredentialChange_setAuthSignature v x = x\<lparr>cAuthSignature := v\<rparr>"

definition CredentialChange_setNewAuthSignature :: "Signature \<Rightarrow> CredentialChange \<Rightarrow> CredentialChange" where
  "CredentialChange_setNewAuthSignature v x = x\<lparr>cNewAuthSignature := v\<rparr>"

definition CredentialChange_setStakeSignature :: "Signature \<Rightarrow> CredentialChange \<Rightarrow> CredentialChange" where
  "CredentialChange_setStakeSignature v x = x\<lparr>cStakeSignature := v\<rparr>"

definition CredentialChange_toAsn1 :: "CredentialChange \<Rightarrow> CredentialChange_st \<Rightarrow> CredentialChange_st" where
  "CredentialChange_toAsn1 x t =
     (let c = cContent_a t in
      t\<lparr>cContent_a := c\<lparr>
            cAuthAddress_a := Address_toAsn1 (cAuthAddress x) (cAuthAddress_a c),
            cNewAuthAddress_a := Address_toAsn1 (cNewAuthAddress x) (cNewAuthAddress_a c),
            cStakeAddress_a := Address_toAsn1 (cStakeAddress x) (cStakeAddress_a c),
            cNewStakeAddress_a := Address_toAsn1 (cNewStakeAddress x) (cNewStakeAddress_a c),
            cNewAuthKey_a := PublicKey_toAsn1 (cNewAuthKey x) (cNewAuthKey_a c),
            cStakeKey_a := PublicKey_toAsn1 (cStakeKey x) (cStakeKey_a c)\<rparr>,
        cAuthSignature_a := Signature_toAsn1 (cAuthSignature x) (cAuthSignature_a t),
        cNewAuthSignature_a := Signature_toAsn1 (cNewAuthSignature x) (cNewAuthSignature_a t),
        cStakeSignature_a := Signature_toAsn1 (cStakeSignature x) (cStakeSignature_a t)\<rparr>)"

definition CredentialChange_fromAsn1 :: "CredentialChange_st \<Rightarrow> CredentialChange" where
  "CredentialChange_fromAsn1 t =
     (let c = cContent_a t in
      \<lparr>cAuthAddress = Address_fromAsn1 (cAuthAddress_a c),
       cNewAuthAddress = Address_fromAsn1 (cNewAuthAddress_a c),
       cNewAuthKey = PublicKey_fromAsn1 (cNewAuthKey_a c),
       cStakeAddress = Address_fromAsn1 (cStakeAddress_a c),
       cStakeKey = PublicKey_fromAsn1 (cStakeKey_a c),
       cNewStakeAddress = Address_fromAsn1 (cNewStakeAddress_a c),
       cAuthSignature = Signature_fromAsn1 (cAuthSignature_a t),
       cNewAuthSignature = Signature_fromAsn1 (cNewAuthSignature_a t),
       cStakeSignature = Signature_fromAsn1 (cStakeSignature_a t)\<rparr>)"

definition CredentialChange_toContent ::
  "(CredentialChangeContent_st \<Rightarrow> bytes option) \<Rightarrow> CredentialChange \<Rightarrow> bytes" where
  "CredentialChange_toContent i2d_CredentialChangeContent x =
     ossl_encode i2d_CredentialChangeContent (cContent_a (CredentialChange_toAsn1 x CredentialChange_st_new))"

subsection \<open>MineAction\<close>

datatype MineAction_Action = MineNone | MineRegister | MineUnregister | MineCredentialChange

record MineAction =
  mAction :: MineAction_Action
  tregister :: "Register option"
  unregister :: "Unregister option"
  credentialChange :: "CredentialChange option"

text \<open>The tagged union; \<open>Mine_other\<close> is a tag outside the four alternatives.\<close>

datatype MineAction_st =
    Mine_null
  | Mine_tregister Register_st
  | Mine_unregister Unregister_st
  | Mine_credentialChange CredentialChange_st
  | Mine_other int

definition MineAction_new :: MineAction where
  "MineAction_new = \<lparr>mAction = MineNone, tregister = None, unregister = None, credentialChange = None\<rparr>"

definition MineAction_resetChoice :: "MineAction \<Rightarrow> MineAction" where
  "MineAction_resetChoice x =
     x\<lparr>mAction := MineNone, tregister := None, unregister := None, credentialChange := None\<rparr>"

text \<open>Move assignment between distinct objects: the new target and what is left of the source.\<close>

definition MineAction_assign_move :: "MineAction \<Rightarrow> MineAction \<Rightarrow> MineAction \<times> MineAction" where
  "MineAction_assign_move this rhs =
     (let t1 = MineAction_resetChoice this
      in (t1\<lparr>mAction := mAction rhs, tregister := tregister rhs, unregister := unregister rhs,
            credentialChange := credentialChange rhs\<rparr>,
          MineAction_resetChoice rhs))"

definition MineAction_setRegister :: "Register \<Rightarrow> MineAction \<Rightarrow> MineAction" where
  "MineAction_setRegister r x =
     (MineAction_resetChoice x)\<lparr>mAction := MineRegister, tregister := Some r\<rparr>"

definition MineAction_setUnregister :: "Unregister \<Rightarrow> MineAction \<Rightarrow> MineAction" where
  "MineAction_setUnregister u x =
     (MineAction_resetChoice x)\<lparr>mAction := MineUnregister, unregister := Some u\<rparr>"

definition MineAction_setCredentialChange :: "CredentialChange \<Rightarrow> MineAction \<Rightarrow> MineAction" where
  "MineAction_setCredentialChange c x =
     (MineAction_resetChoice x)\<lparr>mAction := MineCredentialChange, credentialChange := Some c\<rparr>"

definition MineAction_toAsn1 :: "MineAction \<Rightarrow> MineAction_st option" where
  "MineAction_toAsn1 x =
     (case mAction x of
        MineNone \<Rightarrow> Some Mine_null
      | MineRegister \<Rightarrow>
          map_option (\<lambda>r. Mine_tregister (Register_toAsn1 r Register_st_new)) (tregister x)
      | MineUnregister \<Rightarrow>
          map_option (\<lambda>u. Mine_unregister (Unregister_toAsn1 u Unregister_st_new)) (unregister x)
      | MineCredentialChange \<Rightarrow>
          map_option (\<lambda>c. Mine_credentialChange (CredentialChange_toAsn1 c CredentialChange_st_new))
            (credentialChange x))"

definition MineAction_fromAsn1 :: "(asn1_int \<Rightarrow> int) \<Rightarrow> MineAction_st \<Rightarrow> MineAction \<Rightarrow> MineAction" where
  "MineAction_fromAsn1 og t x =
     (let x1 = MineAction_resetChoice x in
      case t of
        Mine_null \<Rightarrow> x1
      | Mine_tregister r \<Rightarrow> x1\<lparr>mAction := MineRegister, tregister := Some (Register_fromAsn1 og r)\<rparr>
      | Mine_unregister u \<Rightarrow> x1\<lparr>mAction := MineUnregister, unregister := Some (Unregister_fromAsn1 u)\<rparr>
      | Mine_credentialChange c \<Rightarrow>
          x1\<lparr>mAction := MineCredentialChange, credentialChange := Some (CredentialChange_fromAsn1 c)\<rparr>
      | Mine_other _ \<Rightarrow> x1)"

subsection \<open>Transaction\<close>

datatype Transaction_Action = TxNone | TxTransfer

record Transaction =
  txType :: Transaction_Action
  transfer :: "Transfer option"
  txTime :: Time
  signer :: Address
  signerKey :: PublicKey
  txNewAddress :: Address
  txSignature :: Signature

datatype TransactionChoice_st =
    Tx_null
  | Tx_transfer Transfer_st
  | Tx_other int

record TransactionContent_st =
  txTime_a :: asn1_int
  txAction_a :: TransactionChoice_st
  signer_a :: octets
  signerKey_a :: octets
  txNewAddress_a :: octets

record Transaction_st =
  txContent_a :: TransactionContent_st
  txSignature_a :: octets

definition Transaction_st_new :: Transaction_st where
  "Transaction_st_new =
     \<lparr>txContent_a = \<lparr>txTime_a = 0, txAction_a = Tx_other (- 1), signer_a = [], signerKey_a = [],
        txNewAddress_a = []\<rparr>, txSignature_a = []\<rparr>"

definition Transaction_new :: Transaction where
  "Transaction_new =
     \<lparr>txType = TxNone, transfer = None, txTime = Time_new, signer = [], signerKey = [],
      txNewAddress = [], txSignature = []\<rparr>"

definition Transaction_resetChoice :: "Transaction \<Rightarrow> Transaction" where
  "Transaction_resetChoice x = x\<lparr>txType := TxNone, transfer := None\<rparr>"

definition Transaction_assign_move :: "Transaction \<Rightarrow> Transaction \<Rightarrow> Transaction \<times> Transaction" where
  "Transaction_assign_move this rhs =
     (let t1 = Transaction_resetChoice this
      in (t1\<lparr>txType := txType rhs, transfer := transfer rhs\<rparr>, Transaction_resetChoice rhs))"

text \<open>The move constructor assigns into a default-constructed object.\<close>

definition Transaction_move :: "Transaction \<Rightarrow> Transaction" where
  "Transaction_move rhs = fst (Transaction_assign_move Transaction_new rhs)"

definition Transaction_setTransfer :: "Transfer \<Rightarrow> Transaction \<Rightarrow> Transaction" where
  "Transaction_setTransfer tr x =
     (Transaction_resetChoice x)\<lparr>txType := TxTransfer, transfer := Some tr\<rparr>"

definition Transaction_setTime :: "Time \<Rightarrow> Transaction \<Rightarrow> Transaction" where
  "Transaction_setTime v x = x\<lparr>txTime := v\<rparr>"

definition Transaction_setSigner :: "Address \<Rightarrow> Transaction \<Rightarrow> Transaction" where
  "Transaction_setSigner v x = x\<lparr>signer := v\<rparr>"

definition Transaction_setSignerKey :: "PublicKey \<Rightarrow> Transaction \<Rightarrow> Transaction" where
  "Transaction_setSignerKey v x = x\<lparr>signerKey := v\<rparr>"

definition Transaction_setNewAddress :: "Address \<Rightarrow> Transaction \<Rightarrow> Transaction" where
  "Transaction_setNewAddress v x = x\<lparr>txNewAddress := v\<rparr>"

definition Transaction_setSignature :: "Signature \<Rightarrow> Transaction \<Rightarrow> Transaction" where
  "Transaction_setSignature v x = x\<lparr>txSignature := v\<rparr>"

definition Transaction_choice_toAsn1 :: "Transaction \<Rightarrow> TransactionChoice_st option" where
  "Transaction_choice_toAsn1 x =
     (case txType x of
        TxNone \<Rightarrow> Some Tx_null
      | TxTransfer \<Rightarrow> map_option (\<lambda>tr. Tx_transfer (Transfer_toAsn1 tr Transfer_st_new)) (transfer x))"

definition Transaction_toAsn1 :: "Transaction \<Rightarrow> Transaction_st \<Rightarrow> Transaction_st option" where
  "Transaction_toAsn1 x t =
     do { choice \<leftarrow> Transaction_choice_toAsn1 x;
          let c = txContent_a t
          in Some (t\<lparr>txContent_a := c\<lparr>
                 txAction_a := choice,
                 txTime_a := Time_toAsn1 (txTime x) (txTime_a c),
                 signer_a := Address_toAsn1 (signer x) (signer_a c),
                 signerKey_a := PublicKey_toAsn1 (signerKey x) (signerKey_a c),
                 txNewAddress_a := Address_toAsn1 (txNewAddress x) (txNewAddress_a c)\<rparr>,
               txSignature_a := Signature_toAsn1 (txSignature x) (txSignature_a t)\<rparr>) }"

definition Transaction_fromAsn1 :: "(asn1_int \<Rightarrow> int) \<Rightarrow> Transaction_st \<Rightarrow> Transaction \<Rightarrow> Transaction" where
  "Transaction_fromAsn1 og t x =
     (let x1 = Transaction_resetChoice x;
          c = txContent_a t;
          x2 = (case txAction_a c of
                  Tx_null \<Rightarrow> x1
                | Tx_transfer tr \<Rightarrow> x1\<lparr>txType := TxTransfer, transfer := Some (Transfer_fromAsn1 og tr)\<rparr>
                | Tx_other _ \<Rightarrow> x1)
      in x2\<lparr>txTime := Time_fromAsn1 og (txTime_a c),
            signer := Address_fromAsn1 (signer_a c),
            signerKey := PublicKey_fromAsn1 (signerKey_a c),
            txNewAddress := Address_fromAsn1 (txNewAddress_a c),
            txSignature := Signature_fromAsn1 (txSignature_a t)\<rparr>)"

definition Transaction_toContent ::
  "(TransactionContent_st \<Rightarrow> bytes option) \<Rightarrow> Transaction \<Rightarrow> bytes option" where
  "Transaction_toContent i2d_TransactionContent x =
     map_option (\<lambda>t. ossl_encode i2d_TransactionContent (txContent_a t))
       (Transaction_toAsn1 x Transaction_st_new)"

section \<open>Round trips\<close>

text \<open>The objects whose 64-bit fields all fit a \<^verbatim>\<open>long\<close> and whose byte strings have a length that fits an \<^verbatim>\<open>int\<close>.\<close>

definition Exchange_ok :: "Exchange \<Rightarrow> bool" where
  "Exchange_ok x \<longleftrightarrow> Specie_ok (amount x) \<and> fits_int (receiver x)"

definition Transfer_ok :: "Transfer \<Rightarrow> bool" where
  "Transfer_ok x \<longleftrightarrow> list_all Exchange_ok (exchanges x) \<and> fits_int (coin x)"

definition Register_ok :: "Register \<Rightarrow> bool" where
  "Register_ok x \<longleftrightarrow> Specie_ok (rStakeAmount x) \<and>
     list_all fits_int [rStakeAddress x, rStakeKey x, rNewAddress x, rAuthAddress x, rAuthKey x, rStakeSignature x, rAuthSignature x]"

definition Validation_ok :: "Validation \<Rightarrow> bool" where
  "Validation_ok x \<longleftrightarrow> fits_int (vAddress x) \<and> fits_int (vSignature x)"

definition Unregister_ok :: "Unregister \<Rightarrow> bool" where
  "Unregister_ok x \<longleftrightarrow> fits_int (uAuthAddress x) \<and> fits_int (uAuthSignature x)"

definition CredentialChange_ok :: "CredentialChange \<Rightarrow> bool" where
  "CredentialChange_ok x \<longleftrightarrow>
     list_all fits_int [cAuthAddress x, cNewAuthAddress x, cStakeAddress x, cNewStakeAddress x, cNewAuthKey x, cStakeKey x,
       cAuthSignature x, cNewAuthSignature x, cStakeSignature x]"

lemma Exchange_roundtrip [roundtrip]:
  "long_get og \<Longrightarrow> Exchange_ok x \<Longrightarrow> Exchange_fromAsn1 og (Exchange_toAsn1 x t) = x"
  by (cases x) (simp add: Exchange_fromAsn1_def Exchange_toAsn1_def Exchange_ok_def Specie_roundtrip)

interpretation exchange_asn1: asn1_class Exchange_toAsn1 "Exchange_fromAsn1 og"
  "\<lambda>x. long_get og \<and> Exchange_ok x" for og
  by unfold_locales (simp add: Exchange_roundtrip)

lemma Transfer_roundtrip [roundtrip]:
  assumes "long_get og" and "Transfer_ok x"
  shows "Transfer_fromAsn1 og (Transfer_toAsn1 x t) = x"
proof -
  have "list_all (\<lambda>x. long_get og \<and> Exchange_ok x) (exchanges x)"
    using assms by (simp add: Transfer_ok_def list_all_iff)
  then show ?thesis
    using assms(2) by (cases x) (simp add: Transfer_fromAsn1_def Transfer_toAsn1_def Transfer_ok_def exchange_asn1.stack_roundtrip)
qed

interpretation transfer_asn1: asn1_class Transfer_toAsn1 "Transfer_fromAsn1 og"
  "\<lambda>x. long_get og \<and> Transfer_ok x" for og
  by unfold_locales (simp add: Transfer_roundtrip)

lemma Validation_roundtrip [roundtrip]: "Validation_ok x \<Longrightarrow> Validation_fromAsn1 (Validation_toAsn1 x t) = x"
  by (cases x) (simp add: Validation_fromAsn1_def Validation_toAsn1_def Validation_ok_def)

interpretation validation_asn1: asn1_class Validation_toAsn1 Validation_fromAsn1 Validation_ok
  by unfold_locales (rule Validation_roundtrip)

lemma Register_roundtrip [roundtrip]:
  "long_get og \<Longrightarrow> Register_ok x \<Longrightarrow> Register_fromAsn1 og (Register_toAsn1 x t) = x"
  by (cases x) (simp add: Register_fromAsn1_def Register_toAsn1_def Register_ok_def Specie_roundtrip Let_def)

interpretation register_asn1: asn1_class Register_toAsn1 "Register_fromAsn1 og"
  "\<lambda>x. long_get og \<and> Register_ok x" for og
  by unfold_locales (simp add: Register_roundtrip)

lemma Unregister_roundtrip [roundtrip]: "Unregister_ok x \<Longrightarrow> Unregister_fromAsn1 (Unregister_toAsn1 x t) = x"
  by (cases x) (simp add: Unregister_fromAsn1_def Unregister_toAsn1_def Unregister_ok_def)

interpretation unregister_asn1: asn1_class Unregister_toAsn1 Unregister_fromAsn1 Unregister_ok
  by unfold_locales (rule Unregister_roundtrip)

lemma CredentialChange_roundtrip [roundtrip]:
  "CredentialChange_ok x \<Longrightarrow> CredentialChange_fromAsn1 (CredentialChange_toAsn1 x t) = x"
  by (cases x) (simp add: CredentialChange_fromAsn1_def CredentialChange_toAsn1_def CredentialChange_ok_def Let_def)

interpretation credential_asn1: asn1_class CredentialChange_toAsn1 CredentialChange_fromAsn1 CredentialChange_ok
  by unfold_locales (rule CredentialChange_roundtrip)

section \<open>The choice invariant\<close>

text \<open>The tag names the one pointer that is set.\<close>

definition MineAction_inv :: "MineAction \<Rightarrow> bool" where
  "MineAction_inv x \<longleftrightarrow>
     (tregister x \<noteq> None \<longleftrightarrow> mAction x = MineRegister) \<and>
     (unregister x \<noteq> None \<longleftrightarrow> mAction x = MineUnregister) \<and>
     (credentialChange x \<noteq> None \<longleftrightarrow> mAction x = MineCredentialChange)"

inductive MineAction_reach :: "MineAction \<Rightarrow> bool" where
  new: "MineAction_reach MineAction_new"
| setRegister: "MineAction_reach x \<Longrightarrow> MineAction_reach (MineAction_setRegister r x)"
| setUnregister: "MineAction_reach x \<Longrightarrow> MineAction_reach (MineAction_setUnregister u x)"
| setCredentialChange: "MineAction_reach x \<Longrightarrow> MineAction_reach (MineAction_setCredentialChange c x)"
| move_target: "MineAction_reach x \<Longrightarrow> MineAction_reach y \<Longrightarrow> MineAction_reach (fst (MineAction_assign_move x y))"
| move_source: "MineAction_reach x \<Longrightarrow> MineAction_reach y \<Longrightarrow> MineAction_reach (snd (MineAction_assign_move x y))"
| fromAsn1: "MineAction_reach x \<Longrightarrow> MineAction_reach (MineAction_fromAsn1 og t x)"

lemmas MineAction_ops = MineAction_new_def MineAction_setRegister_def MineAction_setUnregister_def
  MineAction_setCredentialChange_def MineAction_assign_move_def MineAction_fromAsn1_def
  MineAction_resetChoice_def

lemma MineAction_reach_inv: "MineAction_reach x \<Longrightarrow> MineAction_inv x"
  by (induction rule: MineAction_reach.induct)
    (auto simp: MineAction_inv_def MineAction_ops Let_def split: MineAction_st.splits)

lemma MineAction_cases:
  assumes "MineAction_inv x"
  obtains "x = MineAction_new"
  | r where "x = MineAction_setRegister r MineAction_new"
  | u where "x = MineAction_setUnregister u MineAction_new"
  | c where "x = MineAction_setCredentialChange c MineAction_new"
  using assms by (cases x; cases "mAction x") (auto simp: MineAction_inv_def MineAction_ops)

definition MineAction_ok :: "MineAction \<Rightarrow> bool" where
  "MineAction_ok x \<longleftrightarrow> (\<forall>r. tregister x = Some r \<longrightarrow> Register_ok r) \<and> (\<forall>u. unregister x = Some u \<longrightarrow> Unregister_ok u) \<and>
     (\<forall>c. credentialChange x = Some c \<longrightarrow> CredentialChange_ok c)"

text \<open>A validator action built by any sequence of its operations never dereferences a
  null alternative when it is converted, and reading the result back into any object gives the
  same action, if the coins of a registered stake are below \<open>2^63\<close> and every byte string is shorter than \<open>2^31\<close>.\<close>

theorem MineAction_reachable_roundtrip:
  assumes "MineAction_reach x" and "long_get og" and "MineAction_ok x"
  shows "\<exists>t. MineAction_toAsn1 x = Some t \<and> MineAction_fromAsn1 og t y = x"
  using assms
  by (cases rule: MineAction_cases [OF MineAction_reach_inv [OF assms(1)]])
    (simp_all add: MineAction_toAsn1_def MineAction_ops MineAction_ok_def Register_roundtrip
      Unregister_roundtrip CredentialChange_roundtrip)

theorem MineAction_reachable_roundtrip_witness:
  "\<exists>t. MineAction_toAsn1 (MineAction_setUnregister \<lparr>uAuthAddress = [1], uAuthSignature = [2]\<rparr> MineAction_new) = Some t \<and>
       MineAction_fromAsn1 ASN1_INTEGER_get t MineAction_new =
         MineAction_setUnregister \<lparr>uAuthAddress = [1], uAuthSignature = [2]\<rparr> MineAction_new"
proof (rule MineAction_reachable_roundtrip)
  show "MineAction_reach (MineAction_setUnregister \<lparr>uAuthAddress = [1], uAuthSignature = [2]\<rparr> MineAction_new)"
    by (intro MineAction_reach.intros)
qed (simp_all add: long_get_ASN1_INTEGER_get MineAction_ok_def MineAction_ops Unregister_ok_def)

section \<open>Transactions\<close>

definition Transaction_inv :: "Transaction \<Rightarrow> bool" where
  "Transaction_inv x \<longleftrightarrow> (transfer x \<noteq> None \<longleftrightarrow> txType x = TxTransfer)"

definition Transaction_ok :: "Transaction \<Rightarrow> bool" where
  "Transaction_ok x \<longleftrightarrow> Time_ok (txTime x) \<and> (\<forall>tr. transfer x = Some tr \<longrightarrow> Transfer_ok tr) \<and>
     list_all fits_int [signer x, signerKey x, txNewAddress x, txSignature x]"

lemma Transaction_choice_Some:
  "Transaction_inv x \<Longrightarrow> \<exists>c. Transaction_choice_toAsn1 x = Some c"
  by (auto simp: Transaction_choice_toAsn1_def Transaction_inv_def split: Transaction_Action.splits)

lemma Transaction_toAsn1_Some:
  "Transaction_inv x \<Longrightarrow> \<exists>t'. Transaction_toAsn1 x t = Some t'"
  using Transaction_choice_Some [of x] by (auto simp: Transaction_toAsn1_def Let_def)

lemma Transaction_from_to:
  assumes "Transaction_toAsn1 x t = Some t'" and "Transaction_inv x" and "Transaction_ok x" and "long_get og"
  shows "Transaction_fromAsn1 og t' y = x"
  using assms
  by (cases x; cases y)
    (auto simp: Transaction_toAsn1_def Transaction_fromAsn1_def Transaction_resetChoice_def
      Transaction_choice_toAsn1_def Transaction_inv_def Transaction_ok_def Let_def Time_roundtrip
      Transfer_roundtrip split: bind_splits Transaction_Action.splits)

lemma Transaction_move_eq:
  "Transaction_move x = Transaction_new\<lparr>txType := txType x, transfer := transfer x\<rparr>"
  by (simp add: Transaction_move_def Transaction_assign_move_def Transaction_resetChoice_def
      Transaction_new_def)

text \<open>Moving a transaction keeps its action and drops everything else: time, signer,
  signer key, new address and signature of the moved-to object are those of a default
  transaction.\<close>

theorem Transaction_move_drops_fields:
  "Transaction_move x = Transaction_new\<lparr>txType := txType x, transfer := transfer x\<rparr> \<and>
   (Transaction_move x = x \<longleftrightarrow>
      txTime x = Time_new \<and> signer x = [] \<and> signerKey x = [] \<and> txNewAddress x = [] \<and> txSignature x = [])"
  by (cases x) (auto simp: Transaction_move_eq Transaction_new_def)

end
