(* ===== verification/FC_Block.thy ===== *)
theory FC_Block
  imports FC_Transactions "HOL-Library.Multiset"
begin

text \<open>
  The block classes \<^verbatim>\<open>block/Genesis\<close>, \<^verbatim>\<open>block/Reconciliation\<close>, \<^verbatim>\<open>block/Node\<close>, \<^verbatim>\<open>block/Block\<close> and the
  decoders of \<^verbatim>\<open>block/decode\<close>.  The DER functions generated by OpenSSL's templates
  (\<^verbatim>\<open>i2d_Block\<close>, \<^verbatim>\<open>d2i_Block\<close> and their kin) are arguments.
\<close>

section \<open>Model\<close>

subsection \<open>Genesis\<close>

record Genesis =
  gProtocol :: u32
  gName :: string
  gVersion :: u32
  gCreation :: Time
  gCreator :: Address
  gValidatorKey :: PublicKey
  gStakeAddress :: Address
  gGreed :: Specie
  gSeed :: bytes

record Genesis_st =
  gProtocol_a :: asn1_int
  gName_a :: octets
  gVersion_a :: asn1_int
  gCreation_a :: asn1_int
  gCreator_a :: octets
  gValidatorKey_a :: octets
  gStakeAddress_a :: octets
  gGreed_a :: Specie_st
  gSeed_a :: octets

definition Genesis_new :: Genesis where
  "Genesis_new =
     \<lparr>gProtocol = 0, gName = [], gVersion = 0, gCreation = Time_new, gCreator = [], gValidatorKey = [],
      gStakeAddress = [], gGreed = Specie_new, gSeed = []\<rparr>"

definition Genesis_st_new :: Genesis_st where
  "Genesis_st_new =
     \<lparr>gProtocol_a = 0, gName_a = [], gVersion_a = 0, gCreation_a = 0, gCreator_a = [], gValidatorKey_a = [],
      gStakeAddress_a = [], gGreed_a = Specie_st_new, gSeed_a = []\<rparr>"

definition Genesis_setProtocol :: "u32 \<Rightarrow> Genesis \<Rightarrow> Genesis" where
  "Genesis_setProtocol v x = x\<lparr>gProtocol := v\<rparr>"

definition Genesis_setName :: "string \<Rightarrow> Genesis \<Rightarrow> Genesis" where
  "Genesis_setName v x = x\<lparr>gName := v\<rparr>"

definition Genesis_setVersion :: "u32 \<Rightarrow> Genesis \<Rightarrow> Genesis" where
  "Genesis_setVersion v x = x\<lparr>gVersion := v\<rparr>"

definition Genesis_setCreation :: "Time \<Rightarrow> Genesis \<Rightarrow> Genesis" where
  "Genesis_setCreation v x = x\<lparr>gCreation := v\<rparr>"

definition Genesis_setCreator :: "Address \<Rightarrow> Genesis \<Rightarrow> Genesis" where
  "Genesis_setCreator v x = x\<lparr>gCreator := v\<rparr>"

definition Genesis_setValidatorKey :: "PublicKey \<Rightarrow> Genesis \<Rightarrow> Genesis" where
  "Genesis_setValidatorKey v x = x\<lparr>gValidatorKey := v\<rparr>"

definition Genesis_setStakeAddress :: "Address \<Rightarrow> Genesis \<Rightarrow> Genesis" where
  "Genesis_setStakeAddress v x = x\<lparr>gStakeAddress := v\<rparr>"

definition Genesis_setGreed :: "Specie \<Rightarrow> Genesis \<Rightarrow> Genesis" where
  "Genesis_setGreed v x = x\<lparr>gGreed := v\<rparr>"

definition Genesis_setSeed :: "bytes \<Rightarrow> Genesis \<Rightarrow> Genesis" where
  "Genesis_setSeed v x = x\<lparr>gSeed := v\<rparr>"

text \<open>The 32-bit fields are widened to 64 bits on the way out, and the name goes through the
  string constructor of the buffer class.\<close>

definition Genesis_toAsn1 :: "Genesis \<Rightarrow> Genesis_st \<Rightarrow> Genesis_st" where
  "Genesis_toAsn1 x t =
     t\<lparr>gProtocol_a := fromUInt64 (gProtocol_a t) (ucast (gProtocol x)),
       gName_a := fromBin (gName_a t) (string_bytes (gName x)),
       gVersion_a := fromUInt64 (gVersion_a t) (ucast (gVersion x)),
       gCreation_a := Time_toAsn1 (gCreation x) (gCreation_a t),
       gCreator_a := Address_toAsn1 (gCreator x) (gCreator_a t),
       gValidatorKey_a := PublicKey_toAsn1 (gValidatorKey x) (gValidatorKey_a t),
       gStakeAddress_a := Address_toAsn1 (gStakeAddress x) (gStakeAddress_a t),
       gGreed_a := Specie_toAsn1 (gGreed x) (gGreed_a t),
       gSeed_a := fromBin (gSeed_a t) (gSeed x)\<rparr>"

definition Genesis_fromAsn1 :: "(asn1_int \<Rightarrow> int) \<Rightarrow> Genesis_st \<Rightarrow> Genesis" where
  "Genesis_fromAsn1 og t =
     \<lparr>gProtocol = toUInt32 og (gProtocol_a t),
      gName = asn1_toString (gName_a t),
      gVersion = toUInt32 og (gVersion_a t),
      gCreation = Time_fromAsn1 og (gCreation_a t),
      gCreator = Address_fromAsn1 (gCreator_a t),
      gValidatorKey = PublicKey_fromAsn1 (gValidatorKey_a t),
      gStakeAddress = Address_fromAsn1 (gStakeAddress_a t),
      gGreed = Specie_fromAsn1 og (gGreed_a t),
      gSeed = toBin (gSeed_a t)\<rparr>"

definition Genesis_encode :: "(Genesis_st \<Rightarrow> bytes option) \<Rightarrow> Genesis \<Rightarrow> bytes" where
  "Genesis_encode i2d_Genesis x = ossl_encode i2d_Genesis (Genesis_toAsn1 x Genesis_st_new)"

subsection \<open>Reconciliation\<close>

record ShardInfo =
  sHash :: Hash
  sBlocks :: u32

record ShardInfo_st =
  sHash_a :: Hash_st
  sBlocks_a :: asn1_int

definition ShardInfo_st_new :: ShardInfo_st where
  "ShardInfo_st_new = \<lparr>sHash_a = Hash_st_new, sBlocks_a = 0\<rparr>"

definition ShardInfo_make :: "Hash \<Rightarrow> u32 \<Rightarrow> ShardInfo" where
  "ShardInfo_make h b = \<lparr>sHash = h, sBlocks = b\<rparr>"

definition ShardInfo_toAsn1 :: "ShardInfo \<Rightarrow> ShardInfo_st \<Rightarrow> ShardInfo_st" where
  "ShardInfo_toAsn1 x t =
     t\<lparr>sHash_a := Hash_toAsn1 (sHash x) (sHash_a t), sBlocks_a := fromUInt32 (sBlocks_a t) (sBlocks x)\<rparr>"

definition ShardInfo_fromAsn1 :: "(asn1_int \<Rightarrow> int) \<Rightarrow> ShardInfo_st \<Rightarrow> ShardInfo" where
  "ShardInfo_fromAsn1 og t =
     \<lparr>sHash = Hash_fromAsn1 (sHash_a t), sBlocks = toUInt32 og (sBlocks_a t)\<rparr>"

record Reconciliation =
  cProtocol :: u32
  chainId :: u32
  shardInfo :: "ShardInfo list"
  rLeader :: Address
  rSignature :: Signature
  rVotes :: "Validation list"

record ReconciliationContent_st =
  cProtocol_a :: asn1_int
  cTime_a :: asn1_int
  chainId_a :: asn1_int
  shardInfo_a :: "ShardInfo_st list"
  rLeader_a :: octets

text \<open>The votes are a stack in memory, in the order in which they were pushed.  Their template is a \<^verbatim>\<open>SET OF\<close>,
  so the DER writer sorts them by their encoding and the reader returns the sorted stack: see \<open>der_form\<close> below.\<close>

record Reconciliation_st =
  recContent_a :: ReconciliationContent_st
  rSignature_a :: octets
  rVotes_a :: "Validation_st list"

definition Reconciliation_new :: Reconciliation where
  "Reconciliation_new =
     \<lparr>cProtocol = 0, chainId = 0, shardInfo = [], rLeader = [], rSignature = [], rVotes = []\<rparr>"

definition Reconciliation_st_new :: Reconciliation_st where
  "Reconciliation_st_new =
     \<lparr>recContent_a = \<lparr>cProtocol_a = 0, cTime_a = 0, chainId_a = 0, shardInfo_a = [], rLeader_a = []\<rparr>,
      rSignature_a = [], rVotes_a = []\<rparr>"

definition Reconciliation_setProtocol :: "u32 \<Rightarrow> Reconciliation \<Rightarrow> Reconciliation" where
  "Reconciliation_setProtocol v x = x\<lparr>cProtocol := v\<rparr>"

definition Reconciliation_setChainId :: "u32 \<Rightarrow> Reconciliation \<Rightarrow> Reconciliation" where
  "Reconciliation_setChainId v x = x\<lparr>chainId := v\<rparr>"

definition Reconciliation_setShardInfo :: "ShardInfo list \<Rightarrow> Reconciliation \<Rightarrow> Reconciliation" where
  "Reconciliation_setShardInfo v x = x\<lparr>shardInfo := v\<rparr>"

definition Reconciliation_setLeader :: "Address \<Rightarrow> Reconciliation \<Rightarrow> Reconciliation" where
  "Reconciliation_setLeader v x = x\<lparr>rLeader := v\<rparr>"

definition Reconciliation_setSignature :: "Signature \<Rightarrow> Reconciliation \<Rightarrow> Reconciliation" where
  "Reconciliation_setSignature v x = x\<lparr>rSignature := v\<rparr>"

definition Reconciliation_setVotes :: "Validation list \<Rightarrow> Reconciliation \<Rightarrow> Reconciliation" where
  "Reconciliation_setVotes v x = x\<lparr>rVotes := v\<rparr>"

text \<open>The time field of the structure is not written.\<close>

definition Reconciliation_toAsn1 :: "Reconciliation \<Rightarrow> Reconciliation_st \<Rightarrow> Reconciliation_st" where
  "Reconciliation_toAsn1 x t =
     (let c = recContent_a t in
      t\<lparr>recContent_a := c\<lparr>
            cProtocol_a := fromUInt32 (cProtocol_a c) (cProtocol x),
            chainId_a := fromUInt32 (chainId_a c) (chainId x),
            shardInfo_a := to_stack ShardInfo_toAsn1 ShardInfo_st_new (shardInfo_a c) (shardInfo x),
            rLeader_a := Address_toAsn1 (rLeader x) (rLeader_a c)\<rparr>,
        rSignature_a := Signature_toAsn1 (rSignature x) (rSignature_a t),
        rVotes_a := to_stack Validation_toAsn1 Validation_st_new (rVotes_a t) (rVotes x)\<rparr>)"

definition Reconciliation_fromAsn1 :: "(asn1_int \<Rightarrow> int) \<Rightarrow> Reconciliation_st \<Rightarrow> Reconciliation" where
  "Reconciliation_fromAsn1 og t =
     (let c = recContent_a t in
      \<lparr>cProtocol = toUInt32 og (cProtocol_a c),
       chainId = toUInt32 og (chainId_a c),
       shardInfo = from_stack (ShardInfo_fromAsn1 og) (\<lambda>x. x) (shardInfo_a c),
       rLeader = Address_fromAsn1 (rLeader_a c),
       rSignature = Signature_fromAsn1 (rSignature_a t),
       rVotes = from_stack Validation_fromAsn1 (\<lambda>x. x) (rVotes_a t)\<rparr>)"

definition Reconciliation_toContent :: "(ReconciliationContent_st \<Rightarrow> bytes option) \<Rightarrow> Reconciliation \<Rightarrow> bytes" where
  "Reconciliation_toContent i2d_ReconciliationContent x =
     ossl_encode i2d_ReconciliationContent (recContent_a (Reconciliation_toAsn1 x Reconciliation_st_new))"

definition Reconciliation_encode :: "(Reconciliation_st \<Rightarrow> bytes option) \<Rightarrow> Reconciliation \<Rightarrow> bytes" where
  "Reconciliation_encode i2d_Reconciliation x =
     ossl_encode i2d_Reconciliation (Reconciliation_toAsn1 x Reconciliation_st_new)"

subsection \<open>Node\<close>

record Node =
  nChainId :: u64
  nShardId :: u32
  nIndex :: u32
  nPrevHash :: Hash
  nTransactions :: "Transaction list"
  nNonce :: bytes
  nLeader :: Address
  nNewAddress :: Address
  nSignature :: Signature
  nVotes :: "Validation list"

record NodeContent_st =
  nChainId_a :: asn1_int
  nShardId_a :: asn1_int
  nIndex_a :: asn1_int
  nPrevHash_a :: Hash_st
  nTransactions_a :: "Transaction_st list"
  nNonce_a :: octets
  nLeader_a :: octets
  nNewAddress_a :: octets

record Node_st =
  nContent_a :: NodeContent_st
  nSignature_a :: octets
  nVotes_a :: "Validation_st list"

definition Node_new :: Node where
  "Node_new =
     \<lparr>nChainId = 0, nShardId = 0, nIndex = 0, nPrevHash = Hash_new, nTransactions = [], nNonce = [],
      nLeader = [], nNewAddress = [], nSignature = [], nVotes = []\<rparr>"

definition Node_st_new :: Node_st where
  "Node_st_new =
     \<lparr>nContent_a = \<lparr>nChainId_a = 0, nShardId_a = 0, nIndex_a = 0, nPrevHash_a = Hash_st_new,
        nTransactions_a = [], nNonce_a = [], nLeader_a = [], nNewAddress_a = []\<rparr>,
      nSignature_a = [], nVotes_a = []\<rparr>"

definition Node_setChainId :: "u64 \<Rightarrow> Node \<Rightarrow> Node" where
  "Node_setChainId v x = x\<lparr>nChainId := v\<rparr>"

definition Node_setShardId :: "u32 \<Rightarrow> Node \<Rightarrow> Node" where
  "Node_setShardId v x = x\<lparr>nShardId := v\<rparr>"

definition Node_setIndex :: "u32 \<Rightarrow> Node \<Rightarrow> Node" where
  "Node_setIndex v x = x\<lparr>nIndex := v\<rparr>"

definition Node_setPrevHash :: "Hash \<Rightarrow> Node \<Rightarrow> Node" where
  "Node_setPrevHash v x = x\<lparr>nPrevHash := v\<rparr>"

definition Node_setTransactions :: "Transaction list \<Rightarrow> Node \<Rightarrow> Node" where
  "Node_setTransactions v x = x\<lparr>nTransactions := v\<rparr>"

definition Node_setNonce :: "bytes \<Rightarrow> Node \<Rightarrow> Node" where
  "Node_setNonce v x = x\<lparr>nNonce := v\<rparr>"

definition Node_setLeader :: "Address \<Rightarrow> Node \<Rightarrow> Node" where
  "Node_setLeader v x = x\<lparr>nLeader := v\<rparr>"

definition Node_setNewAddress :: "Address \<Rightarrow> Node \<Rightarrow> Node" where
  "Node_setNewAddress v x = x\<lparr>nNewAddress := v\<rparr>"

definition Node_setSignature :: "Signature \<Rightarrow> Node \<Rightarrow> Node" where
  "Node_setSignature v x = x\<lparr>nSignature := v\<rparr>"

definition Node_setVotes :: "Validation list \<Rightarrow> Node \<Rightarrow> Node" where
  "Node_setVotes v x = x\<lparr>nVotes := v\<rparr>"

text \<open>The stack conversions for transactions: writing may dereference a null alternative, and
  reading moves every transaction into the list.\<close>

definition toTransactionStack :: "Transaction list \<Rightarrow> Transaction_st list option" where
  "toTransactionStack objs = those (map (\<lambda>cur. Transaction_toAsn1 cur Transaction_st_new) objs)"

definition fromTransactionStack :: "(asn1_int \<Rightarrow> int) \<Rightarrow> Transaction_st list \<Rightarrow> Transaction list" where
  "fromTransactionStack og st =
     from_stack (\<lambda>t. Transaction_fromAsn1 og t Transaction_new) Transaction_move st"

definition Node_toAsn1 :: "Node \<Rightarrow> Node_st \<Rightarrow> Node_st option" where
  "Node_toAsn1 x t =
     do { txs \<leftarrow> toTransactionStack (nTransactions x);
          let c = nContent_a t
          in Some (t\<lparr>nSignature_a := Signature_toAsn1 (nSignature x) (nSignature_a t),
               nVotes_a := to_stack Validation_toAsn1 Validation_st_new (nVotes_a t) (nVotes x),
               nContent_a := c\<lparr>
                 nChainId_a := fromUInt64 (nChainId_a c) (nChainId x),
                 nShardId_a := fromUInt32 (nShardId_a c) (nShardId x),
                 nIndex_a := fromUInt32 (nIndex_a c) (nIndex x),
                 nPrevHash_a := Hash_toAsn1 (nPrevHash x) (nPrevHash_a c),
                 nTransactions_a := txs,
                 nNonce_a := fromBin (nNonce_a c) (nNonce x),
                 nLeader_a := Address_toAsn1 (nLeader x) (nLeader_a c),
                 nNewAddress_a := Address_toAsn1 (nNewAddress x) (nNewAddress_a c)\<rparr>\<rparr>) }"

definition Node_fromAsn1 :: "(asn1_int \<Rightarrow> int) \<Rightarrow> Node_st \<Rightarrow> Node" where
  "Node_fromAsn1 og t =
     (let c = nContent_a t in
      \<lparr>nChainId = toUInt64 og (nChainId_a c),
       nShardId = toUInt32 og (nShardId_a c),
       nIndex = toUInt32 og (nIndex_a c),
       nPrevHash = Hash_fromAsn1 (nPrevHash_a c),
       nTransactions = fromTransactionStack og (nTransactions_a c),
       nNonce = toBin (nNonce_a c),
       nLeader = Address_fromAsn1 (nLeader_a c),
       nNewAddress = Address_fromAsn1 (nNewAddress_a c),
       nSignature = Signature_fromAsn1 (nSignature_a t),
       nVotes = from_stack Validation_fromAsn1 (\<lambda>x. x) (nVotes_a t)\<rparr>)"

definition Node_toContent :: "(NodeContent_st \<Rightarrow> bytes option) \<Rightarrow> Node \<Rightarrow> bytes option" where
  "Node_toContent i2d_NodeContent x =
     map_option (\<lambda>t. ossl_encode i2d_NodeContent (nContent_a t)) (Node_toAsn1 x Node_st_new)"

subsection \<open>Block\<close>

datatype Block_Type = BtNone | BtGenesis | BtReconciliation | BtNode

record Block =
  bType :: Block_Type
  genesis :: "Genesis option"
  reconciliation :: "Reconciliation option"
  node :: "Node option"

datatype Block_st =
    Block_null
  | Block_genesis Genesis_st
  | Block_reconciliation Reconciliation_st
  | Block_node Node_st
  | Block_other int

definition Block_new :: Block where
  "Block_new = \<lparr>bType = BtNone, genesis = None, reconciliation = None, node = None\<rparr>"

definition Block_resetChoice :: "Block \<Rightarrow> Block" where
  "Block_resetChoice x = x\<lparr>bType := BtNone, genesis := None, reconciliation := None, node := None\<rparr>"

definition Block_assign_move :: "Block \<Rightarrow> Block \<Rightarrow> Block \<times> Block" where
  "Block_assign_move this rhs =
     (let t1 = Block_resetChoice this
      in (t1\<lparr>bType := bType rhs, genesis := genesis rhs, reconciliation := reconciliation rhs, node := node rhs\<rparr>,
          Block_resetChoice rhs))"

definition Block_setGenesis :: "Genesis \<Rightarrow> Block \<Rightarrow> Block" where
  "Block_setGenesis g x = (Block_resetChoice x)\<lparr>bType := BtGenesis, genesis := Some g\<rparr>"

definition Block_setReconciliation :: "Reconciliation \<Rightarrow> Block \<Rightarrow> Block" where
  "Block_setReconciliation r x = (Block_resetChoice x)\<lparr>bType := BtReconciliation, reconciliation := Some r\<rparr>"

definition Block_setNode :: "Node \<Rightarrow> Block \<Rightarrow> Block" where
  "Block_setNode n x = (Block_resetChoice x)\<lparr>bType := BtNode, node := Some n\<rparr>"

definition Block_toAsn1 :: "Block \<Rightarrow> Block_st option" where
  "Block_toAsn1 x =
     (case bType x of
        BtNone \<Rightarrow> Some Block_null
      | BtGenesis \<Rightarrow> map_option (\<lambda>g. Block_genesis (Genesis_toAsn1 g Genesis_st_new)) (genesis x)
      | BtReconciliation \<Rightarrow>
          map_option (\<lambda>r. Block_reconciliation (Reconciliation_toAsn1 r Reconciliation_st_new)) (reconciliation x)
      | BtNode \<Rightarrow>
          do { n \<leftarrow> node x;
               t \<leftarrow> Node_toAsn1 n Node_st_new;
               Some (Block_node t) })"

definition Block_fromAsn1 :: "(asn1_int \<Rightarrow> int) \<Rightarrow> Block_st \<Rightarrow> Block \<Rightarrow> Block" where
  "Block_fromAsn1 og t x =
     (let x1 = Block_resetChoice x in
      case t of
        Block_null \<Rightarrow> x1
      | Block_genesis g \<Rightarrow> x1\<lparr>bType := BtGenesis, genesis := Some (Genesis_fromAsn1 og g)\<rparr>
      | Block_reconciliation r \<Rightarrow>
          x1\<lparr>bType := BtReconciliation, reconciliation := Some (Reconciliation_fromAsn1 og r)\<rparr>
      | Block_node n \<Rightarrow> x1\<lparr>bType := BtNode, node := Some (Node_fromAsn1 og n)\<rparr>
      | Block_other _ \<Rightarrow> x1)"

definition Block_assign_copy :: "(asn1_int \<Rightarrow> int) \<Rightarrow> Block \<Rightarrow> Block \<Rightarrow> Block option" where
  "Block_assign_copy og this rhs = map_option (\<lambda>t. Block_fromAsn1 og t this) (Block_toAsn1 rhs)"

definition Block_encode :: "(Block_st \<Rightarrow> bytes option) \<Rightarrow> Block \<Rightarrow> bytes option" where
  "Block_encode i2d_Block x = map_option (ossl_encode i2d_Block) (Block_toAsn1 x)"

definition Block_Type_to_string :: "Block_Type \<Rightarrow> string" where
  "Block_Type_to_string ty =
     (case ty of
        BtGenesis \<Rightarrow> ''Genesis''
      | BtReconciliation \<Rightarrow> ''Reconciliation''
      | BtNode \<Rightarrow> ''Node''
      | BtNone \<Rightarrow> ''None'')"

subsection \<open>Decoding\<close>

text \<open>Each decoder gives the new value of the out parameter, or \<open>None\<close> for the result \<^verbatim>\<open>false\<close>.\<close>

definition decode_Hash :: "(bytes \<Rightarrow> Hash_st option) \<Rightarrow> bytes \<Rightarrow> Hash option" where
  "decode_Hash d2i_Hash data = map_option Hash_fromAsn1 (d2i_Hash data)"

definition decode_Block :: "(bytes \<Rightarrow> Block_st option) \<Rightarrow> (asn1_int \<Rightarrow> int) \<Rightarrow> bytes \<Rightarrow> Block \<Rightarrow> Block option" where
  "decode_Block d2i_Block og data x = map_option (\<lambda>t. Block_fromAsn1 og t x) (d2i_Block data)"

definition decode_Genesis :: "(bytes \<Rightarrow> Genesis_st option) \<Rightarrow> (asn1_int \<Rightarrow> int) \<Rightarrow> bytes \<Rightarrow> Genesis option" where
  "decode_Genesis d2i_Genesis og data = map_option (Genesis_fromAsn1 og) (d2i_Genesis data)"

definition decode_Reconciliation ::
  "(bytes \<Rightarrow> Reconciliation_st option) \<Rightarrow> (asn1_int \<Rightarrow> int) \<Rightarrow> bytes \<Rightarrow> Reconciliation option" where
  "decode_Reconciliation d2i_Reconciliation og data =
     map_option (Reconciliation_fromAsn1 og) (d2i_Reconciliation data)"

section \<open>Round trips of the parts\<close>

definition Genesis_ok :: "Genesis \<Rightarrow> bool" where
  "Genesis_ok x \<longleftrightarrow> Time_ok (gCreation x) \<and> Specie_ok (gGreed x) \<and> fits_int (gName x) \<and>
     list_all fits_int [gCreator x, gValidatorKey x, gStakeAddress x, gSeed x]"

definition Reconciliation_ok :: "Reconciliation \<Rightarrow> bool" where
  "Reconciliation_ok x \<longleftrightarrow> list_all (\<lambda>i. Hash_ok (sHash i)) (shardInfo x) \<and> list_all Validation_ok (rVotes x) \<and>
     fits_int (rLeader x) \<and> fits_int (rSignature x)"

definition Node_ok :: "Node \<Rightarrow> bool" where
  "Node_ok x \<longleftrightarrow> fits_long (nChainId x) \<and> list_all (\<lambda>t. Transaction_inv t \<and> Transaction_ok t) (nTransactions x) \<and>
     Hash_ok (nPrevHash x) \<and> list_all Validation_ok (nVotes x) \<and> list_all fits_int [nNonce x, nLeader x, nNewAddress x, nSignature x]"

lemma string_roundtrip [simp]: "fits_int s \<Longrightarrow> asn1_toString (fromBin t (string_bytes s)) = s"
  by (simp add: asn1_toString_def fromBin_small)

lemma Genesis_roundtrip [roundtrip]:
  "long_get og \<Longrightarrow> Genesis_ok x \<Longrightarrow> Genesis_fromAsn1 og (Genesis_toAsn1 x t) = x"
  by (cases x) (simp add: Genesis_fromAsn1_def Genesis_toAsn1_def Genesis_ok_def toUInt32_fromUInt64
      Time_roundtrip Specie_roundtrip)

interpretation genesis_asn1: asn1_class Genesis_toAsn1 "Genesis_fromAsn1 og"
  "\<lambda>x. long_get og \<and> Genesis_ok x" for og
  by unfold_locales (simp add: Genesis_roundtrip)

lemma ShardInfo_roundtrip [roundtrip]:
  "long_get og \<Longrightarrow> Hash_ok (sHash x) \<Longrightarrow> ShardInfo_fromAsn1 og (ShardInfo_toAsn1 x t) = x"
  by (cases x) (simp add: ShardInfo_fromAsn1_def ShardInfo_toAsn1_def toUInt32_fromUInt32)

interpretation shardinfo_asn1: asn1_class ShardInfo_toAsn1 "ShardInfo_fromAsn1 og" "\<lambda>x. long_get og \<and> Hash_ok (sHash x)" for og
  by unfold_locales (simp add: ShardInfo_roundtrip)

lemma validations_roundtrip [simp]:
  "list_all Validation_ok xs \<Longrightarrow> from_stack Validation_fromAsn1 (\<lambda>x. x) (to_stack Validation_toAsn1 new st xs) = xs"
  by (rule validation_asn1.stack_roundtrip)

lemma Reconciliation_roundtrip [roundtrip]:
  assumes "long_get og" and "Reconciliation_ok x"
  shows "Reconciliation_fromAsn1 og (Reconciliation_toAsn1 x t) = x"
proof -
  have "list_all (\<lambda>i. long_get og \<and> Hash_ok (sHash i)) (shardInfo x)"
    using assms by (simp add: Reconciliation_ok_def list_all_iff)
  then show ?thesis
    using assms
    by (cases x) (simp add: Reconciliation_fromAsn1_def Reconciliation_toAsn1_def Reconciliation_ok_def Let_def
        toUInt32_fromUInt32 shardinfo_asn1.stack_roundtrip)
qed

interpretation reconciliation_asn1: asn1_class Reconciliation_toAsn1 "Reconciliation_fromAsn1 og"
  "\<lambda>x. long_get og \<and> Reconciliation_ok x" for og
  by unfold_locales (simp add: Reconciliation_roundtrip)

lemma transactions_roundtrip:
  assumes "long_get og" and "list_all (\<lambda>t. Transaction_inv t \<and> Transaction_ok t) txs"
  shows "\<exists>st. toTransactionStack txs = Some st \<and> fromTransactionStack og st = map Transaction_move txs"
  using assms(2)
proof (induction txs)
  case Nil
  then show ?case by (simp add: toTransactionStack_def fromTransactionStack_def from_stack_def)
next
  case (Cons x txs)
  obtain t where "Transaction_toAsn1 x Transaction_st_new = Some t"
    using Transaction_toAsn1_Some Cons.prems by (metis list.pred_inject(2))
  moreover from this have "Transaction_fromAsn1 og t Transaction_new = x"
    using Cons.prems assms(1) by (intro Transaction_from_to) auto
  ultimately show ?case
    using Cons by (auto simp: toTransactionStack_def fromTransactionStack_def from_stack_def)
qed

text \<open>What is left of a node after its ASN.1 form.\<close>

definition Node_moved :: "Node \<Rightarrow> Node" where
  "Node_moved x = x\<lparr>nTransactions := map Transaction_move (nTransactions x)\<rparr>"

lemma Node_roundtrip [roundtrip]:
  assumes "long_get og" and "Node_ok x"
  shows "\<exists>t'. Node_toAsn1 x t = Some t' \<and> Node_fromAsn1 og t' = Node_moved x"
proof -
  obtain st where "toTransactionStack (nTransactions x) = Some st"
      "fromTransactionStack og st = map Transaction_move (nTransactions x)"
    using transactions_roundtrip [OF assms(1)] assms(2) by (auto simp: Node_ok_def)
  with assms show ?thesis
    by (cases x) (simp add: Node_toAsn1_def Node_fromAsn1_def Node_moved_def Node_ok_def Let_def
        toUInt32_fromUInt32 toUInt64_fromUInt64)
qed

section \<open>Blocks\<close>

definition Block_inv :: "Block \<Rightarrow> bool" where
  "Block_inv x \<longleftrightarrow>
     (genesis x \<noteq> None \<longleftrightarrow> bType x = BtGenesis) \<and>
     (reconciliation x \<noteq> None \<longleftrightarrow> bType x = BtReconciliation) \<and>
     (node x \<noteq> None \<longleftrightarrow> bType x = BtNode)"

definition Block_ok :: "Block \<Rightarrow> bool" where
  "Block_ok x \<longleftrightarrow>
     (\<forall>g. genesis x = Some g \<longrightarrow> Genesis_ok g) \<and> (\<forall>r. reconciliation x = Some r \<longrightarrow> Reconciliation_ok r) \<and>
     (\<forall>n. node x = Some n \<longrightarrow> Node_ok n)"

definition Block_moved :: "Block \<Rightarrow> Block" where
  "Block_moved x = x\<lparr>node := map_option Node_moved (node x)\<rparr>"

lemmas Block_ops = Block_new_def Block_resetChoice_def Block_assign_move_def Block_setGenesis_def
  Block_setReconciliation_def Block_setNode_def Block_fromAsn1_def

inductive Block_reach :: "Block \<Rightarrow> bool" where
  new: "Block_reach Block_new"
| setGenesis: "Block_reach x \<Longrightarrow> Block_reach (Block_setGenesis g x)"
| setReconciliation: "Block_reach x \<Longrightarrow> Block_reach (Block_setReconciliation r x)"
| setNode: "Block_reach x \<Longrightarrow> Block_reach (Block_setNode n x)"
| move_target: "Block_reach x \<Longrightarrow> Block_reach y \<Longrightarrow> Block_reach (fst (Block_assign_move x y))"
| move_source: "Block_reach x \<Longrightarrow> Block_reach y \<Longrightarrow> Block_reach (snd (Block_assign_move x y))"
| fromAsn1: "Block_reach x \<Longrightarrow> Block_reach (Block_fromAsn1 og t x)"

lemma Block_reach_inv: "Block_reach x \<Longrightarrow> Block_inv x"
  by (induction rule: Block_reach.induct)
    (auto simp: Block_inv_def Block_ops Let_def split: Block_st.splits)

lemma Block_cases:
  assumes "Block_inv x"
  obtains "x = Block_new"
  | g where "x = Block_setGenesis g Block_new"
  | r where "x = Block_setReconciliation r Block_new"
  | n where "x = Block_setNode n Block_new"
  using assms by (cases x; cases "bType x") (auto simp: Block_inv_def Block_ops)

lemma Block_from_to:
  assumes "Block_inv b" and "Block_ok b" and "long_get og"
  shows "\<exists>t. Block_toAsn1 b = Some t \<and> Block_fromAsn1 og t y = Block_moved b"
  using assms
proof (cases rule: Block_cases [OF assms(1)])
  case (4 n)
  then have "Node_ok n"
    using assms(2) by (simp add: Block_ok_def Block_ops)
  then obtain t where "Node_toAsn1 n Node_st_new = Some t" "Node_fromAsn1 og t = Node_moved n"
    using Node_roundtrip assms(3) by blast
  with 4 show ?thesis
    by (simp add: Block_toAsn1_def Block_ops Block_moved_def)
qed (simp_all add: Block_toAsn1_def Block_ops Block_ok_def Block_moved_def Genesis_roundtrip
    Reconciliation_roundtrip)

lemma Block_moved_id: "node b = None \<Longrightarrow> Block_moved b = b"
  by (cases b) (simp add: Block_moved_def)

subsection \<open>The order of the votes\<close>

text \<open>The structure that is read back from DER: the votes are reordered, everything else is the same.\<close>

fun der_form :: "Block_st \<Rightarrow> Block_st \<Rightarrow> bool" where
  "der_form (Block_reconciliation r) (Block_reconciliation r') =
     (r' = r\<lparr>rVotes_a := rVotes_a r'\<rparr> \<and> mset (rVotes_a r') = mset (rVotes_a r))"
| "der_form (Block_node n) (Block_node n') =
     (n' = n\<lparr>nVotes_a := nVotes_a n'\<rparr> \<and> mset (nVotes_a n') = mset (nVotes_a n))"
| "der_form t t' = (t = t')"

definition block_votes :: "Block \<Rightarrow> Validation list" where
  "block_votes b =
     (case reconciliation b of Some r \<Rightarrow> rVotes r | None \<Rightarrow> (case node b of Some n \<Rightarrow> nVotes n | None \<Rightarrow> []))"

definition with_votes :: "Validation list \<Rightarrow> Block \<Rightarrow> Block" where
  "with_votes vs b = b\<lparr>reconciliation := map_option (rVotes_update (\<lambda>_. vs)) (reconciliation b),
     node := map_option (nVotes_update (\<lambda>_. vs)) (node b)\<rparr>"

lemma block_votes_moved [simp]: "block_votes (Block_moved b) = block_votes b"
  by (simp add: block_votes_def Block_moved_def Node_moved_def option.case_eq_if option.map_sel)

lemma with_own_votes [simp]: "node b = None \<or> reconciliation b = None \<Longrightarrow> with_votes (block_votes b) b = b"
  by (cases b; cases "reconciliation b"; cases "node b") (auto simp: with_votes_def block_votes_def)

lemma mset_short: "mset vs = mset ws \<Longrightarrow> length ws \<le> 1 \<Longrightarrow> vs = ws"
  by (cases ws) (auto simp: mset_single_iff)

lemma der_form_fromAsn1:
  assumes "der_form t t'"
  shows "\<exists>vs. Block_fromAsn1 og t' x = with_votes vs (Block_fromAsn1 og t x) \<and>
    mset vs = mset (block_votes (Block_fromAsn1 og t x))"
  using assms
proof (cases "(t, t')" rule: der_form.cases)
  case (1 r r')
  let ?vs = "map Validation_fromAsn1 (rVotes_a r')"
  have "mset ?vs = mset (map Validation_fromAsn1 (rVotes_a r))" using assms 1 by simp
  moreover obtain vs where "r' = r\<lparr>rVotes_a := vs\<rparr>" using assms 1 by auto
  ultimately show ?thesis using 1
    by (intro exI [of _ ?vs]) (simp add: Block_ops with_votes_def block_votes_def Reconciliation_fromAsn1_def from_stack_def Let_def)
next
  case (2 n n')
  let ?vs = "map Validation_fromAsn1 (nVotes_a n')"
  have "mset ?vs = mset (map Validation_fromAsn1 (nVotes_a n))" using assms 2 by simp
  moreover obtain vs where "n' = n\<lparr>nVotes_a := vs\<rparr>" using assms 2 by auto
  ultimately show ?thesis using 2
    by (intro exI [of _ ?vs]) (simp add: Block_ops with_votes_def block_votes_def Node_fromAsn1_def from_stack_def Let_def)
qed (auto simp: Block_ops with_votes_def block_votes_def split: option.splits)

section \<open>Properties\<close>


text \<open>A reconciliation with two votes, and a codec that reads them back in the other order.\<close>

definition voted :: Reconciliation where
  "voted = Reconciliation_new\<lparr>chainId := 1,
     rVotes := [\<lparr>verified = True, vAddress = [2], vSignature = [5]\<rparr>, \<lparr>verified = True, vAddress = [1], vSignature = [6]\<rparr>]\<rparr>"

definition voted_st :: "bool \<Rightarrow> Block_st" where
  "voted_st turned = (let r = Reconciliation_toAsn1 voted Reconciliation_st_new
     in Block_reconciliation (if turned then r\<lparr>rVotes_a := rev (rVotes_a r)\<rparr> else r))"


text \<open>Copying a block never dereferences a null alternative; the copy of a node block
  equals the original exactly when no transaction carries a time, signer, key, new address or
  signature.\<close>

theorem Block_copy_exact_iff:
  assumes "Block_reach b" and "Block_ok b" and "long_get og"
  shows "\<exists>c. Block_assign_copy og x b = Some c \<and>
    (c = b \<longleftrightarrow> (\<forall>n. node b = Some n \<longrightarrow> (\<forall>t \<in> set (nTransactions n). Transaction_move t = t)))"
proof -
  have "Block_moved b = b \<longleftrightarrow>
      (\<forall>n. node b = Some n \<longrightarrow> (\<forall>t \<in> set (nTransactions n). Transaction_move t = t))"
  proof (cases "node b")
    case (Some n)
    have "map Transaction_move (nTransactions n) = nTransactions n \<longleftrightarrow>
        (\<forall>t \<in> set (nTransactions n). Transaction_move t = t)"
      by (metis list.map_ident_strong map_eq_conv list.map_ident)
    with Some show ?thesis
      by (cases b; cases n) (simp add: Block_moved_def Node_moved_def)
  qed (simp add: Block_moved_id)
  with Block_from_to [OF Block_reach_inv [OF assms(1)] assms(2,3), of x] show ?thesis
    by (auto simp: Block_assign_copy_def)
qed

definition signed_node :: Node where
  "signed_node = Node_new\<lparr>nTransactions := [Transaction_new\<lparr>signer := [1]\<rparr>]\<rparr>"

theorem Block_copy_exact_iff_witness:
  "\<exists>c. Block_assign_copy ASN1_INTEGER_get Block_new (Block_setNode signed_node Block_new) = Some c \<and>
       c \<noteq> Block_setNode signed_node Block_new"
proof -
  let ?b = "Block_setNode signed_node Block_new"
  have "Block_reach ?b"
    by (intro Block_reach.intros)
  moreover have "Block_ok ?b"
    by (simp add: Block_ok_def Block_ops Node_ok_def signed_node_def Node_new_def Transaction_inv_def
        Transaction_ok_def Transaction_new_def Time_ok_def Time_new_def fits_long_def Hash_ok_def Hash_new_def)
  ultimately obtain c where "Block_assign_copy ASN1_INTEGER_get Block_new ?b = Some c"
      "c = ?b \<longleftrightarrow> (\<forall>n. node ?b = Some n \<longrightarrow> (\<forall>t \<in> set (nTransactions n). Transaction_move t = t))"
    using Block_copy_exact_iff [OF _ _ long_get_ASN1_INTEGER_get, of ?b Block_new] by blast
  then show ?thesis
    by (simp add: Block_ops signed_node_def Node_new_def Transaction_move_eq Transaction_new_def)
qed

end
