(* ===== verification/FC_Utils.thy ===== *)
theory FC_Utils
  imports FC_Decimal
begin

text \<open>
  General utilities: number parsing (\<^verbatim>\<open>utils/Strings\<close>), log levels (\<^verbatim>\<open>log/Level\<close>), error tracking
  (\<^verbatim>\<open>utils/ErrorCode\<close>, \<^verbatim>\<open>utils/ErrorStatus\<close>, \<^verbatim>\<open>utils/Details\<close>), delimited strings
  (\<^verbatim>\<open>utils/DelimitedString\<close>) and command line arguments (\<^verbatim>\<open>utils/ArgParser\<close>).

  What is only written to the log or to the terminal is left out, except the help text, which
  is returned.
\<close>

section \<open>Model\<close>

subsection \<open>Number parsing\<close>

definition is_space :: "char \<Rightarrow> bool" where
  "is_space c = (c \<in> {CHR '' '', CHR 0x09, CHR 0x0A, CHR 0x0B, CHR 0x0C, CHR 0x0D})"

text \<open>The scan shared by the C conversions: blanks, an optional sign, the digits.\<close>

definition scan_int :: "string \<Rightarrow> bool \<times> string" where
  "scan_int str =
     (let s = dropWhile is_space str;
          neg = (s \<noteq> [] \<and> hd s = CHR ''-'');
          s1 = (if s \<noteq> [] \<and> (hd s = CHR ''-'' \<or> hd s = CHR ''+'') then tl s else s)
      in (neg, takeWhile is_digit s1))"

text \<open>\<^verbatim>\<open>strtoll\<close> saturates, and \<^verbatim>\<open>atoi\<close> and \<^verbatim>\<open>atoll\<close> cast its result.  \<^verbatim>\<open>strtoull\<close> saturates the
  magnitude and then negates modulo \<open>2 ^ 64\<close>.\<close>

definition strtoll :: "string \<Rightarrow> int" where
  "strtoll str =
     (case scan_int str of (neg, ds) \<Rightarrow>
        let v = int (dval ds)
        in if neg then max (- 9223372036854775808) (- v) else min 9223372036854775807 v)"

definition strtoull :: "string \<Rightarrow> u64" where
  "strtoull str =
     (case scan_int str of (neg, ds) \<Rightarrow>
        let v = int (dval ds)
        in if v > 18446744073709551615 then - 1
           else if neg then - word_of_int v else word_of_int v)"

definition from_string_i8 :: "string \<Rightarrow> int" where
  "from_string_i8 str = sint (word_of_int (strtoll str) :: 8 word)"

definition from_string_u8 :: "string \<Rightarrow> byte" where
  "from_string_u8 str = word_of_int (strtoll str)"

definition from_string_i16 :: "string \<Rightarrow> int" where
  "from_string_i16 str = sint (word_of_int (strtoll str) :: u16)"

definition from_string_u16 :: "string \<Rightarrow> u16" where
  "from_string_u16 str = word_of_int (strtoll str)"

definition from_string_i32 :: "string \<Rightarrow> int" where
  "from_string_i32 str = sint (word_of_int (strtoll str) :: u32)"

definition from_string_u32 :: "string \<Rightarrow> u32" where
  "from_string_u32 str = word_of_int (strtoll str)"

definition from_string_i64 :: "string \<Rightarrow> int" where
  "from_string_i64 str = strtoll str"

definition from_string_u64 :: "string \<Rightarrow> u64" where
  "from_string_u64 str = strtoull str"

definition from_string_bool :: "string \<Rightarrow> bool" where
  "from_string_bool str = (from_string_i32 str > 0 \<or> str = ''t'' \<or> str = ''true'')"

definition to_string_int :: "int \<Rightarrow> string" where
  "to_string_int v = (if v < 0 then CHR ''-'' # dec (nat (- v)) else dec (nat v))"

subsection \<open>Log levels\<close>

datatype Level = LvNone | LvError | LvWarn | LvNotice | LvInfo | LvDebug | LvTraffic

definition toupper :: "char \<Rightarrow> char" where
  "toupper c = (if 97 \<le> (of_char c :: nat) \<and> (of_char c :: nat) \<le> 122 then char_of ((of_char c :: nat) - 32) else c)"

definition tolower :: "char \<Rightarrow> char" where
  "tolower c = (if 65 \<le> (of_char c :: nat) \<and> (of_char c :: nat) \<le> 90 then char_of ((of_char c :: nat) + 32) else c)"

definition Level_from_string :: "string \<Rightarrow> Level" where
  "Level_from_string str =
     (let strUpper = map toupper str in
      if strUpper = ''ERROR'' then LvError
      else if strUpper = ''WARN'' then LvWarn
      else if strUpper = ''NOTICE'' then LvNotice
      else if strUpper = ''INFO'' then LvInfo
      else if strUpper = ''DEBUG'' then LvDebug
      else if strUpper = ''TRAFFIC'' then LvTraffic
      else LvNone)"

fun Level_to_string :: "Level \<Rightarrow> string" where
  "Level_to_string LvNone = ''NONE''"
| "Level_to_string LvError = ''ERROR''"
| "Level_to_string LvWarn = ''WARN''"
| "Level_to_string LvNotice = ''NOTICE''"
| "Level_to_string LvInfo = ''INFO''"
| "Level_to_string LvDebug = ''DEBUG''"
| "Level_to_string LvTraffic = ''TRAFFIC''"

subsection \<open>Errors\<close>

datatype ErrorCode =
    EcNone | EcUnknown | EcInternalError
  | EcArgumentMissing | EcArgumentParseError | EcArgumentInvalid | EcUnknownCommand | EcInvalidMessageFormat
  | EcNotLoggedIn | EcNotAuthorized | EcNoPermission | EcBlocked
  | EcNotConnected | EcResolveError | EcConnectError | EcConnectionError | EcHandshakeError | EcReadError
  | EcWriteError | EcProtocolError
  | EcDatabaseError | EcFileError | EcDeviceError | EcSocketError | EcNotFound | EcHardwareError | EcMemoryError
  | EcIpcTimeout | EcServiceTimeout | EcSocketTimeout

fun ErrorCode_value :: "ErrorCode \<Rightarrow> int" where
  "ErrorCode_value EcNone = 0"
| "ErrorCode_value EcUnknown = 1"
| "ErrorCode_value EcInternalError = 2"
| "ErrorCode_value EcArgumentMissing = 100"
| "ErrorCode_value EcArgumentParseError = 101"
| "ErrorCode_value EcArgumentInvalid = 102"
| "ErrorCode_value EcUnknownCommand = 103"
| "ErrorCode_value EcInvalidMessageFormat = 104"
| "ErrorCode_value EcNotLoggedIn = 201"
| "ErrorCode_value EcNotAuthorized = 202"
| "ErrorCode_value EcNoPermission = 203"
| "ErrorCode_value EcBlocked = 204"
| "ErrorCode_value EcNotConnected = 300"
| "ErrorCode_value EcResolveError = 301"
| "ErrorCode_value EcConnectError = 302"
| "ErrorCode_value EcConnectionError = 303"
| "ErrorCode_value EcHandshakeError = 304"
| "ErrorCode_value EcReadError = 305"
| "ErrorCode_value EcWriteError = 306"
| "ErrorCode_value EcProtocolError = 307"
| "ErrorCode_value EcDatabaseError = 400"
| "ErrorCode_value EcFileError = 401"
| "ErrorCode_value EcDeviceError = 402"
| "ErrorCode_value EcSocketError = 403"
| "ErrorCode_value EcNotFound = 404"
| "ErrorCode_value EcHardwareError = 405"
| "ErrorCode_value EcMemoryError = 406"
| "ErrorCode_value EcIpcTimeout = 500"
| "ErrorCode_value EcServiceTimeout = 501"
| "ErrorCode_value EcSocketTimeout = 502"

fun ErrorCode_to_string :: "ErrorCode \<Rightarrow> string" where
  "ErrorCode_to_string EcNone = ''None''"
| "ErrorCode_to_string EcUnknown = ''Unknown''"
| "ErrorCode_to_string EcInternalError = ''Internal Error''"
| "ErrorCode_to_string EcArgumentMissing = ''Argument Missing''"
| "ErrorCode_to_string EcArgumentParseError = ''Argument Parse Error''"
| "ErrorCode_to_string EcArgumentInvalid = ''Argument Invalid''"
| "ErrorCode_to_string EcUnknownCommand = ''Unknown Command''"
| "ErrorCode_to_string EcInvalidMessageFormat = ''Invalid Message Format''"
| "ErrorCode_to_string EcNotLoggedIn = ''Not Logged In''"
| "ErrorCode_to_string EcNotAuthorized = ''Not Authorized''"
| "ErrorCode_to_string EcNoPermission = ''No Permission''"
| "ErrorCode_to_string EcBlocked = ''Blocked''"
| "ErrorCode_to_string EcNotConnected = ''Not Connected''"
| "ErrorCode_to_string EcResolveError = ''Resolve Error''"
| "ErrorCode_to_string EcConnectError = ''Connect Error''"
| "ErrorCode_to_string EcConnectionError = ''Connection Error''"
| "ErrorCode_to_string EcHandshakeError = ''Handshake Error''"
| "ErrorCode_to_string EcReadError = ''Read Error''"
| "ErrorCode_to_string EcWriteError = ''Write Error''"
| "ErrorCode_to_string EcProtocolError = ''Protocol Error''"
| "ErrorCode_to_string EcDatabaseError = ''Database Error''"
| "ErrorCode_to_string EcFileError = ''File Error''"
| "ErrorCode_to_string EcDeviceError = ''Device Error''"
| "ErrorCode_to_string EcSocketError = ''Socket Error''"
| "ErrorCode_to_string EcNotFound = ''Not Found''"
| "ErrorCode_to_string EcHardwareError = ''Hardware Error''"
| "ErrorCode_to_string EcMemoryError = ''Memory Error''"
| "ErrorCode_to_string EcIpcTimeout = ''Ipc Timeout''"
| "ErrorCode_to_string EcServiceTimeout = ''Service Timeout''"
| "ErrorCode_to_string EcSocketTimeout = ''Socket Timeout''"

record ErrorStatus =
  esLevel :: Level
  errorCode :: ErrorCode
  errorStr :: string
  errorField :: string

definition ErrorStatus_new :: ErrorStatus where
  "ErrorStatus_new = \<lparr>esLevel = LvError, errorCode = EcNone, errorStr = [], errorField = []\<rparr>"

definition ErrorStatus_set :: "ErrorCode \<Rightarrow> string option \<Rightarrow> string \<Rightarrow> ErrorStatus \<Rightarrow> ErrorStatus" where
  "ErrorStatus_set code field msg x =
     x\<lparr>errorCode := code,
       errorField := (case field of Some f \<Rightarrow> f | None \<Rightarrow> []),
       errorStr := msg\<rparr>"

definition ErrorStatus_extend :: "string option \<Rightarrow> string \<Rightarrow> ErrorStatus \<Rightarrow> ErrorStatus" where
  "ErrorStatus_extend field msg x =
     (let x = (case field of Some f \<Rightarrow> x\<lparr>errorField := f\<rparr> | None \<Rightarrow> x) in
      if msg = [] then x
      else if errorStr x = [] then x\<lparr>errorStr := msg\<rparr>
      else let msg = (if last msg = CHR ''.'' then butlast msg @ '': '' else msg @ '': '')
           in x\<lparr>errorStr := msg @ errorStr x\<rparr>)"

text \<open>\<^verbatim>\<open>Details\<close> carries the error status; its logger and its map of typed extras are left out.\<close>

type_synonym Details = ErrorStatus

definition Details_new :: Details where
  "Details_new = ErrorStatus_new"

definition isOk :: "Details \<Rightarrow> bool" where
  "isOk d = (errorStr d = [])"

definition setError :: "ErrorCode \<Rightarrow> string \<Rightarrow> string \<Rightarrow> Details \<Rightarrow> Details" where
  "setError code field msg d = ErrorStatus_set code (Some field) msg d"

definition extendError :: "string \<Rightarrow> string \<Rightarrow> Details \<Rightarrow> Details" where
  "extendError field msg d = ErrorStatus_extend (Some field) msg d"

subsection \<open>Delimited strings\<close>

definition str_find :: "string \<Rightarrow> char \<Rightarrow> nat \<Rightarrow> nat option" where
  "str_find str c start =
     (let rest = drop start str; n = length (takeWhile (\<lambda>x. x \<noteq> c) rest)
      in if n < length rest then Some (start + n) else None)"

text \<open>A loop that never returns is \<open>None\<close>.\<close>

partial_function (option) fromString_loop ::
  "(string \<Rightarrow> 'e) \<Rightarrow> string \<Rightarrow> char \<Rightarrow> nat \<Rightarrow> nat option \<Rightarrow> 'e list \<Rightarrow> 'e list option"
where
  "fromString_loop elem str delimiter startPos pos ret =
     (if startPos < length str then
        let p = (case pos of None \<Rightarrow> length str | Some q \<Rightarrow> q);
            ret' = ret @ [elem (take (p - startPos) (drop startPos str))]
        in fromString_loop elem str delimiter p (str_find str delimiter p) ret'
      else Some ret)"

definition DelimitedString_fromString :: "(string \<Rightarrow> 'e) \<Rightarrow> string \<Rightarrow> char \<Rightarrow> 'e list option" where
  "DelimitedString_fromString elem str delimiter =
     fromString_loop elem str delimiter 0 (str_find str delimiter 0) []"

fun toString_loop :: "('e \<Rightarrow> string) \<Rightarrow> char \<Rightarrow> 'e list \<Rightarrow> string \<Rightarrow> string" where
  "toString_loop elem delimiter [] ret = ret"
| "toString_loop elem delimiter (e # es) ret =
     toString_loop elem delimiter es ((if ret \<noteq> [] then ret @ [delimiter] else ret) @ elem e)"

definition DelimitedString_toString :: "('e \<Rightarrow> string) \<Rightarrow> 'e list \<Rightarrow> char \<Rightarrow> string" where
  "DelimitedString_toString elem elements delimiter = toString_loop elem delimiter elements []"

subsection \<open>Command line arguments\<close>

text \<open>A remembered value is a pointer: into \<^verbatim>\<open>argv\<close>, or to the string literal \<^verbatim>\<open>1\<close> of a switch.\<close>

datatype arg_ptr = ArgvAt nat | Literal

record Args =
  bError :: bool
  args :: "(string, string list) omap"
  originals :: "(string, arg_ptr list) omap"

definition Args_new :: Args where
  "Args_new = \<lparr>bError = False, args = om_empty, originals = om_empty\<rparr>"

definition Args_hasError :: "Args \<Rightarrow> bool" where
  "Args_hasError a = bError a"

definition Args_setError :: "Args \<Rightarrow> Args" where
  "Args_setError a = a\<lparr>bError := True\<rparr>"

definition Args_hasArg :: "string \<Rightarrow> Args \<Rightarrow> bool" where
  "Args_hasArg arg a = (om_find (args a) arg \<noteq> None)"

definition Args_getArg :: "string \<Rightarrow> Args \<Rightarrow> string" where
  "Args_getArg arg a = (case om_find (args a) arg of None \<Rightarrow> [] | Some vs \<Rightarrow> last vs)"

definition Args_getArgs :: "string \<Rightarrow> Args \<Rightarrow> string list" where
  "Args_getArgs arg a = (case om_find (args a) arg of None \<Rightarrow> [] | Some vs \<Rightarrow> vs)"

definition Args_getInt :: "string \<Rightarrow> Args \<Rightarrow> int" where
  "Args_getInt arg a = sint (word_of_int (strtoll (Args_getArg arg a)) :: u32)"

text \<open>\<^verbatim>\<open>std::stoul\<close> throws without digits or out of range, and the handler keeps 0.\<close>

definition Args_getSizeT :: "string \<Rightarrow> Args \<Rightarrow> u64" where
  "Args_getSizeT arg a =
     (case scan_int (Args_getArg arg a) of (neg, ds) \<Rightarrow>
        if ds = [] \<or> int (dval ds) > 18446744073709551615 then 0 else strtoull (Args_getArg arg a))"

definition Args_getUInt :: "string \<Rightarrow> Args \<Rightarrow> u32" where
  "Args_getUInt arg a =
     (let val = Args_getSizeT arg a in if val > 4294967295 then 4294967295 else ucast val)"

definition Args_getBool :: "string \<Rightarrow> Args \<Rightarrow> bool" where
  "Args_getBool arg a =
     (if \<not> Args_hasArg arg a then False
      else let value = Args_getArg arg a in
        if sint (word_of_int (strtoll value) :: u32) > 0 \<or> value = ''true'' \<or> value = ''t'' then True
        else let value = map tolower value in value = ''true'' \<or> value = ''t'')"

definition Args_addArg :: "string \<Rightarrow> string \<Rightarrow> arg_ptr \<Rightarrow> Args \<Rightarrow> Args" where
  "Args_addArg arg value ptr a =
     a\<lparr>args := om_put arg (Args_getArgs arg a @ [value]) (args a),
       originals := om_put arg
         ((case om_find (originals a) arg of None \<Rightarrow> [] | Some ps \<Rightarrow> ps) @ [ptr]) (originals a)\<rparr>"

text \<open>Masking overwrites the first character of each remembered value in place.  A write to the
  literal is undefined, here \<open>None\<close>; writing the terminator of an empty string changes nothing.\<close>

fun mask_ptrs :: "arg_ptr list \<Rightarrow> string list \<Rightarrow> string list option" where
  "mask_ptrs [] argv = Some argv"
| "mask_ptrs (Literal # ps) argv = None"
| "mask_ptrs (ArgvAt i # ps) argv =
     (if i < length argv then mask_ptrs ps (argv[i := []]) else None)"

definition Args_maskArg :: "string \<Rightarrow> Args \<Rightarrow> string list \<Rightarrow> string list option" where
  "Args_maskArg arg a argv =
     (case om_find (originals a) arg of None \<Rightarrow> Some argv | Some ps \<Rightarrow> mask_ptrs ps argv)"

record ArgParser =
  order :: "string list"
  shortArgs :: "(char, string) omap"
  descriptions :: "(string, string) omap"
  switches :: "string list"

definition ArgParser_new :: ArgParser where
  "ArgParser_new = \<lparr>order = [], shortArgs = om_empty, descriptions = om_empty, switches = []\<rparr>"

definition ArgParser_addParam_long :: "string \<Rightarrow> string \<Rightarrow> ArgParser \<Rightarrow> ArgParser" where
  "ArgParser_addParam_long param description x =
     x\<lparr>order := order x @ [param], descriptions := om_put param description (descriptions x)\<rparr>"

definition ArgParser_addParam :: "char \<Rightarrow> string \<Rightarrow> string \<Rightarrow> ArgParser \<Rightarrow> ArgParser" where
  "ArgParser_addParam shortcut param description x =
     x\<lparr>order := order x @ [param],
       shortArgs := om_put shortcut param (shortArgs x),
       descriptions := om_put param description (descriptions x)\<rparr>"

definition ArgParser_addSwitch_long :: "string \<Rightarrow> string \<Rightarrow> ArgParser \<Rightarrow> ArgParser" where
  "ArgParser_addSwitch_long flag description x =
     x\<lparr>order := order x @ [flag],
       descriptions := om_put flag description (descriptions x),
       switches := List.insert flag (switches x)\<rparr>"

definition ArgParser_addSwitch :: "char \<Rightarrow> string \<Rightarrow> string \<Rightarrow> ArgParser \<Rightarrow> ArgParser" where
  "ArgParser_addSwitch shortcut flag description x =
     x\<lparr>order := order x @ [flag],
       shortArgs := om_put shortcut flag (shortArgs x),
       descriptions := om_put flag description (descriptions x),
       switches := List.insert flag (switches x)\<rparr>"

definition ArgParser_addCategory :: "string \<Rightarrow> ArgParser \<Rightarrow> ArgParser" where
  "ArgParser_addCategory category x = x\<lparr>order := order x @ [category]\<rparr>"

text \<open>The name a token stands for: \<open>None\<close> where the loop reports it and goes on.\<close>

definition ArgParser_flag :: "ArgParser \<Rightarrow> string \<Rightarrow> string option" where
  "ArgParser_flag x tk =
     (if take 2 tk = ''--'' then Some (drop 2 tk)
      else if length tk = 2 \<and> hd tk = CHR ''-'' then om_find (shortArgs x) (tk ! 1)
      else None)"

fun ArgParser_loop :: "ArgParser \<Rightarrow> nat \<Rightarrow> string list \<Rightarrow> Args \<Rightarrow> Args" where
  "ArgParser_loop x pos [] a = a"
| "ArgParser_loop x pos (t # ts) a =
     (case ArgParser_flag x t of
        None \<Rightarrow> ArgParser_loop x (pos + 1) ts a
      | Some tk \<Rightarrow>
          if tk = ''help'' then ArgParser_loop x (pos + 1) ts (Args_setError a)
          else if om_find (descriptions x) tk = None then ArgParser_loop x (pos + 1) ts (Args_setError a)
          else if tk \<in> set (switches x) then
            ArgParser_loop x (pos + 1) ts (Args_addArg tk ''1'' Literal a)
          else case ts of
              [] \<Rightarrow> ArgParser_loop x (pos + 1) [] (Args_setError a)
            | v # ts' \<Rightarrow> ArgParser_loop x (pos + 2) ts' (Args_addArg tk v (ArgvAt (pos + 1)) a))"

text \<open>The help text, in the order the parameters were added.\<close>

definition printDesc :: "nat \<Rightarrow> string \<Rightarrow> string" where
  "printDesc pos desc = replicate (40 - pos) CHR '' '' @ desc @ [CHR 0x0A]"

fun printDescs :: "nat \<Rightarrow> string list \<Rightarrow> string" where
  "printDescs pos [] = []"
| "printDescs pos (l # ls) = printDesc pos l @ printDescs 0 ls"

definition ArgParser_shortcut :: "ArgParser \<Rightarrow> string \<Rightarrow> char option" where
  "ArgParser_shortcut x param = map_option fst (List.find (\<lambda>p. snd p = param) (shortArgs x))"

definition printParam :: "ArgParser \<Rightarrow> string \<Rightarrow> string option" where
  "printParam x param =
     (case om_find (descriptions x) param of
        None \<Rightarrow> Some ([CHR 0x0A] @ param @ [CHR 0x0A])
      | Some desc \<Rightarrow>
          (let intro = ''    '' @ (case ArgParser_shortcut x param of None \<Rightarrow> [] | Some c \<Rightarrow>
                                    if c = CHR 0x00 then [] else [CHR ''-'', c, CHR '' '']) @
                       ''--'' @ param @ (if param \<in> set (switches x) then [] else '' <Value>'')
           in map_option (\<lambda>lines. intro @ printDescs (length intro) lines)
                (DelimitedString_fromString id desc (CHR 0x0A))))"

fun printParams :: "ArgParser \<Rightarrow> string list \<Rightarrow> string option" where
  "printParams x [] = Some []"
| "printParams x (p # ps) =
     do { a \<leftarrow> printParam x p; b \<leftarrow> printParams x ps; Some (a @ b) }"

definition ArgParser_printHelp :: "ArgParser \<Rightarrow> string option" where
  "ArgParser_printHelp x =
     map_option (\<lambda>t. ''Usage:'' @ [CHR 0x0A, CHR 0x0A] @ ''General'' @ [CHR 0x0A] @ ''    --help'' @
                      printDesc 10 ''This help menu'' @ t)
       (printParams x (order x))"

definition ArgParser_parse :: "ArgParser \<Rightarrow> string list option \<Rightarrow> Args option" where
  "ArgParser_parse x argv =
     (case argv of
        None \<Rightarrow> Some Args_new
      | Some av \<Rightarrow>
          let a = ArgParser_loop x 1 (tl av) Args_new
          in if Args_hasError a then map_option (\<lambda>_. a) (ArgParser_printHelp x) else Some a)"

section \<open>Delimited strings\<close>

lemma str_find_None_iff: "str_find str c start = None \<longleftrightarrow> c \<notin> set (drop start str)"
proof -
  have "length (takeWhile (\<lambda>x. x \<noteq> c) l) < length l \<longleftrightarrow> c \<in> set l" for l
    by (induction l) auto
  then show ?thesis by (simp add: str_find_def Let_def)
qed

lemma str_find_here: "start < length str \<Longrightarrow> str ! start = c \<Longrightarrow> str_find str c start = Some start"
  by (simp add: str_find_def Let_def Cons_nth_drop_Suc [symmetric])

lemma str_find_SomeD: "str_find str c start = Some p \<Longrightarrow> p < length str \<and> str ! p = c"
proof -
  assume *: "str_find str c start = Some p"
  let ?n = "length (takeWhile (\<lambda>x. x \<noteq> c) (drop start str))"
  from * have n: "?n < length (drop start str)" "p = start + ?n"
    by (auto simp: str_find_def Let_def split: if_splits)
  then have "drop start str ! ?n = c"
    using nth_length_takeWhile [of "\<lambda>x. x \<noteq> c" "drop start str"] by simp
  with n show ?thesis by simp
qed

lemma fromString_loop_stuck:
  assumes "fromString_loop elem str delimiter startPos pos ret = Some r"
  shows "startPos < length str \<longrightarrow> pos = Some q \<longrightarrow> q < length str \<longrightarrow> str ! q = delimiter \<longrightarrow> False"
proof (rule fromString_loop.raw_induct [OF _ assms])
  fix loop :: "(string \<Rightarrow> 'a) \<Rightarrow> string \<Rightarrow> char \<Rightarrow> nat \<Rightarrow> nat option \<Rightarrow> 'a list \<Rightarrow> 'a list option"
    and elem :: "string \<Rightarrow> 'a" and str delimiter startPos pos ret r
  assume IH: "\<And>elem str delimiter startPos pos ret r. loop elem str delimiter startPos pos ret = Some r \<Longrightarrow>
      startPos < length str \<longrightarrow> pos = Some q \<longrightarrow> q < length str \<longrightarrow> str ! q = delimiter \<longrightarrow> False"
    and step: "(if startPos < length str then
        let p = (case pos of None \<Rightarrow> length str | Some q \<Rightarrow> q);
            ret' = ret @ [elem (take (p - startPos) (drop startPos str))]
        in loop elem str delimiter p (str_find str delimiter p) ret'
      else Some ret) = Some r"
  show "startPos < length str \<longrightarrow> pos = Some q \<longrightarrow> q < length str \<longrightarrow> str ! q = delimiter \<longrightarrow> False"
  proof (intro impI)
    assume *: "startPos < length str" "pos = Some q" "q < length str" "str ! q = delimiter"
    with step have
      "loop elem str delimiter q (Some q) (ret @ [elem (take (q - startPos) (drop startPos str))]) = Some r"
      by (simp add: Let_def str_find_here)
    from IH [OF this] * show False by simp
  qed
qed

lemma fromString_value:
  "DelimitedString_fromString elem str delimiter =
     (if delimiter \<in> set str then None else Some (if str = [] then [] else [elem str]))"
proof (cases "delimiter \<in> set str")
  case True
  then obtain q where q: "str_find str delimiter 0 = Some q"
    using str_find_None_iff [of str delimiter 0] by fastforce
  from True have "0 < length str" by (cases str) auto
  then have "fromString_loop elem str delimiter 0 (Some q) [] \<noteq> Some r" for r
    using fromString_loop_stuck [of elem str delimiter 0 "Some q" "[]" r q] str_find_SomeD [OF q]
    by auto
  with True q show ?thesis
    by (simp add: DelimitedString_fromString_def) (metis option.exhaust)
next
  case False
  then have "str_find str delimiter n = None" for n
    by (simp add: str_find_None_iff) (meson in_set_dropD)
  with False show ?thesis
    by (simp add: DelimitedString_fromString_def fromString_loop.simps [of elem str delimiter 0]
        fromString_loop.simps [of elem str delimiter "length str"])
qed

text \<open>
  Splitting a string never returns when the delimiter occurs in it, because the scan
  restarts on the delimiter it has just found; otherwise the result is the whole string, or
  nothing for the empty string.
\<close>

theorem DelimitedString_returns_iff:
  "DelimitedString_fromString elem str delimiter =
     (if delimiter \<in> set str then None else Some (if str = [] then [] else [elem str]))"
  by (rule fromString_value)

section \<open>Errors\<close>

lemma ErrorStatus_extend_code [simp]: "errorCode (ErrorStatus_extend f msg x) = errorCode x"
  by (simp add: ErrorStatus_extend_def Let_def split: option.splits)

lemma isOk_new [simp]: "isOk Details_new"
  by (simp add: isOk_def Details_new_def ErrorStatus_new_def)

lemma isOk_setError [simp]: "isOk (setError code field msg d) \<longleftrightarrow> msg = []"
  by (simp add: isOk_def setError_def ErrorStatus_set_def)

lemma isOk_extendError [simp]: "isOk (extendError field msg d) \<longleftrightarrow> isOk d \<and> msg = []"
  by (simp add: isOk_def extendError_def ErrorStatus_extend_def Let_def)

lemma Level_roundtrip [roundtrip]: "Level_from_string (Level_to_string l) = l"
  by (cases l) (simp_all add: Level_from_string_def toupper_def)

text \<open>
  Adding context to an error keeps its code, leaves the previous message as the tail of the new
  one, and can never turn a failed operation into a good one.
\<close>

theorem extendError_keeps_error:
  "errorCode (extendError field msg d) = errorCode d \<and>
   (\<exists>ctx. errorStr (extendError field msg d) = ctx @ errorStr d) \<and>
   (isOk (extendError field msg d) \<longleftrightarrow> isOk d \<and> msg = [])"
  by (auto simp: extendError_def ErrorStatus_extend_def Let_def isOk_def)

definition LogArgs_initCmdLineParams :: "ArgParser \<Rightarrow> ArgParser" where
  "LogArgs_initCmdLineParams parser =
     (let parser = ArgParser_addCategory ''Logging'' parser;
          parser = ArgParser_addSwitch_long ''log-console'' ''Log to console'' parser;
          parser = ArgParser_addParam_long ''log-file'' ''Log to a specific file'' parser;
          parser = ArgParser_addParam_long ''log-file-size''
                     (''Maximum size (in KB) for log file'' @ [CHR 0x0A] @ ''0=Don't log to file'') parser;
          parser = ArgParser_addSwitch_long ''log-debug'' ''Log debug information'' parser;
          parser = ArgParser_addSwitch CHR ''v'' ''log-verbose'' ''Log verbose information'' parser
      in ArgParser_addSwitch_long ''log-localtime'' ''Log using local time (default: UTC)'' parser)"

section \<open>Command lines\<close>

text \<open>A well-formed command line is a list of options with a value and of switches, all of them
  registered.\<close>

datatype arg_item = Opt string string | Sw string

fun render :: "arg_item \<Rightarrow> string list" where
  "render (Opt n v) = [''--'' @ n, v]"
| "render (Sw n) = [''--'' @ n]"

fun item_ok :: "ArgParser \<Rightarrow> arg_item \<Rightarrow> bool" where
  "item_ok x (Opt n v) = (n \<noteq> ''help'' \<and> om_find (descriptions x) n \<noteq> None \<and> n \<notin> set (switches x))"
| "item_ok x (Sw n) = (n \<noteq> ''help'' \<and> om_find (descriptions x) n \<noteq> None \<and> n \<in> set (switches x))"

fun item_values :: "string \<Rightarrow> arg_item \<Rightarrow> string list" where
  "item_values n (Opt m v) = (if m = n then [v] else [])"
| "item_values n (Sw m) = (if m = n then [''1''] else [])"

fun item_mask :: "string \<Rightarrow> arg_item \<Rightarrow> arg_item" where
  "item_mask n (Opt m v) = Opt m (if m = n then [] else v)"
| "item_mask n (Sw m) = Sw m"

fun item_ptrs :: "string \<Rightarrow> nat \<Rightarrow> arg_item list \<Rightarrow> arg_ptr list" where
  "item_ptrs n pos [] = []"
| "item_ptrs n pos (Opt m v # its) = (if m = n then [ArgvAt (pos + 1)] else []) @ item_ptrs n (pos + 2) its"
| "item_ptrs n pos (Sw m # its) = (if m = n then [Literal] else []) @ item_ptrs n (pos + 1) its"

definition arg_ptrs :: "string \<Rightarrow> Args \<Rightarrow> arg_ptr list" where
  "arg_ptrs n a = (case om_find (originals a) n of None \<Rightarrow> [] | Some ps \<Rightarrow> ps)"

lemma Args_getArgs_addArg:
  "Args_getArgs n (Args_addArg m v ptr a) = Args_getArgs n a @ (if n = m then [v] else [])"
  by (simp add: Args_getArgs_def Args_addArg_def om_map_simps)

lemma arg_ptrs_addArg: "arg_ptrs n (Args_addArg m v ptr a) = arg_ptrs n a @ (if n = m then [ptr] else [])"
  by (simp add: arg_ptrs_def Args_addArg_def om_map_simps)

lemma bError_addArg [simp]: "bError (Args_addArg m v ptr a) = bError a"
  by (simp add: Args_addArg_def)

lemma ArgParser_flag_long [simp]: "ArgParser_flag x (CHR ''-'' # CHR ''-'' # n) = Some n"
  by (simp add: ArgParser_flag_def)

lemma ArgParser_loop_item:
  "item_ok x (Opt n v) \<Longrightarrow>
     ArgParser_loop x pos (render (Opt n v) @ ts) a = ArgParser_loop x (pos + 2) ts (Args_addArg n v (ArgvAt (pos + 1)) a)"
  "item_ok x (Sw n) \<Longrightarrow>
     ArgParser_loop x pos (render (Sw n) @ ts) a = ArgParser_loop x (pos + 1) ts (Args_addArg n ''1'' Literal a)"
  by auto

lemma ArgParser_loop_items_all:
  "list_all (item_ok x) its \<Longrightarrow>
     bError (ArgParser_loop x pos (concat (map render its)) a) = bError a \<and>
     Args_getArgs n (ArgParser_loop x pos (concat (map render its)) a) =
       Args_getArgs n a @ concat (map (item_values n) its) \<and>
     arg_ptrs n (ArgParser_loop x pos (concat (map render its)) a) = arg_ptrs n a @ item_ptrs n pos its"
proof (induction n pos its arbitrary: a rule: item_ptrs.induct)
  case (2 n pos m v its)
  then have "item_ok x (Opt m v)" "list_all (item_ok x) its" by simp_all
  with "2.IH" show ?case
    by (simp only: list.map concat.simps ArgParser_loop_item) (simp add: Args_getArgs_addArg arg_ptrs_addArg)
next
  case (3 n pos m its)
  then have "item_ok x (Sw m)" "list_all (item_ok x) its" by simp_all
  with "3.IH" show ?case
    by (simp only: list.map concat.simps ArgParser_loop_item) (simp add: Args_getArgs_addArg arg_ptrs_addArg)
qed simp

lemma ArgParser_loop_items:
  assumes "list_all (item_ok x) its"
  shows "bError (ArgParser_loop x pos (concat (map render its)) a) = bError a"
    and "Args_getArgs n (ArgParser_loop x pos (concat (map render its)) a) =
           Args_getArgs n a @ concat (map (item_values n) its)"
    and "arg_ptrs n (ArgParser_loop x pos (concat (map render its)) a) = arg_ptrs n a @ item_ptrs n pos its"
  using ArgParser_loop_items_all [OF assms] by blast+

lemma mask_item_ptrs:
  "Sw n \<notin> set its \<Longrightarrow>
   mask_ptrs (item_ptrs n (length pre) its) (pre @ concat (map render its)) =
     Some (pre @ concat (map (render \<circ> item_mask n) its))"
proof (induction n "length pre" its arbitrary: pre rule: item_ptrs.induct)
  case (2 n m v its)
  have "mask_ptrs (item_ptrs n (length pre + 2) its) ((pre @ [''--'' @ m, w]) @ concat (map render its)) =
      Some ((pre @ [''--'' @ m, w]) @ concat (map (render \<circ> item_mask n) its))" for w
    using "2.hyps" [of "pre @ [''--'' @ m, w]"] "2.prems" by simp
  from this [of "[]"] this [of v] show ?case
    by (cases "m = n") (simp_all add: list_update_append)
next
  case (3 n m its)
  with "3.hyps" [of "pre @ [''--'' @ m]"] show ?case by auto
qed simp

lemma mask_ptrs_Literal: "Literal \<in> set ps \<Longrightarrow> mask_ptrs ps argv = None"
  by (induction ps argv rule: mask_ptrs.induct) auto

lemma Literal_item_ptrs: "Literal \<in> set (item_ptrs n pos its) \<longleftrightarrow> Sw n \<in> set its"
  by (induction n pos its rule: item_ptrs.induct) auto

lemma maskArg_arg_ptrs: "Args_maskArg n a argv = mask_ptrs (arg_ptrs n a) argv"
  by (simp add: Args_maskArg_def arg_ptrs_def split: option.splits)

text \<open>
  Claim C33.  A well-formed command line parses without error, and every option then lists exactly its values
  in the order they were given.
\<close>

theorem ArgParser_parse_render:
  assumes "list_all (item_ok x) its"
  shows "\<exists>a. ArgParser_parse x (Some (prog # concat (map render its))) = Some a \<and>
     \<not> Args_hasError a \<and> (\<forall>n. Args_getArgs n a = concat (map (item_values n) its))"
proof -
  let ?a = "ArgParser_loop x 1 (concat (map render its)) Args_new"
  have "\<not> bError ?a"
    by (simp only: ArgParser_loop_items(1) [OF assms]) (simp add: Args_new_def)
  moreover have "Args_getArgs n ?a = concat (map (item_values n) its)" for n
    by (simp only: ArgParser_loop_items(2) [OF assms])
      (simp add: Args_new_def Args_getArgs_def om.find_empty)
  ultimately show ?thesis
    by (simp add: ArgParser_parse_def Args_hasError_def Let_def)
qed

text \<open>
  Masking an option of a parsed command line blanks every value given to it and leaves the rest of
  \<^verbatim>\<open>argv\<close> alone; masking a switch that was given writes to a string literal.
\<close>

theorem Args_maskArg_blanks:
  assumes "list_all (item_ok x) its"
    and "ArgParser_parse x (Some (prog # concat (map render its))) = Some a"
  shows "Args_maskArg n a (prog # concat (map render its)) =
     (if Sw n \<in> set its then None else Some (prog # concat (map (render \<circ> item_mask n) its)))"
proof -
  have a: "a = ArgParser_loop x 1 (concat (map render its)) Args_new"
    using assms(2) ArgParser_loop_items(1) [OF assms(1), of 1 Args_new]
    by (simp add: ArgParser_parse_def Args_hasError_def Args_new_def)
  then have ptrs: "arg_ptrs n a = item_ptrs n 1 its"
    using ArgParser_loop_items(3) [OF assms(1), of n]
    by (simp add: arg_ptrs_def Args_new_def om.find_empty)
  show ?thesis
    using mask_item_ptrs [of n its "[prog]"] mask_ptrs_Literal [of "item_ptrs n 1 its"]
    by (auto simp: maskArg_arg_ptrs ptrs Literal_item_ptrs)
qed

definition demo_parser :: ArgParser where
  "demo_parser = ArgParser_addSwitch_long ''debug'' ''Debug'' (ArgParser_addParam CHR ''w'' ''wallet'' ''File'' ArgParser_new)"

lemma demo_items: "list_all (item_ok demo_parser) [Opt ''wallet'' ''secret'', Sw ''debug'']"
  by code_simp

lemma demo_parses:
  "\<exists>a. ArgParser_parse demo_parser (Some (''prog'' # concat (map render [Opt ''wallet'' ''secret'', Sw ''debug'']))) = Some a"
  using ArgParser_loop_items(1) [OF demo_items, of 1 Args_new]
  by (simp add: ArgParser_parse_def Args_hasError_def Args_new_def)

text \<open>The command line \<^verbatim>\<open>prog --wallet secret --debug\<close>.\<close>

theorem ArgParser_parse_render_witness:
  "\<exists>a. ArgParser_parse demo_parser (Some (''prog'' # concat (map render [Opt ''wallet'' ''secret'', Sw ''debug'']))) = Some a \<and>
     \<not> Args_hasError a \<and>
     Args_getArgs ''wallet'' a = [''secret''] \<and> Args_getArgs ''debug'' a = [''1'']"
  using ArgParser_parse_render [OF demo_items, of "''prog''"] by fastforce

theorem Args_maskArg_blanks_witness:
  "\<exists>a. ArgParser_parse demo_parser (Some (''prog'' # concat (map render [Opt ''wallet'' ''secret'', Sw ''debug'']))) = Some a \<and>
     Args_maskArg ''wallet'' a [''prog'', ''--wallet'', ''secret'', ''--debug''] =
       Some [''prog'', ''--wallet'', [], ''--debug'']"
proof -
  obtain a where a: "ArgParser_parse demo_parser
      (Some (''prog'' # concat (map render [Opt ''wallet'' ''secret'', Sw ''debug'']))) = Some a"
    using demo_parses by blast
  from Args_maskArg_blanks [OF demo_items a, of "''wallet''"] a show ?thesis by simp
qed

section \<open>Help\<close>

lemmas ArgParser_edit_defs =
  ArgParser_addParam_def ArgParser_addParam_long_def ArgParser_addSwitch_def ArgParser_addSwitch_long_def
  ArgParser_addCategory_def

lemma printParams_Some_iff:
  "(\<exists>t. printParams x ps = Some t) \<longleftrightarrow> (\<forall>p \<in> set ps. printParam x p \<noteq> None)"
  by (induction ps) (auto split: bind_splits)

text \<open>
  Claim C34.  The help screen is printed exactly when no registered description contains a line break; with
  one, it never returns, and neither does parsing a command line that has an error.
\<close>

theorem ArgParser_printHelp_returns_iff:
  "(ArgParser_printHelp x \<noteq> None \<longleftrightarrow>
     (\<forall>p desc. p \<in> set (order x) \<and> om_find (descriptions x) p = Some desc \<longrightarrow> CHR 0x0A \<notin> set desc)) \<and>
   (ArgParser_printHelp x = None \<longrightarrow>
      (ArgParser_parse x (Some (prog # argv)) = None \<longleftrightarrow> bError (ArgParser_loop x 1 argv Args_new)))"
proof -
  have "printParam x p = None \<longleftrightarrow> (\<exists>desc. om_find (descriptions x) p = Some desc \<and> CHR 0x0A \<in> set desc)" for p
    by (cases "om_find (descriptions x) p")
      (simp_all add: printParam_def fromString_value)
  then show ?thesis
    using printParams_Some_iff [of x "order x"]
    by (auto simp: ArgParser_printHelp_def ArgParser_parse_def Args_hasError_def Let_def)
qed

text \<open>The command line \<^verbatim>\<open>prog --help\<close> with the logging parameters of the services.\<close>

theorem ArgParser_printHelp_returns_iff_witness:
  "ArgParser_printHelp (LogArgs_initCmdLineParams ArgParser_new) = None \<and>
   ArgParser_parse (LogArgs_initCmdLineParams ArgParser_new) (Some [''prog'', ''--help'']) = None"
proof -
  have "''log-file-size'' \<in> set (order (LogArgs_initCmdLineParams ArgParser_new))"
    "\<exists>d. om_find (descriptions (LogArgs_initCmdLineParams ArgParser_new)) ''log-file-size'' = Some d \<and> CHR 0x0A \<in> set d"
    by (simp_all add: LogArgs_initCmdLineParams_def ArgParser_edit_defs ArgParser_new_def om_map_simps)
  moreover have "bError (ArgParser_loop (LogArgs_initCmdLineParams ArgParser_new) 1 [''--help''] Args_new)"
    by (simp add: Args_setError_def)
  ultimately show ?thesis
    using ArgParser_printHelp_returns_iff [of "LogArgs_initCmdLineParams ArgParser_new" "''prog''" "[''--help'']"] by blast
qed

end
