(* ===== verification/FC_Db.thy ===== *)
theory FC_Db
  imports FC_Utils
begin

unbundle bit_operations_syntax

text \<open>
  The database layer: \<^verbatim>\<open>db/Binary\<close> (binary literals in SQL text), \<^verbatim>\<open>db/priv/ResultImpl\<close> and
  \<^verbatim>\<open>db/result/DataResult\<close> (reading rows), \<^verbatim>\<open>db/Session\<close> and \<^verbatim>\<open>db/Database\<close> (transactions).

  A libpq result is the record of what its accessor functions answer; a null result answers with
  no rows and no columns.  Reading a value as a wider type than its bytes is \<open>None\<close>.  The ozo
  client is a record of its operations on a database state of any type, each with the error text
  it reports.
\<close>

section \<open>Model\<close>

subsection \<open>Binary literals\<close>

definition isBinary :: "byte \<Rightarrow> bool" where
  "isBinary uc = (uc < 0x20 \<or> uc > 0x7E \<or> uc = char_byte CHR 0x27 \<or> uc = char_byte CHR 0x5C)"

text \<open>The directive \<^verbatim>\<open>%03o\<close> on a byte.\<close>

definition octal3 :: "byte \<Rightarrow> string" where
  "octal3 uc = [digit_char (unat uc div 64), digit_char (unat uc div 8 mod 8), digit_char (unat uc mod 8)]"

definition Binary_encode_char :: "byte \<Rightarrow> string" where
  "Binary_encode_char uc =
     (if \<not> isBinary uc then [byte_char uc] else [CHR 0x5C, CHR 0x5C] @ octal3 uc)"

definition Binary_encodedLen :: "bytes \<Rightarrow> nat" where
  "Binary_encodedLen data = 9 + length data + length (filter isBinary data) * 4"

definition Binary_encode :: "bytes \<Rightarrow> string" where
  "Binary_encode data = [CHR 0x27] @ concat (map Binary_encode_char data) @ [CHR 0x27] @ ''::bytea''"

subsection \<open>Columns\<close>

datatype Oid = INT2OID | INT4OID | INT8OID | BOOLOID | CHAROID | TEXTOID | VARCHAROID | OTHEROID nat

record pg_result =
  PQcmdTuples :: "string option"
  PQnfields :: int
  PQntuples :: int
  PQgetvalue :: "int \<Rightarrow> int \<Rightarrow> bytes"
  PQgetisnull :: "int \<Rightarrow> int \<Rightarrow> bool"
  PQftype :: "int \<Rightarrow> Oid"

record ResultCol =
  rcCol :: int
  rcRow :: int
  rcNumCols :: int
  rcNumRows :: int
  rcResult :: pg_result

definition ResultCol_new :: "pg_result \<Rightarrow> ResultCol" where
  "ResultCol_new result =
     \<lparr>rcCol = 0, rcRow = 0, rcNumCols = PQnfields result, rcNumRows = PQntuples result, rcResult = result\<rparr>"

definition ResultCol_setCol :: "int \<Rightarrow> int \<Rightarrow> ResultCol \<Rightarrow> ResultCol" where
  "ResultCol_setCol row col x = x\<lparr>rcRow := row, rcCol := col\<rparr>"

definition rc_outside :: "ResultCol \<Rightarrow> bool" where
  "rc_outside x = (rcRow x \<ge> rcNumRows x \<or> rcCol x \<ge> rcNumCols x)"

definition rc_value :: "ResultCol \<Rightarrow> bytes" where
  "rc_value x = PQgetvalue (rcResult x) (rcRow x) (rcCol x)"

definition rc_missing :: "ResultCol \<Rightarrow> bool" where
  "rc_missing x = (rc_value x = [] \<or> PQgetisnull (rcResult x) (rcRow x) (rcCol x))"

definition ResultCol_data :: "ResultCol \<Rightarrow> bytes" where
  "ResultCol_data x = (if rc_outside x then [] else if rc_missing x then [] else rc_value x)"

text \<open>\<^verbatim>\<open>memcpy\<close> of \<open>n\<close> bytes into an integer of a little-endian machine.\<close>

definition load_le :: "nat \<Rightarrow> bytes \<Rightarrow> nat option" where
  "load_le n d = (if n \<le> length d then Some (foldr (\<lambda>b acc. unat b + 256 * acc) (take n d) 0) else None)"

definition ntohll :: "u64 \<Rightarrow> u64" where
  "ntohll value =
     (drop_bit 56 (value AND 0xFF00000000000000) OR
      drop_bit 40 (value AND 0x00FF000000000000) OR
      drop_bit 24 (value AND 0x0000FF0000000000) OR
      drop_bit 8 (value AND 0x000000FF00000000) OR
      push_bit 8 (value AND 0x00000000FF000000) OR
      push_bit 24 (value AND 0x0000000000FF0000) OR
      push_bit 40 (value AND 0x000000000000FF00) OR
      push_bit 56 (value AND 0x00000000000000FF))"

definition ntohl :: "u32 \<Rightarrow> u32" where
  "ntohl v = (drop_bit 24 v OR (drop_bit 8 v AND 0xFF00) OR (push_bit 8 v AND 0xFF0000) OR push_bit 24 v)"

definition ntohs :: "u16 \<Rightarrow> u16" where
  "ntohs v = (drop_bit 8 v OR push_bit 8 v)"

text \<open>Text columns go through \<^verbatim>\<open>str()\<close>, which for them is the raw value.\<close>

definition ResultCol_Int64 :: "ResultCol \<Rightarrow> int option" where
  "ResultCol_Int64 x =
     (if rc_outside x then Some 0
      else if rc_missing x then Some 0
      else case PQftype (rcResult x) (rcCol x) of
        INT8OID \<Rightarrow> map_option (\<lambda>v. sint (ntohll (of_nat v))) (load_le 8 (rc_value x))
      | CHAROID \<Rightarrow> map_option (\<lambda>v. sint (ntohll (of_nat v))) (load_le 8 (rc_value x))
      | INT2OID \<Rightarrow> map_option (\<lambda>v. uint (ntohs (of_nat v))) (load_le 1 (rc_value x))
      | INT4OID \<Rightarrow> map_option (\<lambda>v. uint (ntohl (of_nat v))) (load_le 4 (rc_value x))
      | BOOLOID \<Rightarrow> map_option (\<lambda>v. if v \<noteq> 0 then 1 else 0) (load_le 1 (rc_value x))
      | VARCHAROID \<Rightarrow> Some (from_string_i64 (bytes_string (rc_value x)))
      | TEXTOID \<Rightarrow> Some (from_string_i64 (bytes_string (rc_value x)))
      | OTHEROID _ \<Rightarrow> Some 0)"

definition ResultCol_str :: "ResultCol \<Rightarrow> string option" where
  "ResultCol_str x =
     (if rc_outside x then Some []
      else if rc_missing x then Some []
      else case PQftype (rcResult x) (rcCol x) of
        INT2OID \<Rightarrow> map_option to_string_int (ResultCol_Int64 x)
      | INT4OID \<Rightarrow> map_option to_string_int (ResultCol_Int64 x)
      | INT8OID \<Rightarrow> map_option to_string_int (ResultCol_Int64 x)
      | BOOLOID \<Rightarrow> map_option (\<lambda>v. if v \<noteq> 0 then ''1'' else ''0'') (ResultCol_Int64 x)
      | CHAROID \<Rightarrow> Some (bytes_string (rc_value x))
      | TEXTOID \<Rightarrow> Some (bytes_string (rc_value x))
      | VARCHAROID \<Rightarrow> Some (bytes_string (rc_value x))
      | OTHEROID _ \<Rightarrow> Some [])"

definition ResultCol_UInt32 :: "ResultCol \<Rightarrow> u32 option" where
  "ResultCol_UInt32 x =
     (if rc_outside x then Some 0
      else map_option (\<lambda>val. if val < 0 then 0 else if val > 4294967295 then 4294967295 else word_of_int val)
             (ResultCol_Int64 x))"

definition ResultCol_UInt64 :: "ResultCol \<Rightarrow> u64 option" where
  "ResultCol_UInt64 x =
     (if rc_outside x then Some 0
      else map_option (\<lambda>val. if val < 0 then 0 else word_of_int val) (ResultCol_Int64 x))"

definition ResultCol_Int32 :: "ResultCol \<Rightarrow> int option" where
  "ResultCol_Int32 x =
     (if rc_outside x then Some 0
      else map_option (\<lambda>val. if val < - 2147483648 then - 2147483648
                            else if val > 2147483647 then 2147483647 else val) (ResultCol_Int64 x))"

definition ResultCol_boolean :: "ResultCol \<Rightarrow> bool option" where
  "ResultCol_boolean x =
     (if rc_outside x then Some False
      else if rc_missing x then Some False
      else case PQftype (rcResult x) (rcCol x) of
        INT8OID \<Rightarrow> map_option (\<lambda>v. v \<noteq> 0) (ResultCol_UInt64 x)
      | CHAROID \<Rightarrow> map_option (\<lambda>v. v \<noteq> 0) (ResultCol_UInt64 x)
      | INT2OID \<Rightarrow> map_option (\<lambda>v. v \<noteq> 0) (ResultCol_UInt64 x)
      | INT4OID \<Rightarrow> map_option (\<lambda>v. v \<noteq> 0) (ResultCol_UInt64 x)
      | BOOLOID \<Rightarrow> map_option (\<lambda>v. v \<noteq> 0) (load_le 1 (rc_value x))
      | VARCHAROID \<Rightarrow> Some (from_string_bool (bytes_string (rc_value x)))
      | TEXTOID \<Rightarrow> Some (from_string_bool (bytes_string (rc_value x)))
      | OTHEROID _ \<Rightarrow> Some False)"

definition ResultCol_null :: "ResultCol \<Rightarrow> bool" where
  "ResultCol_null x = (if rc_outside x then True else PQgetisnull (rcResult x) (rcRow x) (rcCol x))"

subsection \<open>Rows\<close>

record ResultRow =
  rrResult :: pg_result
  rrCol :: ResultCol
  rrNumRows :: int
  curRow :: int

definition ResultRow_new :: "pg_result \<Rightarrow> ResultRow" where
  "ResultRow_new result =
     \<lparr>rrResult = result, rrCol = ResultCol_new result, rrNumRows = PQntuples result, curRow = 0\<rparr>"

definition ResultRow_bool :: "ResultRow \<Rightarrow> bool" where
  "ResultRow_bool x = (rrNumRows x > 0 \<and> curRow x < rrNumRows x)"

definition ResultRow_inc :: "ResultRow \<Rightarrow> ResultRow" where
  "ResultRow_inc x = x\<lparr>curRow := curRow x + 1\<rparr>"

text \<open>Indexing a row moves its one column object there, and clamps a negative row.\<close>

definition ResultRow_at :: "nat \<Rightarrow> ResultRow \<Rightarrow> ResultRow" where
  "ResultRow_at pos x =
     (let x = (if curRow x < 0 then x\<lparr>curRow := 0\<rparr> else x)
      in x\<lparr>rrCol := ResultCol_setCol (curRow x) (sint (of_nat pos :: u32)) (rrCol x)\<rparr>)"

definition ResultImpl_getNumResults :: "ResultRow \<Rightarrow> nat" where
  "ResultImpl_getNumResults x =
     (let rows = PQntuples (rrResult x) in if rows > 0 then nat rows else 0)"

definition ResultImpl_next :: "ResultRow \<Rightarrow> ResultRow" where
  "ResultImpl_next x = ResultRow_inc x"

text \<open>A data result without data reads as the null row, here \<open>None\<close>.  The state after \<^verbatim>\<open>next\<close> is the
  state before it: the method asks for the current row.\<close>

type_synonym DataResult = "ResultRow option"

definition DataResult_getNumResults :: "DataResult \<Rightarrow> nat" where
  "DataResult_getNumResults r = (case r of None \<Rightarrow> 0 | Some x \<Rightarrow> ResultImpl_getNumResults x)"

definition nullRow_bool :: bool where
  "nullRow_bool = False"

definition DataResult_cur :: "DataResult \<Rightarrow> DataResult" where
  "DataResult_cur r = r"

definition DataResult_next :: "DataResult \<Rightarrow> bool \<times> DataResult" where
  "DataResult_next r = ((case r of None \<Rightarrow> nullRow_bool | Some x \<Rightarrow> ResultRow_bool x), r)"

definition DataResult_col :: "nat \<Rightarrow> DataResult \<Rightarrow> ResultCol option" where
  "DataResult_col pos r = map_option (\<lambda>x. rrCol (ResultRow_at pos x)) r"

definition DataResult_UInt32 :: "nat \<Rightarrow> DataResult \<Rightarrow> u32 option" where
  "DataResult_UInt32 pos r = (case DataResult_col pos r of None \<Rightarrow> Some 0 | Some c \<Rightarrow> ResultCol_UInt32 c)"

definition DataResult_data :: "nat \<Rightarrow> DataResult \<Rightarrow> bytes" where
  "DataResult_data pos r = (case DataResult_col pos r of None \<Rightarrow> [] | Some c \<Rightarrow> ResultCol_data c)"

subsection \<open>Sessions\<close>

record ('h, 'd) ozo =
  ozo_empty :: 'h
  ozo_null :: "'h \<Rightarrow> bool"
  ozo_begin :: "'d \<Rightarrow> string option \<times> 'h \<times> 'd"
  ozo_get_connection :: "'d \<Rightarrow> string option \<times> 'h \<times> 'd"
  ozo_request :: "'h \<Rightarrow> string \<Rightarrow> 'd \<Rightarrow> string option \<times> pg_result \<times> 'h \<times> 'd"
  ozo_commit :: "'h \<Rightarrow> 'd \<Rightarrow> string option \<times> 'd"
  ozo_drop :: "'h \<Rightarrow> 'd \<Rightarrow> 'd"

datatype Mode = MdNone | MdConnection | MdTransaction

record 'h SessionImpl =
  mode :: Mode
  connection :: 'h
  transaction :: 'h

definition SessionImpl_new :: "('h, 'd) ozo \<Rightarrow> 'h SessionImpl" where
  "SessionImpl_new oz = \<lparr>mode = MdNone, connection = ozo_empty oz, transaction = ozo_empty oz\<rparr>"

definition isTransaction :: "'h SessionImpl \<Rightarrow> bool" where
  "isTransaction impl = (mode impl = MdTransaction)"

type_synonym 'h Session = "'h SessionImpl option"

text \<open>The destructor reports an unfinished transaction and gives the handles back to the client.\<close>

definition Session_destroy :: "('h, 'd) ozo \<Rightarrow> 'h Session \<Rightarrow> 'd \<Rightarrow> 'd" where
  "Session_destroy oz s d =
     (case s of None \<Rightarrow> d | Some impl \<Rightarrow> ozo_drop oz (connection impl) (ozo_drop oz (transaction impl) d))"

definition getAffectedRows :: "pg_result \<Rightarrow> nat" where
  "getAffectedRows result =
     (let affectedRows = (case PQcmdTuples result of Some sz \<Rightarrow> from_string_i32 sz | None \<Rightarrow> 0)
      in if affectedRows > 0 then nat affectedRows else 0)"

definition Session_commit ::
  "('h, 'd) ozo \<Rightarrow> 'h Session \<Rightarrow> Details \<Rightarrow> 'd \<Rightarrow> 'h Session \<times> Details \<times> 'd"
where
  "Session_commit oz s det d =
     (if (case s of None \<Rightarrow> True | Some impl \<Rightarrow> ozo_null oz (transaction impl))
      then (None, setError EcInternalError ''commit'' ''No database session active.'' det, d)
      else case ozo_commit oz (transaction (the s)) d of
          (Some e, d') \<Rightarrow>
            (None, setError EcDatabaseError ''query'' (''Failed to finalize database session: '' @ e @ ''.'') det, d')
        | (None, d') \<Rightarrow> (None, det, d'))"

definition Session_request ::
  "('h, 'd) ozo \<Rightarrow> string \<Rightarrow> 'h SessionImpl \<Rightarrow> Details \<Rightarrow> 'd \<Rightarrow>
     (bool \<times> pg_result) \<times> 'h SessionImpl \<times> Details \<times> 'd"
where
  "Session_request oz query impl det d =
     (case ozo_request oz (if isTransaction impl then transaction impl else connection impl) query d of
        (ec, result, h, d') \<Rightarrow>
          ((ec = None, result),
           (if isTransaction impl then impl\<lparr>transaction := h\<rparr> else impl\<lparr>connection := h\<rparr>),
           (case ec of None \<Rightarrow> det
            | Some e \<Rightarrow> setError EcDatabaseError ''query'' (''Failed to query database: '' @ e @ ''.'') det),
           d'))"

definition Session_query ::
  "('h, 'd) ozo \<Rightarrow> string \<Rightarrow> 'h Session \<Rightarrow> Details \<Rightarrow> 'd \<Rightarrow> nat \<times> 'h Session \<times> Details \<times> 'd"
where
  "Session_query oz query s det d =
     (case s of
        None \<Rightarrow> (0, None, setError EcNotConnected ''db_session'' ''Database session not initialized.'' det, d)
      | Some impl \<Rightarrow>
          (case Session_request oz query impl det d of
             ((ok, result), impl', det', d') \<Rightarrow>
               ((if ok then getAffectedRows result else 0), Some impl', det', d')))"

definition Session_select ::
  "('h, 'd) ozo \<Rightarrow> string \<Rightarrow> 'h Session \<Rightarrow> Details \<Rightarrow> 'd \<Rightarrow> DataResult \<times> 'h Session \<times> Details \<times> 'd"
where
  "Session_select oz query s det d =
     (case s of
        None \<Rightarrow> (None, None, setError EcNotConnected ''db_session'' ''Database session not initialized.'' det, d)
      | Some impl \<Rightarrow>
          (case Session_request oz query impl det d of
             ((_, result), impl', det', d') \<Rightarrow>
               ((if isOk det' then Some (ResultRow_new result) else None), Some impl', det', d')))"

text \<open>A database is connected or not.\<close>

definition Database_newSession ::
  "('h, 'd) ozo \<Rightarrow> bool \<Rightarrow> Details \<Rightarrow> 'd \<Rightarrow> 'h Session \<times> Details \<times> 'd"
where
  "Database_newSession oz connected det d =
     (if \<not> connected then (None, setError EcNotConnected ''new_session'' ''Database is not connected.'' det, d)
      else case ozo_begin oz d of
          (Some e, _, d') \<Rightarrow>
            (None, setError EcConnectError ''new_session'' (''Failed to start database transaction: '' @ e @ ''.'') det, d')
        | (None, h, d') \<Rightarrow>
            (Some ((SessionImpl_new oz)\<lparr>transaction := h, mode := MdTransaction\<rparr>), det, d'))"

definition Database_newReadOnlySession ::
  "('h, 'd) ozo \<Rightarrow> bool \<Rightarrow> Details \<Rightarrow> 'd \<Rightarrow> 'h Session \<times> Details \<times> 'd"
where
  "Database_newReadOnlySession oz connected det d =
     (if \<not> connected then (None, setError EcNotConnected ''new_session'' ''Database is not connected.'' det, d)
      else case ozo_get_connection oz d of
          (Some e, _, d') \<Rightarrow>
            (None, setError EcConnectError ''new_session'' (''Failed to connect to database: '' @ e) det, d')
        | (None, conn, d') \<Rightarrow>
            (Some ((SessionImpl_new oz)\<lparr>connection := conn, mode := MdConnection\<rparr>), det, d'))"

section \<open>Binary literals\<close>

lemma unat_byte_less: "unat (b :: byte) < 256"
  by (rule less_le_trans [OF unsigned_less]) simp

lemma length_Binary_encode_char: "length (Binary_encode_char uc) = (if isBinary uc then 5 else 1)"
  by (simp add: Binary_encode_char_def octal3_def)

lemma length_Binary_encode [simp]: "length (Binary_encode data) = Binary_encodedLen data"
proof -
  have "length (concat (map Binary_encode_char data)) = length data + length (filter isBinary data) * 4"
    by (induction data) (simp_all add: length_Binary_encode_char)
  then show ?thesis by (simp add: Binary_encode_def Binary_encodedLen_def)
qed

text \<open>A byte is recovered from its text, and the two forms differ in their first character.\<close>

fun Binary_scan :: "string \<Rightarrow> bytes" where
  "Binary_scan (a # b # c # d # e # s) =
     (if a = CHR 0x5C then of_nat (digit_val c * 64 + digit_val d * 8 + digit_val e) # Binary_scan s
      else char_byte a # Binary_scan (b # c # d # e # s))"
| "Binary_scan (a # s) = char_byte a # Binary_scan s"
| "Binary_scan [] = []"

lemma Binary_scan_plain: "a \<noteq> CHR 0x5C \<Longrightarrow> Binary_scan (a # s) = char_byte a # Binary_scan s"
  by (cases s rule: remdups_adj.cases; simp)
     (metis Binary_scan.simps list.exhaust)+

lemma octal3_value:
  "digit_val (digit_char (unat (uc :: byte) div 64)) * 64 + digit_val (digit_char (unat uc div 8 mod 8)) * 8 +
     digit_val (digit_char (unat uc mod 8)) = unat uc" (is "?lhs = _")
proof -
  have "unat uc < 256" by (rule unat_byte_less)
  then have "unat uc div 64 < 10" "unat uc div 8 mod 8 < 10" "unat uc mod 8 < 10" by simp_all
  then have "?lhs = unat uc div 64 * 64 + unat uc div 8 mod 8 * 8 + unat uc mod 8" by simp
  moreover have "unat uc div 64 = unat uc div 8 div 8" by (simp add: div_mult2_eq [symmetric])
  ultimately show ?thesis
    using div_mult_mod_eq [of "unat uc div 8" 8] div_mult_mod_eq [of "unat uc" 8] by linarith
qed

lemma isBinary_char: "\<not> isBinary uc \<Longrightarrow> byte_char uc \<noteq> CHR 0x5C \<and> byte_char uc \<noteq> CHR 0x27"
  by (metis char_byte_byte_char isBinary_def)

lemma Binary_scan_encode: "Binary_scan (concat (map Binary_encode_char data)) = data"
proof (induction data)
  case (Cons uc data)
  show ?case
  proof (cases "isBinary uc")
    case True
    have "(of_nat (digit_val (digit_char (unat uc div 64)) * 64 + digit_val (digit_char (unat uc div 8 mod 8)) * 8 +
       digit_val (digit_char (unat uc mod 8))) :: byte) = uc"
      by (simp only: octal3_value of_nat_unat ucast_id)
    with True Cons show ?thesis by (simp add: Binary_encode_char_def octal3_def)
  next
    case False
    with Cons show ?thesis by (simp add: Binary_encode_char_def isBinary_char Binary_scan_plain)
  qed
qed simp

lemma digit_char_printable: "d < 8 \<Longrightarrow> of_char (digit_char d) \<in> {0x20..0x7E :: nat} \<and> digit_char d \<noteq> CHR 0x27"
proof -
  assume d: "d < 8"
  then have "of_char (digit_char d) = (48 + d :: nat)" by (simp add: digit_char_def)
  with d show ?thesis by auto
qed

lemma Binary_encode_char_clean:
  assumes "c \<in> set (Binary_encode_char uc)"
  shows "of_char c \<in> {0x20..0x7E :: nat} \<and> c \<noteq> CHR 0x27"
proof (cases "isBinary uc")
  case True
  have "unat uc < 256" by (rule unat_byte_less)
  then have d: "unat uc div 64 < 8" "unat uc div 8 mod 8 < 8" "unat uc mod 8 < 8" by simp_all
  from True assms consider "c = CHR 0x5C" | "c = digit_char (unat uc div 64)"
    | "c = digit_char (unat uc div 8 mod 8)" | "c = digit_char (unat uc mod 8)"
    by (auto simp: Binary_encode_char_def octal3_def)
  then show ?thesis
    by cases (simp_all only: digit_char_printable d simp_thms, simp)
next
  case False
  then have "0x20 \<le> uc" "uc \<le> 0x7E" by (auto simp: isBinary_def)
  then have "0x20 \<le> unat uc" "unat uc \<le> 0x7E" by (simp_all add: word_le_nat_alt)
  with False assms isBinary_char [of uc] show ?thesis
    by (auto simp: Binary_encode_char_def byte_char_def)
qed

text \<open>
  Claim C36.  The SQL literal of any byte string is a quoted body with no quote and no unprintable character in it,
  so data can never end the literal early; it is exactly as long as the space reserved for it,
  and different data give different literals.
\<close>

theorem Binary_encode_literal:
  "(\<exists>body. Binary_encode data = [CHR 0x27] @ body @ [CHR 0x27] @ ''::bytea'' \<and>
      (\<forall>c. c \<in> set body \<longrightarrow> of_char c \<in> {0x20..0x7E :: nat} \<and> c \<noteq> CHR 0x27)) \<and>
   length (Binary_encode data) = Binary_encodedLen data \<and>
   (Binary_encode data = Binary_encode data' \<longrightarrow> data = data')"
proof (intro conjI impI)
  have "\<forall>c. c \<in> set (concat (map Binary_encode_char data)) \<longrightarrow> of_char c \<in> {0x20..0x7E :: nat} \<and> c \<noteq> CHR 0x27"
    using Binary_encode_char_clean by auto
  then show "\<exists>body. Binary_encode data = [CHR 0x27] @ body @ [CHR 0x27] @ ''::bytea'' \<and>
      (\<forall>c. c \<in> set body \<longrightarrow> of_char c \<in> {0x20..0x7E :: nat} \<and> c \<noteq> CHR 0x27)"
    by (intro exI [of _ "concat (map Binary_encode_char data)"] conjI Binary_encode_def)
  show "length (Binary_encode data) = Binary_encodedLen data"
    by (rule length_Binary_encode)
  assume "Binary_encode data = Binary_encode data'"
  then have "concat (map Binary_encode_char data) = concat (map Binary_encode_char data')"
    by (simp add: Binary_encode_def)
  then show "data = data'"
    by (metis Binary_scan_encode)
qed

theorem Binary_encode_literal_witness:
  "(\<exists>body. Binary_encode [0x41, 0x27, 0] = [CHR 0x27] @ body @ [CHR 0x27] @ ''::bytea'' \<and>
      (\<forall>c. c \<in> set body \<longrightarrow> of_char c \<in> {0x20..0x7E :: nat} \<and> c \<noteq> CHR 0x27)) \<and>
   length (Binary_encode [0x41, 0x27, 0]) = 20"
  using Binary_encode_literal [of "[0x41, 0x27, 0]"]
  by (simp add: Binary_encodedLen_def isBinary_def char_byte_def)

section \<open>Network order\<close>

definition le_value :: "bytes \<Rightarrow> nat" where
  "le_value bs = foldr (\<lambda>b acc. unat b + 256 * acc) bs 0"

definition be_value :: "bytes \<Rightarrow> nat" where
  "be_value bs = le_value (rev bs)"

lemma le_value_simps: "le_value [] = 0" "le_value (b # bs) = unat b + 256 * le_value bs"
  by (simp_all add: le_value_def)

lemma le_value_less: "le_value bs < 256 ^ length bs"
proof (induction bs)
  case (Cons b bs)
  then have "le_value bs + 1 \<le> 256 ^ length bs" by simp
  then have "256 * (le_value bs + 1) \<le> 256 * 256 ^ length bs" by simp
  with unat_byte_less [of b] show ?case by (simp add: le_value_simps)
qed (simp add: le_value_simps)

lemma bit_le_value: "bit (le_value bs) n \<longleftrightarrow> n div 8 < length bs \<and> bit (bs ! (n div 8)) (n mod 8)"
proof (induction bs arbitrary: n)
  case (Cons b bs)
  have add: "le_value (b # bs) = unat b OR push_bit 8 (le_value bs)"
  proof -
    have "unat b AND push_bit 8 (le_value bs) = 0"
      by (rule bit_eqI) (auto simp: bit_and_iff bit_push_bit_iff bit_unsigned_iff dest: bit_imp_le_length)
    from disjunctive_add_eq_or [OF this] show ?thesis
      by (simp add: le_value_simps push_bit_eq_mult)
  qed
  show ?case
  proof (cases "n < 8")
    case True
    then show ?thesis by (simp add: add bit_or_iff bit_push_bit_iff bit_unsigned_iff)
  next
    case False
    then have "n div 8 = Suc ((n - 8) div 8)" "n mod 8 = (n - 8) mod 8" by (simp_all add: le_div_geq le_mod_geq)
    moreover have "\<not> bit (unat b) n" using False by (auto simp: bit_unsigned_iff dest: bit_imp_le_length)
    ultimately show ?thesis using False
      by (simp add: add bit_or_iff bit_push_bit_iff Cons.IH)
  qed
qed (simp add: le_value_simps)


lemma byte_position:
  assumes "n < 8 * (k :: nat)"
  obtains q r where "n = 8 * q + r" "r < 8" "q < k" "n div 8 = q" "n mod 8 = r"
  using that [of "n div 8" "n mod 8"] assms by (simp add: less_mult_imp_div_less mult.commute)

lemma ntohll_masks:
  "(0xFF00000000000000 :: u64) = push_bit 56 (mask 8)" "(0x00FF000000000000 :: u64) = push_bit 48 (mask 8)"
  "(0x0000FF0000000000 :: u64) = push_bit 40 (mask 8)" "(0x000000FF00000000 :: u64) = push_bit 32 (mask 8)"
  "(0x00000000FF000000 :: u64) = push_bit 24 (mask 8)" "(0x0000000000FF0000 :: u64) = push_bit 16 (mask 8)"
  "(0x000000000000FF00 :: u64) = push_bit 8 (mask 8)" "(0x00000000000000FF :: u64) = mask 8"
  by (simp_all add: mask_eq_decr_exp push_bit_eq_mult)

lemma bit_ntohll: "n < 64 \<Longrightarrow> bit (ntohll v) n \<longleftrightarrow> bit v ((7 - n div 8) * 8 + n mod 8)"
proof -
  assume "n < 64"
  then obtain q r where n: "n = 8 * q + r" "r < 8" "q < 8" "n div 8 = q" "n mod 8 = r"
    using byte_position [of n 8] by auto
  then have "q = 0 \<or> q = 1 \<or> q = 2 \<or> q = 3 \<or> q = 4 \<or> q = 5 \<or> q = 6 \<or> q = 7" by auto
  moreover have "bit (ntohll v) (8 * q + r) \<longleftrightarrow> bit v ((7 - q) * 8 + r)" if "r < 8"
    using that calculation by (elim disjE) (simp_all add: ntohll_def ntohll_masks bit_simps)
  ultimately show ?thesis using n by simp
qed

lemma ntohl_masks: "(0xFF00 :: u32) = push_bit 8 (mask 8)" "(0xFF0000 :: u32) = push_bit 16 (mask 8)"
  by (simp_all add: mask_eq_decr_exp push_bit_eq_mult)

lemma bit_ntohl: "n < 32 \<Longrightarrow> bit (ntohl v) n \<longleftrightarrow> bit v ((3 - n div 8) * 8 + n mod 8)"
proof -
  assume "n < 32"
  then obtain q r where n: "n = 8 * q + r" "r < 8" "q < 4" "n div 8 = q" "n mod 8 = r"
    using byte_position [of n 4] by auto
  then have "q = 0 \<or> q = 1 \<or> q = 2 \<or> q = 3" by auto
  moreover have "\<not> bit v k" if "32 \<le> k" for k
    using that by (auto dest: bit_imp_le_length)
  moreover have "bit (ntohl v) (8 * q + r) \<longleftrightarrow> bit v ((3 - q) * 8 + r)" if "r < 8"
    using that calculation by (elim disjE) (simp_all add: ntohl_def ntohl_masks bit_simps)
  ultimately show ?thesis using n by simp
qed

lemma flip_less:
  "(7 - q) * 8 + n mod 8 < (64 :: nat)" "7 - q < (8 :: nat)"
  "(3 - q) * 8 + n mod 8 < (32 :: nat)" "3 - q < (4 :: nat)"
proof -
  have "n mod 8 < (8 :: nat)" by simp
  then show "(7 - q) * 8 + n mod 8 < (64 :: nat)" "(3 - q) * 8 + n mod 8 < (32 :: nat)"
    by (auto simp: diff_mult_distrib)
qed auto

lemma ntohll_le_value: "length bs = 8 \<Longrightarrow> ntohll (of_nat (le_value bs)) = of_nat (be_value bs)"
  by (rule bit_word_eqI) (simp add: bit_ntohll bit_of_nat_iff bit_le_value be_value_def rev_nth div_less_iff_less_mult flip_less)

lemma ntohl_le_value: "length bs = 4 \<Longrightarrow> ntohl (of_nat (le_value bs)) = of_nat (be_value bs)"
  by (rule bit_word_eqI) (simp add: bit_ntohl bit_of_nat_iff bit_le_value be_value_def rev_nth div_less_iff_less_mult flip_less)

lemma load_le_value: "load_le n d = (if n \<le> length d then Some (le_value (take n d)) else None)"
  by (simp add: load_le_def le_value_def)

lemma be_value_less: "be_value bs < 256 ^ length bs"
  using le_value_less [of "rev bs"] by (simp add: be_value_def)

lemma ntohs_byte: "uint (ntohs (ucast (b :: byte))) = 256 * uint b"
proof -
  have "ntohs (ucast b) = push_bit 8 (ucast b)"
    by (rule bit_word_eqI) (auto simp: ntohs_def bit_simps dest: bit_imp_le_length)
  moreover have "uint b < 256" using unsigned_less [of b] by simp
  ultimately show ?thesis
    by (simp add: unsigned_push_bit_eq take_bit_int_eq_self unsigned_ucast_eq push_bit_eq_mult [of 8 "uint b"]
        del: push_bit_numeral)
qed


text \<open>
  What the integer reader makes of the binary formats of the server, all of them big-endian: an
  eight-byte integer is read exactly, a four-byte integer is read as unsigned, so that a negative
  value comes out above \<open>2 ^ 31\<close>, and of a two-byte integer only the high byte is read.
\<close>

theorem ResultCol_Int64_network_order:
  assumes "\<not> rc_outside x" and "\<not> rc_missing x"
  shows "(PQftype (rcResult x) (rcCol x) = INT8OID \<longrightarrow> length (rc_value x) = 8 \<longrightarrow>
            ResultCol_Int64 x = Some (sint (of_nat (be_value (rc_value x)) :: u64))) \<and>
         (PQftype (rcResult x) (rcCol x) = INT4OID \<longrightarrow> length (rc_value x) = 4 \<longrightarrow>
            ResultCol_Int64 x = Some (int (be_value (rc_value x)))) \<and>
         (PQftype (rcResult x) (rcCol x) = INT2OID \<longrightarrow> length (rc_value x) = 2 \<longrightarrow>
            ResultCol_Int64 x = Some (256 * uint (rc_value x ! 0)))"
proof (intro conjI impI)
  assume "PQftype (rcResult x) (rcCol x) = INT8OID" "length (rc_value x) = 8"
  with assms show "ResultCol_Int64 x = Some (sint (of_nat (be_value (rc_value x)) :: u64))"
    by (simp add: ResultCol_Int64_def load_le_value ntohll_le_value)
next
  assume a: "PQftype (rcResult x) (rcCol x) = INT4OID" "length (rc_value x) = 4"
  then have "be_value (rc_value x) < 2 ^ 32"
    using be_value_less [of "rc_value x"] by simp
  then have "uint (of_nat (be_value (rc_value x)) :: u32) = int (be_value (rc_value x))"
    by (simp add: unsigned_of_nat take_bit_nat_eq_self)
  with a assms show "ResultCol_Int64 x = Some (int (be_value (rc_value x)))"
    by (simp add: ResultCol_Int64_def load_le_value ntohl_le_value)
next
  assume a: "PQftype (rcResult x) (rcCol x) = INT2OID" "length (rc_value x) = 2"
  then have "load_le 1 (rc_value x) = Some (unat (rc_value x ! 0))"
    by (cases "rc_value x") (simp_all add: load_le_value le_value_simps)
  with a assms show "ResultCol_Int64 x = Some (256 * uint (rc_value x ! 0))"
    by (simp add: ResultCol_Int64_def ntohs_byte)
qed

definition one_value :: "Oid \<Rightarrow> bytes \<Rightarrow> pg_result" where
  "one_value oid v =
     \<lparr>PQcmdTuples = None, PQnfields = 1, PQntuples = 1, PQgetvalue = (\<lambda>_ _. v), PQgetisnull = (\<lambda>_ _. False),
      PQftype = (\<lambda>_. oid)\<rparr>"

text \<open>The four-byte integer \<open>- 1\<close> and the two-byte integer \<open>5\<close>.\<close>

theorem ResultCol_Int64_network_order_witness:
  "ResultCol_Int64 (ResultCol_new (one_value INT4OID [255, 255, 255, 255])) = Some 4294967295 \<and>
   ResultCol_Int64 (ResultCol_new (one_value INT2OID [0, 5])) = Some 0"
  using ResultCol_Int64_network_order [of "ResultCol_new (one_value INT4OID [255, 255, 255, 255])"]
    ResultCol_Int64_network_order [of "ResultCol_new (one_value INT2OID [0, 5])"]
  by (simp add: ResultCol_new_def one_value_def rc_outside_def rc_missing_def rc_value_def be_value_def le_value_simps)

section \<open>Sessions\<close>

lemma Session_commit_closes [simp]: "fst (Session_commit oz s det d) = None"
  by (simp add: Session_commit_def split: prod.splits option.splits)

lemma Session_query_closed [simp]:
  "Session_query oz q None det d =
     (0, None, setError EcNotConnected ''db_session'' ''Database session not initialized.'' det, d)"
  by (simp add: Session_query_def)

lemma Session_request_error:
  assumes "Session_request oz q impl det d = ((ok, res), impl', det', d')"
  shows "ok \<Longrightarrow> det' = det" "\<not> ok \<Longrightarrow> \<not> isOk det'"
  using assms by (auto simp: Session_request_def split: prod.splits option.splits)

text \<open>
  Finishing a session closes it whether or not the commit succeeded, and the closed session rejects
  queries and selects with an error and without reaching the database.
\<close>

theorem Session_unusable_after_commit:
  assumes "Session_commit oz s det d = (s', det', d')"
  shows "s' = None \<and>
     (\<exists>det''. Session_query oz q s' det' d' = (0, None, det'', d') \<and> \<not> isOk det'' \<and> errorCode det'' = EcNotConnected) \<and>
     (\<exists>det''. Session_select oz q s' det' d' = (None, None, det'', d') \<and> \<not> isOk det'' \<and> errorCode det'' = EcNotConnected) \<and>
     (\<exists>det''. Session_commit oz s' det' d' = (None, det'', d') \<and> \<not> isOk det'' \<and> errorCode det'' = EcInternalError)"
proof -
  have "s' = None" using assms Session_commit_closes [of oz s det d] by simp
  then show ?thesis
    by (simp add: Session_select_def Session_commit_def setError_def ErrorStatus_set_def isOk_def)
qed

text \<open>A client whose every request succeeds and is remembered.\<close>

definition plain_ozo :: "(bool, string list) ozo" where
  "plain_ozo =
     \<lparr>ozo_empty = False, ozo_null = Not,
      ozo_begin = (\<lambda>d. (None, True, d @ [''BEGIN''])),
      ozo_get_connection = (\<lambda>d. (None, True, d)),
      ozo_request = (\<lambda>h q d. (None, \<lparr>PQcmdTuples = Some ''1'', PQnfields = 0, PQntuples = 0, PQgetvalue = (\<lambda>_ _. []),
          PQgetisnull = (\<lambda>_ _. True), PQftype = (\<lambda>_. TEXTOID)\<rparr>, h, d @ [q])),
      ozo_commit = (\<lambda>h d. (None, d @ [''COMMIT''])),
      ozo_drop = (\<lambda>h d. if h then d @ [''ROLLBACK''] else d)\<rparr>"

theorem Session_unusable_after_commit_witness:
  "\<exists>det''. Session_query plain_ozo ''SELECT 1'' None Details_new [''COMMIT''] = (0, None, det'', [''COMMIT'']) \<and> \<not> isOk det''"
  using Session_unusable_after_commit [of plain_ozo "Some \<lparr>mode = MdTransaction, connection = False, transaction = True\<rparr>"
      Details_new "[]" None Details_new "[''COMMIT'']" "''SELECT 1''"]
  by (simp add: Session_commit_def plain_ozo_def)

end
