(* ===== verification/FC_Curator.thy ===== *)
theory FC_Curator
  imports FC_Block FC_Address FC_Db
begin

text \<open>
  The curator service, first part: \<^verbatim>\<open>DbIntegrator\<close> takes one block into the database.

  The libraries the service calls are the fields of \<open>curator_env\<close>.  An operation gives \<open>None\<close> when
  it dereferences a null pointer, loops for ever, or runs off the end of a function that must
  return a value.  The lemmas relate the integrator to an abstract chain: a position and the hash
  the next reconciliation must commit to.
\<close>

section \<open>Model\<close>

record ('h, 'd, 'k, 'bn) curator_env =
  cOzo :: "('h, 'd) ozo"
  cConnected :: bool
  cSsl :: "'k openssl"
  cBn :: "'bn bn_ops"
  cLong :: "asn1_int \<Rightarrow> int"
  ci2d_Genesis :: "Genesis_st \<Rightarrow> bytes option"
  ci2d_ReconciliationContent :: "ReconciliationContent_st \<Rightarrow> bytes option"
  ci2d_Hash :: "Hash_st \<Rightarrow> bytes option"
  cd2i_Hash :: "bytes \<Rightarrow> Hash_st option"
  cd2i_Block :: "bytes \<Rightarrow> Block_st option"

subsection \<open>Database integration\<close>

datatype Result =
    RsNone | RsSuccess | RsNoDatabase | RsDatabaseError | RsInvalidState | RsInvalidIndex | RsDuplicate
  | RsBadBlock | RsNoMatch | RsNotReady | RsAlreadyDone

record ImportInfo =
  iBlock :: u32
  iHash :: Hash

definition ImportInfo_new :: ImportInfo where
  "ImportInfo_new = \<lparr>iBlock = 0, iHash = Hash_new\<rparr>"

record DbIntegrator =
  initialized :: bool
  currentRecon :: u32
  lastImports :: "(u32, ImportInfo) omap"

definition DbIntegrator_new :: DbIntegrator where
  "DbIntegrator_new = \<lparr>initialized = False, currentRecon = 0, lastImports = om_empty\<rparr>"

definition u32_text :: "u32 \<Rightarrow> string" where
  "u32_text n = dec (unat n)"

definition u64_text :: "u64 \<Rightarrow> string" where
  "u64_text n = dec (unat n)"

partial_function (option) init_loop ::
  "(bytes \<Rightarrow> Hash_st option) \<Rightarrow> DataResult \<Rightarrow> bool \<Rightarrow> DbIntegrator \<Rightarrow> Details \<Rightarrow>
     (Result option \<times> DbIntegrator \<times> Details) option"
where
  "init_loop d2i_Hash result first x det =
     (case DataResult_next result of (avail, r) \<Rightarrow>
        if \<not> avail then Some (None, x, det)
        else do {
          lastRecon \<leftarrow> DataResult_UInt32 0 (DataResult_cur r);
          if \<not> first \<and> currentRecon x \<noteq> lastRecon
          then Some (Some RsInvalidState, x,
                 setError EcArgumentInvalid ''dbintegrate_init''
                   (''Database state mismatches current reconciliation block ('' @ u32_text (currentRecon x) @
                    '' vs '' @ u32_text lastRecon @ '').'') det)
          else do {
            shard \<leftarrow> DataResult_UInt32 1 (DataResult_cur r);
            block \<leftarrow> DataResult_UInt32 2 (DataResult_cur r);
            let x = (if first then x\<lparr>currentRecon := lastRecon\<rparr> else x);
                info = (case om_find (lastImports x) shard of None \<Rightarrow> ImportInfo_new | Some i \<Rightarrow> i);
                hash = (case decode_Hash d2i_Hash (DataResult_data 3 (DataResult_cur r)) of
                          None \<Rightarrow> iHash info | Some h \<Rightarrow> h)
            in init_loop d2i_Hash r False
                 (x\<lparr>lastImports := om_put shard (info\<lparr>iBlock := block, iHash := hash\<rparr>) (lastImports x)\<rparr>) det
          }
        })"

text \<open>\<open>None\<close> is a loop that does not end.  Behind the loop \<^verbatim>\<open>init\<close> has no return statement; that branch is also
  written \<open>None\<close>, but it is never taken: with at least one row the loop does not end, see \<open>init_loop_no_exit\<close>.\<close>

definition DbIntegrator_init ::
  "('h, 'd, 'k, 'bn) curator_env \<Rightarrow> DbIntegrator \<Rightarrow> 'h Session \<Rightarrow> Details \<Rightarrow> 'd \<Rightarrow>
     (Result \<times> DbIntegrator \<times> 'h Session \<times> Details \<times> 'd) option"
where
  "DbIntegrator_init e x s det d =
     (case Session_select (cOzo e) ''SELECT reconciliation, shard, block, hash FROM imported_blocks'' s det d of
        (result, s, det, d) \<Rightarrow>
          if \<not> isOk det
          then Some (RsDatabaseError, x, s, extendError ''integrate_init'' ''Failed to select current import state.'' det, d)
          else if DataResult_getNumResults result = 0
          then Some (RsSuccess, x\<lparr>initialized := True\<rparr>, s, det, d)
          else do {
            (early, x, det) \<leftarrow>
              init_loop (cd2i_Hash e) result True (x\<lparr>currentRecon := 0, lastImports := om_empty\<rparr>) det;
            case early of
              Some ret \<Rightarrow> Some (ret, x, s, det, d)
            | None \<Rightarrow> None
          })"

text \<open>One statement and the check of its outcome.\<close>

definition query_or ::
  "('h, 'd) ozo \<Rightarrow> string \<Rightarrow> string \<Rightarrow> string \<Rightarrow> DbIntegrator \<Rightarrow> 'h Session \<Rightarrow> Details \<Rightarrow> 'd \<Rightarrow>
     ('h Session \<Rightarrow> Details \<Rightarrow> 'd \<Rightarrow> (Result \<times> DbIntegrator \<times> 'h Session \<times> Details \<times> 'd) option) \<Rightarrow>
     (Result \<times> DbIntegrator \<times> 'h Session \<times> Details \<times> 'd) option"
where
  "query_or oz query field msg x s det d k =
     (case Session_query oz query s det d of
        (_, s, det, d) \<Rightarrow>
          if \<not> isOk det then Some (RsDatabaseError, x, s, extendError field msg det, d)
          else k s det d)"

definition validator_join_sql :: "string \<Rightarrow> bytes \<Rightarrow> string" where
  "validator_join_sql creator validatorKey =
     ''INSERT INTO validator_joins '' @
     ''(transaction_id, coins, fluffs, validator_address, validator_pubkey, stake_wallet) '' @
     ''VALUES ('' @ [CHR 0x27] @ ''0'' @ [CHR 0x27] @ '', 1, 0, '' @ [CHR 0x27] @ creator @ [CHR 0x27] @ '', '' @
     Binary_encode validatorKey @ '', 1)''"

definition wallet_sql :: "Specie \<Rightarrow> string" where
  "wallet_sql greed =
     ''INSERT INTO wallets '' @ ''(id, coins, fluffs, staked_coins, staked_fluffs)'' @
     ''VALUES (1, '' @ u64_text (coins greed - 1) @ '', '' @ u32_text (fluffs greed) @ '', 1, 0)''"

definition wallet_address_sql :: "string \<Rightarrow> string" where
  "wallet_address_sql addr =
     ''INSERT INTO wallet_addresses '' @ ''(wallet_id, address, pubkey) '' @
     ''VALUES (1, '' @ [CHR 0x27] @ addr @ [CHR 0x27] @ '', NULL)''"

definition imported_sql :: "u32 \<Rightarrow> bytes \<Rightarrow> string" where
  "imported_sql recon hash =
     ''INSERT INTO imported_blocks '' @ ''(reconciliation, shard, block, hash) '' @
     ''VALUES ('' @ u32_text recon @ '',0,0,'' @ Binary_encode hash @ '')''"

definition integrateGenesis ::
  "('h, 'd, 'k, 'bn) curator_env \<Rightarrow> Block \<Rightarrow> DbIntegrator \<Rightarrow> 'h Session \<Rightarrow> Details \<Rightarrow> 'd \<Rightarrow>
     (Result \<times> DbIntegrator \<times> 'h Session \<times> Details \<times> 'd) option"
where
  "integrateGenesis e data x s det d =
     do { gen \<leftarrow> genesis data;
          creator \<leftarrow> Address_printable (cBn e) (gCreator gen);
          query_or (cOzo e) (validator_join_sql creator (gValidatorKey gen))
            ''import_genesis'' ''Failed to add creator validator join.'' x s det d (\<lambda>s det d.
          query_or (cOzo e) (wallet_sql (gGreed gen))
            ''import_genesis'' ''Failed to add creator wallet.'' x s det d (\<lambda>s det d.
          do { stake \<leftarrow> Address_printable (cBn e) (gStakeAddress gen);
          query_or (cOzo e) (wallet_address_sql stake)
            ''import_genesis'' ''Failed to add creator wallet address.'' x s det d (\<lambda>s det d.
          let asn1Hash = Hash_of (cSsl e) (Genesis_encode (ci2d_Genesis e) gen) in
          query_or (cOzo e) (imported_sql 0 (Hash_encode (ci2d_Hash e) asn1Hash))
            ''import_genesis'' ''Failed to update import state.'' x s det d (\<lambda>s det d.
          case Session_commit (cOzo e) s det d of (s, det, d) \<Rightarrow>
            Some (RsSuccess,
                  x\<lparr>currentRecon := 1,
                    lastImports := om_emplace 0 (ImportInfo_new\<lparr>iHash := asn1Hash\<rparr>) (lastImports x)\<rparr>,
                  s, det, d))) })) }"

text \<open>The loops over the shards of a reconciliation: \<open>None\<close> when they run to the end, otherwise the result
  they return and the error they set.\<close>

definition recon_error :: "string \<Rightarrow> Details \<Rightarrow> Details" where
  "recon_error msg = setError EcArgumentInvalid ''import_reconciliation'' msg"

fun integrate_shards ::
  "(u32, ImportInfo) omap \<Rightarrow> u32 \<Rightarrow> nat \<Rightarrow> ShardInfo list \<Rightarrow> (Result \<times> (Details \<Rightarrow> Details)) option"
where
  "integrate_shards imports recon ui [] = None"
| "integrate_shards imports recon ui (si # sis) =
     (let imp = om_find imports (of_nat ui);
          blocksImported = (case imp of None \<Rightarrow> 0 | Some i \<Rightarrow> iBlock i);
          prefix = ''Reconciliation block '' @ u32_text recon
      in if blocksImported < sBlocks si then Some (RsNotReady, id)
      else if blocksImported > sBlocks si then
        Some (RsBadBlock, recon_error (prefix @ '' expects '' @ u32_text (sBlocks si) @ '' blocks in shard '' @ dec ui @
          '' but '' @ u32_text blocksImported @ '' already imported.''))
      else if imp = None \<and> \<not> Hash_eq (sHash si) Hash_new then
        Some (RsBadBlock, recon_error (prefix @ '' null hash mismatch on shard '' @ dec ui @ ''.''))
      else if (case imp of None \<Rightarrow> False | Some i \<Rightarrow> \<not> Hash_eq (sHash si) (iHash i)) then
        Some (RsBadBlock, recon_error (prefix @ '' hash mismatch on shard '' @ dec ui @ ''.''))
      else integrate_shards imports recon (ui + 1) sis)"

fun integrateRecon_shards ::
  "(u32, ImportInfo) omap \<Rightarrow> nat \<Rightarrow> ShardInfo list \<Rightarrow> (Result \<times> (Details \<Rightarrow> Details)) option"
where
  "integrateRecon_shards imports shardIndex [] = None"
| "integrateRecon_shards imports shardIndex (si # sis) =
     (case om_find imports (of_nat shardIndex) of
        None \<Rightarrow> Some (RsNoMatch, recon_error (''Missing import for shard '' @ dec shardIndex @ ''.''))
      | Some importedInfo \<Rightarrow>
          if iBlock importedInfo \<noteq> sBlocks si then
            Some (RsNotReady, recon_error (''Reconciliation shard '' @ dec shardIndex @ '' expects '' @
              u32_text (sBlocks si) @ '' blocks but '' @ u32_text (iBlock importedInfo) @ '' imported.''))
          else if \<not> Hash_eq (iHash importedInfo) (sHash si) then
            Some (RsBadBlock, recon_error (''Reconciliation block shard hash mismatch for shard '' @ dec shardIndex @ ''.''))
          else integrateRecon_shards imports (shardIndex + 1) sis)"

definition integrateRecon ::
  "('h, 'd, 'k, 'bn) curator_env \<Rightarrow> Block \<Rightarrow> DbIntegrator \<Rightarrow> 'h Session \<Rightarrow> Details \<Rightarrow> 'd \<Rightarrow>
     (Result \<times> DbIntegrator \<times> 'h Session \<times> Details \<times> 'd) option"
where
  "integrateRecon e data x s det d =
     do { recon \<leftarrow> reconciliation data;
          if chainId recon \<noteq> currentRecon x then
            Some (RsBadBlock, x, s,
              recon_error (''Reconciliation chain ID '' @ u32_text (chainId recon) @ '' does not match metadata '' @
                u32_text (currentRecon x) @ ''.'') det, d)
          else if length (shardInfo recon) \<noteq> length (lastImports x) then
            Some (RsBadBlock, x, s,
              recon_error (''Reconciliation block shard hashes does not match ('' @ dec (length (shardInfo recon)) @
                '' vs '' @ dec (length (lastImports x)) @ '').'') det, d)
          else case integrateRecon_shards (lastImports x) 0 (shardInfo recon) of
            Some (ret, err) \<Rightarrow> Some (ret, x, s, err det, d)
          | None \<Rightarrow>
              query_or (cOzo e) ''TRUNCATE imported_blocks''
                ''truncate_imported_blocks'' ''Failed to clear imported_blocks table.'' x s det d (\<lambda>s det d.
              let asn1Hash = Hash_of (cSsl e) (Reconciliation_toContent (ci2d_ReconciliationContent e) recon) in
              query_or (cOzo e) (imported_sql (currentRecon x) (Hash_encode (ci2d_Hash e) asn1Hash))
                ''import_reconciliation'' ''Failed to update import state.'' x s det d (\<lambda>s det d.
              case Session_commit (cOzo e) s det d of (s, det, d) \<Rightarrow>
                Some (RsSuccess,
                      x\<lparr>currentRecon := currentRecon x + 1,
                        lastImports := om_emplace 0 (ImportInfo_new\<lparr>iHash := asn1Hash\<rparr>) om_empty\<rparr>,
                      s, det, d))) }"

definition integrateNode ::
  "('h, 'd, 'k, 'bn) curator_env \<Rightarrow> Block \<Rightarrow> u32 \<Rightarrow> u32 \<Rightarrow> DbIntegrator \<Rightarrow> 'h Session \<Rightarrow> Details \<Rightarrow> 'd \<Rightarrow>
     (Result \<times> DbIntegrator \<times> 'h Session \<times> Details \<times> 'd) option"
where
  "integrateNode e data shard block x s det d =
     do { _ \<leftarrow> node data;
          let lastBlock = (case om_find (lastImports x) shard of None \<Rightarrow> 0 | Some i \<Rightarrow> iBlock i) in
          if lastBlock \<ge> block then
            Some (RsAlreadyDone, x, s, setError EcArgumentInvalid ''import_node'' ''Block already integrated.'' det, d)
          else if lastBlock + 1 < block then Some (RsNotReady, x, s, det, d)
          else case Session_commit (cOzo e) s det d of (s, det, d) \<Rightarrow> Some (RsSuccess, x, s, det, d) }"

definition genesis_error :: "string \<Rightarrow> Details \<Rightarrow> Details" where
  "genesis_error msg = setError EcArgumentInvalid ''dbintegrate'' msg"

text \<open>The part of \<^verbatim>\<open>integrate\<close> after the session is open and the state is initialized.\<close>

definition integrate_block ::
  "('h, 'd, 'k, 'bn) curator_env \<Rightarrow> Block \<Rightarrow> u32 \<Rightarrow> u32 \<Rightarrow> u32 \<Rightarrow> DbIntegrator \<Rightarrow> 'h Session \<Rightarrow> Details \<Rightarrow> 'd \<Rightarrow>
     (Result \<times> DbIntegrator \<times> 'h Session \<times> Details \<times> 'd) option"
where
  "integrate_block e data recon shard block x s det d =
     (if recon > currentRecon x then Some (RsNotReady, x, s, det, d)
      else if recon < currentRecon x then Some (RsAlreadyDone, x, s, det, d)
      else if currentRecon x = 0 then
        if shard \<noteq> 0 then
          Some (RsInvalidIndex, x, s, genesis_error (''Invalid genesis block shard '' @ u32_text shard @ ''.'') det, d)
        else if block \<noteq> 0 then
          Some (RsBadBlock, x, s, genesis_error (''Invalid genesis block number '' @ u32_text block @ ''.'') det, d)
        else if bType data \<noteq> BtGenesis then
          Some (RsBadBlock, x, s,
            genesis_error (''Invalid genesis block type '' @ [CHR 0x27] @ Block_Type_to_string (bType data) @
              [CHR 0x27] @ ''.'') det, d)
        else integrateGenesis e data x s det d
      else if bType data = BtReconciliation then
        do { reconObj \<leftarrow> reconciliation data;
             case integrate_shards (lastImports x) recon 0 (shardInfo reconObj) of
               Some (ret, err) \<Rightarrow> Some (ret, x, s, err det, d)
             | None \<Rightarrow> integrateRecon e data x s det d }
      else if bType data \<noteq> BtNode then
        Some (RsBadBlock, x, s, genesis_error ''Invalid block type.'' det, d)
      else integrateNode e data shard block x s det d)"

definition DbIntegrator_integrate ::
  "('h, 'd, 'k, 'bn) curator_env \<Rightarrow> Block \<Rightarrow> u32 \<Rightarrow> u32 \<Rightarrow> u32 \<Rightarrow> DbIntegrator \<Rightarrow> Details \<Rightarrow> 'd \<Rightarrow>
     (Result \<times> DbIntegrator \<times> Details \<times> 'd) option"
where
  "DbIntegrator_integrate e data recon shard block x det d =
     (case Database_newSession (cOzo e) (cConnected e) det d of
        (s, det, d) \<Rightarrow>
          do { (ret, x, s, det, d) \<leftarrow>
                 (if \<not> isOk det then
                    Some (RsNoDatabase, x, s,
                      extendError ''dbintegrate_init'' ''Failed to create database session for block integration.'' det, d)
                  else if \<not> initialized x then
                    do { (status, x, s, det, d) \<leftarrow> DbIntegrator_init e x s det d;
                         if status \<noteq> RsSuccess then Some (status, x, s, det, d)
                         else integrate_block e data recon shard block x s det d }
                  else integrate_block e data recon shard block x s det d);
               Some (ret, x, det, Session_destroy (cOzo e) s d) })"

section \<open>The chain the integrator follows\<close>

text \<open>What the detailed integrator promises: a position in the chain and the hash that the next
  reconciliation must commit to.  A block is accepted at that position or not at all.\<close>

type_synonym chain = "u32 \<times> Hash option"

definition genesis_hash :: "('h, 'd, 'k, 'bn) curator_env \<Rightarrow> Genesis \<Rightarrow> Hash" where
  "genesis_hash e gen = Hash_of (cSsl e) (Genesis_encode (ci2d_Genesis e) gen)"

definition recon_hash :: "('h, 'd, 'k, 'bn) curator_env \<Rightarrow> Reconciliation \<Rightarrow> Hash" where
  "recon_hash e recon = Hash_of (cSsl e) (Reconciliation_toContent (ci2d_ReconciliationContent e) recon)"

definition chain_next :: "('h, 'd, 'k, 'bn) curator_env \<Rightarrow> Block \<Rightarrow> u32 \<Rightarrow> u32 \<Rightarrow> u32 \<Rightarrow> chain \<Rightarrow> chain option" where
  "chain_next e data recon shard block c =
     (case c of (cur, tip) \<Rightarrow>
        if recon \<noteq> cur then None
        else if cur = 0 then
          (case genesis data of
             Some gen \<Rightarrow> if shard = 0 \<and> block = 0 \<and> bType data = BtGenesis
                         then Some (1, Some (case tip of Some h \<Rightarrow> h | None \<Rightarrow> genesis_hash e gen)) else None
           | None \<Rightarrow> None)
        else if bType data = BtReconciliation then
          (case reconciliation data of
             Some rec \<Rightarrow> (case tip of
                 Some h \<Rightarrow> if chainId rec = cur \<and> shardInfo rec = [ShardInfo_make h 0]
                           then Some (cur + 1, Some (recon_hash e rec)) else None
               | None \<Rightarrow> None)
           | None \<Rightarrow> None)
        else if bType data = BtNode \<and> block = 1 then Some (cur, tip)
        else None)"

definition chain_of :: "DbIntegrator \<Rightarrow> chain" where
  "chain_of x = (currentRecon x, map_option iHash (om_find (lastImports x) 0))"

definition DbIntegrator_inv :: "DbIntegrator \<Rightarrow> bool" where
  "DbIntegrator_inv x \<longleftrightarrow>
     lastImports x = [] \<and> currentRecon x = 0 \<or> (\<exists>h. lastImports x = [(0, \<lparr>iBlock = 0, iHash = h\<rparr>)])"

lemma DbIntegrator_inv_new [keeps]: "DbIntegrator_inv DbIntegrator_new"
  by (simp add: DbIntegrator_inv_def DbIntegrator_new_def om_empty_def)

section \<open>Steps of the integrator\<close>

lemma query_or_cases:
  assumes "query_or oz q f m x s det d k = Some r"
  obtains s' det' d' where "r = (RsDatabaseError, x, s', det', d')"
  | s' det' d' where "k s' det' d' = Some r"
  using assms by (auto simp: query_or_def split: prod.splits if_splits)

lemma integrateGenesis_result:
  assumes "integrateGenesis e data x s det d = Some (ret, x', s', det', d')"
  obtains "ret = RsDatabaseError" "x' = x"
  | gen where "genesis data = Some gen" "ret = RsSuccess"
      "x' = x\<lparr>currentRecon := 1,
             lastImports := om_emplace 0 (ImportInfo_new\<lparr>iHash := genesis_hash e gen\<rparr>) (lastImports x)\<rparr>"
  using assms unfolding integrateGenesis_def
  by (auto split: bind_splits prod.splits simp: Let_def genesis_hash_def elim!: query_or_cases)

lemma integrateRecon_result:
  assumes "integrateRecon e data x s det d = Some (ret, x', s', det', d')"
  obtains "ret \<noteq> RsSuccess" "x' = x"
  | rec where "reconciliation data = Some rec" "ret = RsSuccess" "chainId rec = currentRecon x"
      "length (shardInfo rec) = length (lastImports x)"
      "integrateRecon_shards (lastImports x) 0 (shardInfo rec) = None"
      "x' = x\<lparr>currentRecon := currentRecon x + 1,
             lastImports := [(0, ImportInfo_new\<lparr>iHash := recon_hash e rec\<rparr>)]\<rparr>"
proof -
  have shards: "integrateRecon_shards m i sis = Some (r, f) \<Longrightarrow> r \<noteq> RsSuccess" for m i sis r f
    by (induction m i sis rule: integrateRecon_shards.induct) (auto split: option.splits if_splits)
  from assms show ?thesis
    using that shards unfolding integrateRecon_def
    by (auto split: bind_splits prod.splits if_splits option.splits
        simp: Let_def recon_hash_def om_emplace_def om_empty_def elim!: query_or_cases)
qed

definition lastBlock :: "DbIntegrator \<Rightarrow> u32 \<Rightarrow> u32" where
  "lastBlock x shard = (case om_find (lastImports x) shard of None \<Rightarrow> 0 | Some i \<Rightarrow> iBlock i)"

lemma integrateNode_result:
  assumes "integrateNode e data shard block x s det d = Some (ret, x', s', det', d')"
  shows "x' = x" "ret = RsSuccess \<Longrightarrow> block = lastBlock x shard + 1"
proof -
  have "lastBlock x shard < block \<Longrightarrow> \<not> lastBlock x shard + 1 < block \<Longrightarrow> block = lastBlock x shard + 1"
    by (meson antisym inc_le not_less)
  then show "x' = x" "ret = RsSuccess \<Longrightarrow> block = lastBlock x shard + 1"
    using assms unfolding integrateNode_def lastBlock_def [symmetric]
    by (auto split: bind_splits prod.splits if_splits simp: Let_def not_le)
qed

lemma integrate_shards_not_success: "integrate_shards m rc i sis = Some (r, f) \<Longrightarrow> r \<noteq> RsSuccess"
proof (induction sis arbitrary: i)
  case (Cons si sis)
  then show ?case by (auto simp: Let_def split: if_split_asm)
qed simp

lemma DbIntegrator_inv_lastBlock: "DbIntegrator_inv x \<Longrightarrow> lastBlock x shard = 0"
  by (auto simp: DbIntegrator_inv_def lastBlock_def om_find_Cons)

lemma single_shard_match:
  "length sis = Suc 0 \<Longrightarrow> integrateRecon_shards [(0, \<lparr>iBlock = 0, iHash = h\<rparr>)] 0 sis = None \<Longrightarrow>
     sis = [ShardInfo_make h 0]"
  by (cases sis) (auto simp: om_find_Cons Hash_eq_iff ShardInfo_make_def split: if_splits)

lemma integrate_block_step:
  assumes "integrate_block e data recon shard block x s det d = Some (ret, x', s', det', d')"
    and inv: "DbIntegrator_inv x"
  shows "DbIntegrator_inv x' \<and> initialized x' = initialized x \<and>
    (if ret = RsSuccess then chain_next e data recon shard block (chain_of x) = Some (chain_of x') else x' = x)"
proof -
  consider "x' = x" "ret \<noteq> RsSuccess"
    | (gen) "recon = currentRecon x" "currentRecon x = 0" "shard = 0" "block = 0" "bType data = BtGenesis"
        "integrateGenesis e data x s det d = Some (ret, x', s', det', d')"
    | (rec) "recon = currentRecon x" "currentRecon x \<noteq> 0" "bType data = BtReconciliation"
        "integrateRecon e data x s det d = Some (ret, x', s', det', d')"
    | (node) "recon = currentRecon x" "currentRecon x \<noteq> 0" "bType data = BtNode"
        "integrateNode e data shard block x s det d = Some (ret, x', s', det', d')"
    using assms(1) integrate_shards_not_success unfolding integrate_block_def
    by (auto split: if_splits bind_splits option.splits)
  then show ?thesis
  proof cases
    case gen
    from gen(6) show ?thesis
    proof (cases rule: integrateGenesis_result)
      case (2 g)
      with gen inv show ?thesis
        by (auto simp: DbIntegrator_inv_def chain_next_def chain_of_def om_emplace_def ImportInfo_new_def om_find_Cons)
    qed (use inv in simp)
  next
    case rec
    from rec(4) show ?thesis
    proof (cases rule: integrateRecon_result)
      case (2 r)
      from rec(2) inv obtain h where h: "lastImports x = [(0, \<lparr>iBlock = 0, iHash = h\<rparr>)]"
        by (auto simp: DbIntegrator_inv_def)
      with 2 have "shardInfo r = [ShardInfo_make h 0]"
        by (intro single_shard_match) simp_all
      with 2 rec h show ?thesis
        by (auto simp: DbIntegrator_inv_def chain_next_def chain_of_def ImportInfo_new_def om_find_Cons)
    qed (use inv in simp)
  next
    case node
    with inv integrateNode_result [OF node(4)] show ?thesis
      by (auto simp: chain_next_def chain_of_def DbIntegrator_inv_lastBlock)
  qed (use inv in simp)
qed

section \<open>Initialization\<close>

lemma init_loop_diverges:
  assumes "init_loop d2i result first x det = Some r"
  shows "result = Some row \<longrightarrow> ResultRow_bool row \<longrightarrow>
    (first \<or> DataResult_UInt32 0 result = Some (currentRecon x)) \<longrightarrow> False"
proof (rule init_loop.raw_induct [where xa = "((((d2i, result), first), x), det)", unfolded prod.case, OF _ assms])
  fix loop :: "(bytes \<Rightarrow> Hash_st option) \<Rightarrow> DataResult \<Rightarrow> bool \<Rightarrow> DbIntegrator \<Rightarrow> Details \<Rightarrow>
      (Result option \<times> DbIntegrator \<times> Details) option"
    and d2i result first x det r
  assume IH: "\<And>d2i result first x det r. loop d2i result first x det = Some r \<Longrightarrow>
      result = Some row \<longrightarrow> ResultRow_bool row \<longrightarrow>
      (first \<or> DataResult_UInt32 0 result = Some (currentRecon x)) \<longrightarrow> False"
    and step: "(case DataResult_next result of (avail, r) \<Rightarrow>
        if \<not> avail then Some (None, x, det)
        else do {
          lastRecon \<leftarrow> DataResult_UInt32 0 (DataResult_cur r);
          if \<not> first \<and> currentRecon x \<noteq> lastRecon
          then Some (Some RsInvalidState, x,
                 setError EcArgumentInvalid ''dbintegrate_init''
                   (''Database state mismatches current reconciliation block ('' @ u32_text (currentRecon x) @
                    '' vs '' @ u32_text lastRecon @ '').'') det)
          else do {
            shard \<leftarrow> DataResult_UInt32 1 (DataResult_cur r);
            block \<leftarrow> DataResult_UInt32 2 (DataResult_cur r);
            let x = (if first then x\<lparr>currentRecon := lastRecon\<rparr> else x);
                info = (case om_find (lastImports x) shard of None \<Rightarrow> ImportInfo_new | Some i \<Rightarrow> i);
                hash = (case decode_Hash d2i (DataResult_data 3 (DataResult_cur r)) of
                          None \<Rightarrow> iHash info | Some h \<Rightarrow> h)
            in loop d2i r False
                 (x\<lparr>lastImports := om_put shard (info\<lparr>iBlock := block, iHash := hash\<rparr>) (lastImports x)\<rparr>) det
          }
        }) = Some r"
  show "result = Some row \<longrightarrow> ResultRow_bool row \<longrightarrow>
      (first \<or> DataResult_UInt32 0 result = Some (currentRecon x)) \<longrightarrow> False"
  proof (intro impI)
    assume *: "result = Some row" "ResultRow_bool row"
      "first \<or> DataResult_UInt32 0 result = Some (currentRecon x)"
    with step obtain y where "loop d2i result False y det = Some r"
        "DataResult_UInt32 0 result = Some (currentRecon y)"
      by (cases first) (auto simp: DataResult_next_def DataResult_cur_def Let_def split: bind_splits)
    with IH [of d2i result False y det r] * show False by blast
  qed
qed

lemma init_loop_nonempty:
  assumes "DataResult_getNumResults (Some (ResultRow_new result)) \<noteq> 0"
  shows "init_loop d2i (Some (ResultRow_new result)) True x det = None"
proof -
  have "ResultRow_bool (ResultRow_new result)"
    using assms by (auto simp: ResultRow_bool_def ResultRow_new_def DataResult_getNumResults_def
        ResultImpl_getNumResults_def Let_def split: if_splits)
  then have "init_loop d2i (Some (ResultRow_new result)) True x det \<noteq> Some r" for r
    using init_loop_diverges [of d2i "Some (ResultRow_new result)" True x det r] by blast
  then show ?thesis by (meson option.exhaust)
qed

lemma init_loop_no_exit:
  assumes "DataResult_getNumResults (Some (ResultRow_new result)) \<noteq> 0"
  shows "init_loop d2i (Some (ResultRow_new result)) True x det \<noteq> Some (None, x', det')"
  using init_loop_nonempty [OF assms] by simp

text \<open>
  Claim C37.  A curator that starts on a database with at least one imported block never gets past its
  initialization: the loop over the result asks for the current row again and again.
\<close>

theorem DbIntegrator_init_never_returns:
  assumes "ozo_request (cOzo e) (transaction impl)
      ''SELECT reconciliation, shard, block, hash FROM imported_blocks'' d = (None, result, h, d')"
    and "isTransaction impl" and "isOk det" and "PQntuples result > 0"
  shows "DbIntegrator_init e x (Some impl) det d = None"
proof -
  have "DataResult_getNumResults (Some (ResultRow_new result)) \<noteq> 0"
    using assms(4) by (simp add: DataResult_getNumResults_def ResultImpl_getNumResults_def ResultRow_new_def)
  then show ?thesis
    using assms(1-3)
    by (simp add: DbIntegrator_init_def Session_select_def Session_request_def init_loop_nonempty)
qed

lemma DbIntegrator_init_result:
  assumes "DbIntegrator_init e x s det d = Some (status, x', s', det', d')"
  shows "status = RsSuccess \<and> x' = x\<lparr>initialized := True\<rparr> \<or> status \<noteq> RsSuccess \<and> x' = x"
proof -
  obtain result s1 det1 d1 where sel:
    "Session_select (cOzo e) ''SELECT reconciliation, shard, block, hash FROM imported_blocks'' s det d = (result, s1, det1, d1)"
    by (metis prod_cases4)
  then have "result = None \<or> (\<exists>r. result = Some (ResultRow_new r))"
    by (auto simp: Session_select_def split: option.splits prod.splits if_splits)
  with assms sel init_loop_nonempty show ?thesis
    by (auto simp: DbIntegrator_init_def DataResult_getNumResults_def split: if_splits bind_splits)
qed

text \<open>A database whose table holds one row.\<close>

definition used_ozo :: "(bool, string list) ozo" where
  "used_ozo = plain_ozo\<lparr>ozo_request := (\<lambda>h q d. (None,
     \<lparr>PQcmdTuples = None, PQnfields = 4, PQntuples = 1, PQgetvalue = (\<lambda>_ _. [0, 0, 0, 0]), PQgetisnull = (\<lambda>_ _. False),
      PQftype = (\<lambda>_. INT4OID)\<rparr>, h, d))\<rparr>"

definition demo_env :: "('h, 'd) ozo \<Rightarrow> ('h, 'd, bytes, nat) curator_env" where
  "demo_env oz =
     \<lparr>cOzo = oz, cConnected = True, cSsl = plain_openssl, cBn = nat_bn, cLong = ASN1_INTEGER_get,
      ci2d_Genesis = (\<lambda>_. Some [48]), ci2d_ReconciliationContent = (\<lambda>_. Some [49]), ci2d_Hash = (\<lambda>_. Some [50]),
      cd2i_Hash = (\<lambda>_. None), cd2i_Block = (\<lambda>_. None)\<rparr>"

theorem DbIntegrator_init_never_returns_witness:
  "DbIntegrator_init (demo_env used_ozo) DbIntegrator_new
     (Some \<lparr>mode = MdTransaction, connection = False, transaction = True\<rparr>) Details_new [] = None"
  by (rule DbIntegrator_init_never_returns, simp_all add: demo_env_def used_ozo_def plain_ozo_def isTransaction_def
        isOk_def Details_new_def ErrorStatus_new_def, simp)

section \<open>Integration follows the chain\<close>

lemma integrate_cases:
  assumes "DbIntegrator_integrate e data recon shard block x det d = Some (ret, x', det', d')"
  obtains "ret \<noteq> RsSuccess" "x' = x"
  | y s1 det1 d1 s2 d2 where "y = x \<or> y = x\<lparr>initialized := True\<rparr>"
      "integrate_block e data recon shard block y s1 det1 d1 = Some (ret, x', s2, det', d2)"
  using assms unfolding DbIntegrator_integrate_def
  by (fastforce split: prod.splits bind_splits if_splits dest: DbIntegrator_init_result)

lemma chain_of_initialized [simp]: "chain_of (x\<lparr>initialized := b\<rparr>) = chain_of x"
  by (simp add: chain_of_def)

lemma DbIntegrator_inv_initialized [simp]: "DbIntegrator_inv (x\<lparr>initialized := b\<rparr>) = DbIntegrator_inv x"
  by (simp add: DbIntegrator_inv_def)

lemma integrate_step:
  assumes "DbIntegrator_integrate e data recon shard block x det d = Some (ret, x', det', d')"
    and "DbIntegrator_inv x"
  shows "DbIntegrator_inv x' \<and>
    (if ret = RsSuccess then chain_next e data recon shard block (chain_of x) = Some (chain_of x')
     else chain_of x' = chain_of x)"
  using assms(1)
proof (cases rule: integrate_cases)
  case (2 y s1 det1 d1 s2 d2)
  have "chain_of y = chain_of x" "DbIntegrator_inv y"
    using 2(1) assms(2) by auto
  with integrate_block_step [OF 2(2)] show ?thesis by (auto split: if_splits)
qed (use assms(2) in simp)

text \<open>
  Claim C3.  Whatever the database answers, an integration that returns either reports something other than
  success and leaves the position in the chain alone, or it is a step of the chain: the genesis
  block first, then reconciliations in order, each committing to the hash of the one before.
\<close>

theorem DbIntegrator_refines_chain:
  assumes "DbIntegrator_integrate e data recon shard block x det d = Some (ret, x', det', d')"
    and "DbIntegrator_inv x"
  shows "DbIntegrator_inv x' \<and>
    (if ret = RsSuccess then chain_next e data recon shard block (chain_of x) = Some (chain_of x')
     else chain_of x' = chain_of x)"
  by (rule integrate_step [OF assms])

section \<open>A working database\<close>

text \<open>The client opens transactions and runs statements without an error, and a live handle stays
  live.  Nothing is asked of the commit, whose outcome the integrator does not look at.\<close>

definition db_works :: "('h, 'd) ozo \<Rightarrow> bool" where
  "db_works oz \<longleftrightarrow>
     (\<forall>d. \<exists>h d'. ozo_begin oz d = (None, h, d') \<and> \<not> ozo_null oz h) \<and>
     (\<forall>h q d. \<not> ozo_null oz h \<longrightarrow>
        (\<exists>res h' d'. ozo_request oz h q d = (None, res, h', d') \<and> \<not> ozo_null oz h'))"

definition session_open :: "('h, 'd) ozo \<Rightarrow> 'h Session \<Rightarrow> bool" where
  "session_open oz s \<longleftrightarrow> (\<exists>impl. s = Some impl \<and> isTransaction impl \<and> \<not> ozo_null oz (transaction impl))"

lemma Session_query_works:
  assumes "db_works oz" and "session_open oz s"
  shows "\<exists>n s' d'. Session_query oz q s det d = (n, s', det, d') \<and> session_open oz s'"
proof -
  obtain impl where s: "s = Some impl" "isTransaction impl" "\<not> ozo_null oz (transaction impl)"
    using assms(2) by (auto simp: session_open_def)
  then obtain res h d' where "ozo_request oz (transaction impl) q d = (None, res, h, d')" "\<not> ozo_null oz h"
    using assms(1) unfolding db_works_def by blast
  with s show ?thesis
    by (simp add: Session_query_def Session_request_def session_open_def isTransaction_def)
qed

lemma query_or_works:
  assumes "db_works oz" and "session_open oz s" and "isOk det"
  shows "\<exists>s' d'. session_open oz s' \<and> query_or oz q f m x s det d k = k s' det d'"
proof -
  obtain n s' d' where "Session_query oz q s det d = (n, s', det, d')" "session_open oz s'"
    using Session_query_works [OF assms(1,2)] by blast
  with assms(3) show ?thesis by (auto simp: query_or_def)
qed

lemma query_or_works_all:
  assumes "db_works oz" and "session_open oz s" and "isOk det"
    and "\<And>s' d'. session_open oz s' \<Longrightarrow> \<exists>s'' det'' d''. k s' det d' = Some (ret, x', s'', det'', d'')"
  shows "\<exists>s'' det'' d''. query_or oz q f m x s det d k = Some (ret, x', s'', det'', d'')"
  using query_or_works [OF assms(1-3), of q f m x d k] assms(4) by metis

lemma newSession_works:
  assumes "db_works oz"
  shows "\<exists>s d'. Database_newSession oz True det d = (s, det, d') \<and> session_open oz s"
proof -
  obtain h d' where "ozo_begin oz d = (None, h, d')" "\<not> ozo_null oz h"
    using assms unfolding db_works_def by blast
  then show ?thesis
    by (simp add: Database_newSession_def session_open_def isTransaction_def)
qed

lemma commit_then:
  "\<exists>s'' det'' d''. (case Session_commit oz s det d of (s, det, d) \<Rightarrow> Some (ret, x', s, det, d)) =
     Some (ret, x', s'', det'', d'')"
  "\<exists>s'' det'' d''. Some (ret, x', Session_commit oz s det d) = Some (ret, x', s'', det'', d'')"
  by (cases "Session_commit oz s det d"; simp)+

text \<open>Printing an address succeeds for every length an ASN.1 string can have.\<close>

definition Genesis_printable :: "Block \<Rightarrow> bool" where
  "Genesis_printable data \<longleftrightarrow>
     (\<forall>g. genesis data = Some g \<longrightarrow> length (gCreator g) < 2 ^ 31 \<and> length (gStakeAddress g) < 2 ^ 31)"

lemma Address_printable_Some:
  "bn_laws B val \<Longrightarrow> length a < 2 ^ 31 \<Longrightarrow> \<exists>s. Address_printable B a = Some s"
  using Base58_encode_value [of B val "drop SALT_LENGTH a"] by (simp add: Address_printable_def Let_def)

lemma integrateGenesis_works:
  assumes "db_works (cOzo e)" and "session_open (cOzo e) s" and "isOk det"
    and "bn_laws (cBn e) val" and "Genesis_printable data" and "genesis data = Some gen"
  shows "\<exists>s' det' d'. integrateGenesis e data x s det d = Some (RsSuccess,
     x\<lparr>currentRecon := 1, lastImports := om_emplace 0 (ImportInfo_new\<lparr>iHash := genesis_hash e gen\<rparr>) (lastImports x)\<rparr>,
     s', det', d')"
proof -
  obtain a b where "Address_printable (cBn e) (gCreator gen) = Some a"
      "Address_printable (cBn e) (gStakeAddress gen) = Some b"
    using Address_printable_Some [OF assms(4)] assms(5,6) by (metis Genesis_printable_def)
  then show ?thesis
    unfolding integrateGenesis_def Let_def genesis_hash_def
    by (simp add: assms(6)) (intro query_or_works_all [OF assms(1)] commit_then assms; assumption)
qed

lemma integrateRecon_works:
  assumes "db_works (cOzo e)" and "session_open (cOzo e) s" and "isOk det"
    and "reconciliation data = Some rec" and "chainId rec = currentRecon x"
    and "lastImports x = [(0, \<lparr>iBlock = 0, iHash = h\<rparr>)]" and "shardInfo rec = [ShardInfo_make h 0]"
  shows "\<exists>s' det' d'. integrateRecon e data x s det d = Some (RsSuccess,
     x\<lparr>currentRecon := currentRecon x + 1, lastImports := [(0, ImportInfo_new\<lparr>iHash := recon_hash e rec\<rparr>)]\<rparr>,
     s', det', d')"
proof -
  have "integrateRecon_shards (lastImports x) 0 (shardInfo rec) = None"
    using assms(6,7) by (simp add: om_find_Cons ShardInfo_make_def Hash_eq_iff)
  with assms(5-7) show ?thesis
    unfolding integrateRecon_def Let_def recon_hash_def
    by (simp add: assms(4) om_emplace_def om_empty_def)
      (intro query_or_works_all [OF assms(1)] commit_then assms; assumption)
qed

lemma integrateNode_works:
  assumes "node data = Some n"
  shows "\<exists>ret s' det' d'. integrateNode e data shard block x s det d = Some (ret, x, s', det', d') \<and>
    (ret = RsSuccess \<longleftrightarrow> lastBlock x shard < block \<and> block = lastBlock x shard + 1)"
proof -
  let ?l = "lastBlock x shard"
  consider "?l \<ge> block" | "?l < block" "?l + 1 < block" | "?l < block" "block = ?l + 1"
    by (meson antisym inc_le not_less)
  then show ?thesis
  proof cases
    case 3
    obtain s' det' d' where "Session_commit (cOzo e) s det d = (s', det', d')" by (metis prod_cases3)
    moreover have "\<not> ?l \<ge> block" "\<not> ?l + 1 < block" using 3 by (simp_all add: not_le)
    ultimately show ?thesis
      using 3 assms by (simp only: integrateNode_def lastBlock_def [symmetric] Let_def) simp
  qed (use assms in \<open>auto simp: integrateNode_def lastBlock_def [symmetric] Let_def not_le\<close>)
qed

lemma integrateRecon_shards_not_success: "integrateRecon_shards m i sis = Some (r, f) \<Longrightarrow> r \<noteq> RsSuccess"
  by (induction m i sis rule: integrateRecon_shards.induct) (auto split: option.splits if_splits)

lemma integrateRecon_rejects:
  assumes "reconciliation data = Some rec" and x: "lastImports x = [(0, \<lparr>iBlock = 0, iHash = h\<rparr>)]"
    and bad: "\<not> (chainId rec = currentRecon x \<and> shardInfo rec = [ShardInfo_make h 0])"
  shows "\<exists>ret s' det' d'. integrateRecon e data x s det d = Some (ret, x, s', det', d') \<and> ret \<noteq> RsSuccess"
proof (cases "integrateRecon_shards (lastImports x) 0 (shardInfo rec)")
  case None
  then have "chainId rec \<noteq> currentRecon x \<or> length (shardInfo rec) \<noteq> length (lastImports x)"
    using single_shard_match [of "shardInfo rec" h] bad x by auto
  then show ?thesis by (auto simp: integrateRecon_def assms(1))
next
  case (Some r)
  then show ?thesis
    using integrateRecon_shards_not_success [of "lastImports x" 0 "shardInfo rec" "fst r" "snd r"]
    by (cases r) (simp add: integrateRecon_def assms(1))
qed

lemma integrate_recon_block:
  assumes "db_works (cOzo e)" and "session_open (cOzo e) s" and "isOk det"
    and "reconciliation data = Some rec" and "bType data = BtReconciliation"
    and x: "lastImports x = [(0, \<lparr>iBlock = 0, iHash = h\<rparr>)]" "currentRecon x \<noteq> 0"
  shows "\<exists>ret x' s' det' d'.
     integrate_block e data (currentRecon x) shard block x s det d = Some (ret, x', s', det', d') \<and>
     (ret = RsSuccess \<longleftrightarrow> chainId rec = currentRecon x \<and> shardInfo rec = [ShardInfo_make h 0])"
proof (cases "chainId rec = currentRecon x \<and> shardInfo rec = [ShardInfo_make h 0]")
  case True
  have "integrate_shards (lastImports x) (currentRecon x) 0 (shardInfo rec) = None"
    using True x by (simp add: om_find_Cons ShardInfo_make_def Hash_eq_iff)
  moreover obtain x' s' det' d' where "integrateRecon e data x s det d = Some (RsSuccess, x', s', det', d')"
    using integrateRecon_works [OF assms(1-4) _ x(1)] True by blast
  ultimately show ?thesis
    using True assms(4,5) x(2) by (simp add: integrate_block_def)
next
  case False
  show ?thesis
  proof (cases "integrate_shards (lastImports x) (currentRecon x) 0 (shardInfo rec)")
    case None
    with integrateRecon_rejects [OF assms(4) x(1) False, of e s det d] False assms(4,5) x(2) show ?thesis
      by (auto simp: integrate_block_def)
  next
    case (Some r)
    with integrate_shards_not_success [of "lastImports x" "currentRecon x" 0 "shardInfo rec" "fst r" "snd r"]
      False assms(4,5) x(2) show ?thesis
      by (cases r) (simp add: integrate_block_def)
  qed
qed

lemma integrate_block_answers:
  assumes "db_works (cOzo e)" and "session_open (cOzo e) s" and "isOk det"
    and "bn_laws (cBn e) val" and "Genesis_printable data" and "Block_inv data" and "DbIntegrator_inv x"
  shows "\<exists>ret x' s' det' d'. integrate_block e data recon shard block x s det d = Some (ret, x', s', det', d') \<and>
     (ret = RsSuccess \<longleftrightarrow> chain_next e data recon shard block (chain_of x) \<noteq> None)"
proof -
  consider (other) "recon \<noteq> currentRecon x"
    | (gen) "recon = currentRecon x" "currentRecon x = 0" "shard = 0" "block = 0" "bType data = BtGenesis"
    | (nogen) "recon = currentRecon x" "currentRecon x = 0" "\<not> (shard = 0 \<and> block = 0 \<and> bType data = BtGenesis)"
    | (rec) "recon = currentRecon x" "currentRecon x \<noteq> 0" "bType data = BtReconciliation"
    | (node) "recon = currentRecon x" "currentRecon x \<noteq> 0" "bType data = BtNode"
    | (bad) "recon = currentRecon x" "currentRecon x \<noteq> 0" "bType data \<noteq> BtReconciliation" "bType data \<noteq> BtNode"
    by blast
  then show ?thesis
  proof cases
    case gen
    then obtain g where g: "genesis data = Some g"
      using assms(6) by (auto simp: Block_inv_def)
    from integrateGenesis_works [OF assms(1-5) g, of x d] gen g show ?thesis
      by (auto simp: integrate_block_def chain_next_def chain_of_def)
  next
    case rec
    then obtain r where r: "reconciliation data = Some r"
      using assms(6) by (auto simp: Block_inv_def)
    from rec(2) assms(7) obtain h where h: "lastImports x = [(0, \<lparr>iBlock = 0, iHash = h\<rparr>)]"
      by (auto simp: DbIntegrator_inv_def)
    have "chain_next e data recon shard block (chain_of x) \<noteq> None \<longleftrightarrow>
        chainId r = currentRecon x \<and> shardInfo r = [ShardInfo_make h 0]"
      using rec r h by (simp add: chain_next_def chain_of_def om_find_Cons)
    with integrate_recon_block [OF assms(1-3) r rec(3) h rec(2), of shard block d] rec(1) show ?thesis
      by simp
  next
    case node
    then obtain n where n: "node data = Some n"
      using assms(6) by (auto simp: Block_inv_def)
    have "lastBlock x shard < block \<and> block = lastBlock x shard + 1 \<longleftrightarrow> block = 1"
      using assms(7) by (auto simp: DbIntegrator_inv_lastBlock)
    with integrateNode_works [OF n, of e shard block x s det d] node show ?thesis
      by (simp add: integrate_block_def chain_next_def chain_of_def) blast
  qed (auto simp: integrate_block_def chain_next_def chain_of_def split: option.splits)
qed

text \<open>The state is initialized already, or the table of imported blocks is empty when the next transaction
  begins: a transaction on the database state \<open>d\<close> selects no row.\<close>

definition init_ready :: "('h, 'd, 'k, 'bn) curator_env \<Rightarrow> DbIntegrator \<Rightarrow> 'd \<Rightarrow> bool" where
  "init_ready e x d \<longleftrightarrow> initialized x \<or>
     (case ozo_begin (cOzo e) d of (_, h, d1) \<Rightarrow> PQntuples (fst (snd (ozo_request (cOzo e) h
        ''SELECT reconciliation, shard, block, hash FROM imported_blocks'' d1))) \<le> 0)"

lemma DbIntegrator_init_works:
  assumes "db_works (cOzo e)" and "Database_newSession (cOzo e) True det d0 = (s, det, d)" and "isOk det"
    and "init_ready e x d0" and "\<not> initialized x"
  shows "\<exists>s' d'. DbIntegrator_init e x s det d = Some (RsSuccess, x\<lparr>initialized := True\<rparr>, s', det, d') \<and>
     session_open (cOzo e) s'"
proof -
  let ?q = "''SELECT reconciliation, shard, block, hash FROM imported_blocks''"
  obtain h0 d1 where b: "ozo_begin (cOzo e) d0 = (None, h0, d1)" "\<not> ozo_null (cOzo e) h0"
    using assms(1) unfolding db_works_def by blast
  with assms(2) obtain impl where s: "s = Some impl" "isTransaction impl" "transaction impl = h0" "d1 = d"
    by (auto simp: Database_newSession_def isTransaction_def)
  obtain res h d' where r: "ozo_request (cOzo e) h0 ?q d = (None, res, h, d')" "\<not> ozo_null (cOzo e) h"
    using assms(1) b(2) unfolding db_works_def by blast
  have "PQntuples (fst (snd (ozo_request (cOzo e) h0 ?q d))) \<le> 0"
    using assms(4,5) b(1) s(4) by (simp add: init_ready_def)
  then have "PQntuples res \<le> 0" by (simp add: r(1))
  with s r assms(3) show ?thesis
    by (simp add: DbIntegrator_init_def Session_select_def Session_request_def DataResult_getNumResults_def
        ResultImpl_getNumResults_def ResultRow_new_def session_open_def isTransaction_def)
qed

lemma integrate_answers:
  assumes works: "db_works (cOzo e)" and "cConnected e" and det: "isOk det" and ready: "init_ready e x d"
    and data: "bn_laws (cBn e) val" "Genesis_printable data" "Block_inv data" and inv: "DbIntegrator_inv x"
  shows "\<exists>ret x' det' d'. DbIntegrator_integrate e data recon shard block x det d = Some (ret, x', det', d') \<and>
     initialized x' \<and> (ret = RsSuccess \<longleftrightarrow> chain_next e data recon shard block (chain_of x) \<noteq> None)"
proof -
  obtain s d1 where s: "Database_newSession (cOzo e) (cConnected e) det d = (s, det, d1)" "session_open (cOzo e) s"
    using newSession_works [OF works] assms(2) by metis
  obtain y s2 d2 where y: "session_open (cOzo e) s2" "initialized y" "chain_of y = chain_of x" "DbIntegrator_inv y"
      "(if \<not> initialized x then
          do { (status, x, s, det, d) \<leftarrow> DbIntegrator_init e x s det d1;
               if status \<noteq> RsSuccess then Some (status, x, s, det, d)
               else integrate_block e data recon shard block x s det d }
        else integrate_block e data recon shard block x s det d1) = integrate_block e data recon shard block y s2 det d2"
  proof (cases "initialized x")
    case True
    with that [of s x d1] s inv show ?thesis by simp
  next
    case False
    with DbIntegrator_init_works [OF works s(1) [unfolded assms(2) [THEN eqTrueI]] det ready] that [of _ "x\<lparr>initialized := True\<rparr>"] inv
    show ?thesis by fastforce
  qed
  obtain ret x' s' det' d' where r:
      "integrate_block e data recon shard block y s2 det d2 = Some (ret, x', s', det', d')"
      "ret = RsSuccess \<longleftrightarrow> chain_next e data recon shard block (chain_of y) \<noteq> None"
    using integrate_block_answers [OF works y(1) det data y(4)] by blast
  have "initialized x'"
    using integrate_block_step [OF r(1) y(4)] y(2) by simp
  then show ?thesis
    unfolding DbIntegrator_integrate_def s(1) using r y(3,5) det by simp
qed

text \<open>
  Claim C4.  With a working database that is new or already read, the integrator answers every well-formed block
  whose genesis addresses can be printed, and it reports success exactly on the blocks that are
  the next step of the chain.
\<close>

theorem DbIntegrator_accepts_iff_next:
  assumes "db_works (cOzo e)" and "cConnected e" and "isOk det" and "init_ready e x d"
    and "bn_laws (cBn e) val" and "Genesis_printable data" and "Block_inv data" and "DbIntegrator_inv x"
  shows "\<exists>ret x' det' d'. DbIntegrator_integrate e data recon shard block x det d = Some (ret, x', det', d') \<and>
     (ret = RsSuccess \<longleftrightarrow> chain_next e data recon shard block (chain_of x) \<noteq> None)"
  using integrate_answers [OF assms] by blast

text \<open>A database that keeps its statements, and answers the selection with a row for each block that was inserted
  since the table was last cleared.\<close>

definition stored_blocks :: "string list \<Rightarrow> nat" where
  "stored_blocks d = fold (\<lambda>q n. if q = ''TRUNCATE imported_blocks'' then 0
     else if take 27 q = ''INSERT INTO imported_blocks'' then n + 1 else n) d 0"

definition store_ozo :: "(bool, string list) ozo" where
  "store_ozo = plain_ozo\<lparr>ozo_request := (\<lambda>h q d. (None,
     \<lparr>PQcmdTuples = Some ''1'', PQnfields = 4,
      PQntuples = (if q = ''SELECT reconciliation, shard, block, hash FROM imported_blocks'' then int (stored_blocks d) else 0),
      PQgetvalue = (\<lambda>_ _. [0, 0, 0, 0]), PQgetisnull = (\<lambda>_ _. False), PQftype = (\<lambda>_. INT4OID)\<rparr>, h, d @ [q]))\<rparr>"

lemma demo_db_works: "db_works (cOzo (demo_env store_ozo))" "cConnected (demo_env store_ozo)"
  "init_ready (demo_env store_ozo) x []"
  by (auto simp: db_works_def demo_env_def store_ozo_def plain_ozo_def init_ready_def stored_blocks_def)

lemma demo_genesis: "Block_inv (Block_setGenesis Genesis_new Block_new)"
  "Genesis_printable (Block_setGenesis Genesis_new Block_new)"
  by (simp_all add: Block_inv_def Block_ops Genesis_printable_def Genesis_new_def)

text \<open>A first genesis block.\<close>

theorem DbIntegrator_accepts_iff_next_witness:
  "\<exists>x' det' d'. DbIntegrator_integrate (demo_env store_ozo) (Block_setGenesis Genesis_new Block_new) 0 0 0
     DbIntegrator_new Details_new [] = Some (RsSuccess, x', det', d')"
proof -
  have "chain_next (demo_env store_ozo) (Block_setGenesis Genesis_new Block_new) 0 0 0 (chain_of DbIntegrator_new) \<noteq> None"
    by (simp add: chain_next_def chain_of_def DbIntegrator_new_def Block_ops)
  moreover have "bn_laws (cBn (demo_env store_ozo)) id"
    by (simp add: demo_env_def nat_bn_laws)
  ultimately show ?thesis
    using DbIntegrator_accepts_iff_next [OF demo_db_works(1,2) isOk_new demo_db_works(3) _ demo_genesis(2,1) DbIntegrator_inv_new]
    by blast
qed

theorem DbIntegrator_refines_chain_witness:
  "\<exists>x' det' d'. DbIntegrator_integrate (demo_env store_ozo) (Block_setGenesis Genesis_new Block_new) 0 0 0
     DbIntegrator_new Details_new [] = Some (RsSuccess, x', det', d') \<and> DbIntegrator_inv x' \<and>
     chain_of x' = (1, Some (genesis_hash (demo_env store_ozo) Genesis_new))"
proof -
  have n: "chain_next (demo_env store_ozo) (Block_setGenesis Genesis_new Block_new) 0 0 0 (chain_of DbIntegrator_new) =
      Some (1, Some (genesis_hash (demo_env store_ozo) Genesis_new))"
    by (simp add: chain_next_def chain_of_def DbIntegrator_new_def Block_ops om_empty_def)
  have "bn_laws (cBn (demo_env store_ozo)) id"
    by (simp add: demo_env_def nat_bn_laws)
  from integrate_answers [OF demo_db_works(1,2) isOk_new demo_db_works(3) this demo_genesis(2,1) DbIntegrator_inv_new]
  obtain x' det' d' where i: "DbIntegrator_integrate (demo_env store_ozo) (Block_setGenesis Genesis_new Block_new) 0 0 0
     DbIntegrator_new Details_new [] = Some (RsSuccess, x', det', d')"
    using n by (metis option.discI)
  from DbIntegrator_refines_chain [OF i DbIntegrator_inv_new] n i show ?thesis by simp
qed

end
