(* ===== verification/FC_Files.thy ===== *)
theory FC_Files
  imports FC_Filename
begin

text \<open>
  Files: \<^verbatim>\<open>utils/FileTools\<close> and the block directory \<^verbatim>\<open>curator/fs/BlockStorage\<close> on top of it.

  The disk is a record: the directories that exist, the contents of the regular files by full
  path, the value of \<^verbatim>\<open>HOME\<close>, how many bytes \<^verbatim>\<open>fwrite\<close> accepts for a path (\<open>None\<close> when it cannot be opened
  for writing), and what the operating system does to an open file: how many of the accepted bytes are lost when
  \<^verbatim>\<open>fclose\<close> flushes the buffer, whether \<^verbatim>\<open>ftell\<close> fails, how many bytes \<^verbatim>\<open>fread\<close> leaves unread, and in which order
  a directory is listed (names by ascending rank).  Permissions are not modelled.
\<close>

section \<open>Model\<close>

record file_io =
  lost :: "string \<Rightarrow> nat"
  noSize :: "string \<Rightarrow> bool"
  unread :: "string \<Rightarrow> nat"
  listRank :: "string \<Rightarrow> nat"

record disk =
  dirs :: "string list"
  files :: "(string, bytes) omap"
  home :: "string option"
  quota :: "string \<Rightarrow> nat option"
  io :: file_io

definition expandTilde :: "string option \<Rightarrow> string \<Rightarrow> string" where
  "expandTilde h path =
     (if path \<noteq> [] \<and> hd path = CHR ''~''
      then (case h of Some dir \<Rightarrow> if dir \<noteq> [] then dir @ tl path else path | None \<Rightarrow> path)
      else path)"

definition FileTools_isFile :: "disk \<Rightarrow> string \<Rightarrow> bool" where
  "FileTools_isFile k path = (om_find (files k) path \<noteq> None)"

definition FileTools_isDir :: "disk \<Rightarrow> string \<Rightarrow> bool" where
  "FileTools_isDir k path = (path \<in> set (dirs k))"

definition FileTools_exists :: "disk \<Rightarrow> string \<Rightarrow> bool" where
  "FileTools_exists k path = (FileTools_isFile k path \<or> FileTools_isDir k path)"

text \<open>What is read from an open file, then the whole function; \<open>None\<close> is the result \<^verbatim>\<open>false\<close>.\<close>

definition read_open :: "file_io \<Rightarrow> string \<Rightarrow> bytes \<Rightarrow> bytes option" where
  "read_open i p data =
     (if noSize i p then None
      else let sizet = length data; rd = sizet - unread i p in if rd = sizet then Some data else None)"

definition FileTools_read :: "disk \<Rightarrow> string \<Rightarrow> bytes option" where
  "FileTools_read k path =
     (let p = expandTilde (home k) path in do { data \<leftarrow> om_find (files k) p; read_open (io k) p data })"

text \<open>Only the count of \<^verbatim>\<open>fwrite\<close> is looked at; the result of \<^verbatim>\<open>fclose\<close> is not.\<close>

definition FileTools_write :: "string \<Rightarrow> bytes \<Rightarrow> disk \<Rightarrow> bool \<times> disk" where
  "FileTools_write path data k =
     (let p = expandTilde (home k) path in
      case quota k p of
        None \<Rightarrow> (False, k)
      | Some n \<Rightarrow>
          let write = min n (length data)
          in (write = length data, k\<lparr>files := om_put p (take (write - lost (io k) p) data) (files k)\<rparr>))"

text \<open>The names of a directory: the rest of each path below it, without a further slash unless
  the listing is recursive.  A path that exists and is no directory makes the iterator throw,
  here the outer \<open>None\<close>; a missing path is the result \<^verbatim>\<open>false\<close>, the inner \<open>None\<close>.\<close>

definition below :: "string \<Rightarrow> string \<Rightarrow> string option" where
  "below path p =
     (if take (length path + 1) p = path @ ''/'' then Some (drop (length path + 1) p) else None)"

definition FileTools_listFiles :: "disk \<Rightarrow> string \<Rightarrow> bool \<Rightarrow> string list option option" where
  "FileTools_listFiles k path recursive =
     (if \<not> FileTools_exists k path then Some None
      else if \<not> FileTools_isDir k path then None
      else Some (Some (sort_key (listRank (io k)) (filter (\<lambda>n. recursive \<or> CHR ''/'' \<notin> set n)
             (List.map_filter (below path) (om_keys (files k)))))))"

definition FileTools_unlink :: "string \<Rightarrow> disk \<Rightarrow> bool \<times> disk" where
  "FileTools_unlink file k = (FileTools_isFile k file, k\<lparr>files := om_erase file (files k)\<rparr>)"

subsection \<open>Block storage\<close>

record BlockStorage =
  storageDir :: string

definition BlockStorage_setDirectory :: "string \<Rightarrow> BlockStorage \<Rightarrow> BlockStorage" where
  "BlockStorage_setDirectory d x = x\<lparr>storageDir := d\<rparr>"

definition block_path :: "BlockStorage \<Rightarrow> u32 \<Rightarrow> u32 \<Rightarrow> u32 \<Rightarrow> string" where
  "block_path x recon shard block = storageDir x @ ''/'' @ BlockFilename_get recon shard block"

definition BlockStorage_readBlock :: "BlockStorage \<Rightarrow> disk \<Rightarrow> u32 \<Rightarrow> u32 \<Rightarrow> u32 \<Rightarrow> bytes" where
  "BlockStorage_readBlock x k recon shard block =
     (case FileTools_read k (block_path x recon shard block) of None \<Rightarrow> [] | Some data \<Rightarrow> data)"

definition BlockStorage_writeBlock ::
  "BlockStorage \<Rightarrow> u32 \<Rightarrow> u32 \<Rightarrow> u32 \<Rightarrow> bytes \<Rightarrow> disk \<Rightarrow> bool \<times> disk"
where
  "BlockStorage_writeBlock x recon shard block data k =
     FileTools_write (block_path x recon shard block) data k"

definition BlockStorage_clearBlock :: "BlockStorage \<Rightarrow> u32 \<Rightarrow> u32 \<Rightarrow> u32 \<Rightarrow> disk \<Rightarrow> disk" where
  "BlockStorage_clearBlock x recon shard block k =
     snd (FileTools_unlink (block_path x recon shard block) k)"

definition BlockStorage_getFiles :: "BlockStorage \<Rightarrow> disk \<Rightarrow> string list option option" where
  "BlockStorage_getFiles x k = FileTools_listFiles k (storageDir x) False"

section \<open>A disk without faults\<close>

definition plain_io :: file_io where
  "plain_io = \<lparr>lost = (\<lambda>_. 0), noSize = (\<lambda>_. False), unread = (\<lambda>_. 0), listRank = (\<lambda>_. 0)\<rparr>"

lemma plain_io_simps [simp]:
  "lost plain_io p = 0" "\<not> noSize plain_io p" "unread plain_io p = 0" "listRank plain_io = (\<lambda>_. 0)"
  by (simp_all add: plain_io_def)

lemma read_open_plain [simp]: "read_open plain_io p data = Some data"
  by (simp add: read_open_def)

text \<open>A path whose bytes are all written out, and one whose file can be read.\<close>

definition flushes :: "disk \<Rightarrow> string \<Rightarrow> bool" where
  "flushes k path \<longleftrightarrow> lost (io k) (expandTilde (home k) path) = 0"

definition readable :: "disk \<Rightarrow> string \<Rightarrow> bool" where
  "readable k path \<longleftrightarrow> \<not> noSize (io k) (expandTilde (home k) path) \<and> unread (io k) (expandTilde (home k) path) = 0"

lemma readable_plain [simp]: "io k = plain_io \<Longrightarrow> readable k path" "io k = plain_io \<Longrightarrow> flushes k path"
  by (simp_all add: readable_def flushes_def)

lemma FileTools_read_readable: "readable k path \<Longrightarrow> FileTools_read k path = om_find (files k) (expandTilde (home k) path)"
  by (cases "om_find (files k) (expandTilde (home k) path)") (simp_all add: FileTools_read_def read_open_def readable_def Let_def)

lemma FileTools_write_flushed:
  assumes "FileTools_write path data k = (True, k')" and "flushes k path"
  shows "k' = k\<lparr>files := om_put (expandTilde (home k) path) data (files k)\<rparr>"
  using assms by (auto simp: FileTools_write_def flushes_def Let_def split: option.splits)

section \<open>Paths\<close>

lemma expandTilde_plain: "path = [] \<or> hd path \<noteq> CHR ''~'' \<Longrightarrow> expandTilde h path = path"
  by (auto simp: expandTilde_def)

lemma expandTilde_append:
  "dir \<noteq> [] \<Longrightarrow> expandTilde h (dir @ rest) = expandTilde h dir @ rest"
  by (simp add: expandTilde_def split: option.splits)

lemma expandTilde_inj: "expandTilde h (dir @ ''/'' @ a) = expandTilde h (dir @ ''/'' @ b) \<longleftrightarrow> a = b"
  by (cases "dir = []") (simp_all add: expandTilde_append expandTilde_plain)

text \<open>A name is cut at its dashes: digits hold none.\<close>

lemma pad0_plain: "CHR ''-'' \<notin> set (pad0 w n)" "CHR ''/'' \<notin> set (pad0 w n)"
  using pad0_digits [of w n] by (auto simp: list_all_iff is_digit_def)

lemma append_dash_inject:
  "CHR ''-'' \<notin> set a \<Longrightarrow> CHR ''-'' \<notin> set b \<Longrightarrow> a @ CHR ''-'' # x = b @ CHR ''-'' # y \<longleftrightarrow> a = b \<and> x = y"
proof (induction a arbitrary: b)
  case Nil
  then show ?case by (cases b) auto
next
  case (Cons c a)
  then show ?case by (cases b) auto
qed

lemma BlockFilename_get_inject:
  "BlockFilename_get r s b = BlockFilename_get r' s' b' \<longleftrightarrow> r = r' \<and> s = s' \<and> b = b'"
proof
  assume "BlockFilename_get r s b = BlockFilename_get r' s' b'"
  then have "pad0 8 (unat r) = pad0 8 (unat r')" "pad0 4 (unat s) = pad0 4 (unat s')" "pad0 4 (unat b) = pad0 4 (unat b')"
    by (simp_all add: BlockFilename_get_def append_dash_inject pad0_plain)
  then show "r = r' \<and> s = s' \<and> b = b'"
    by (metis dval_pad0 word_unat_eq_iff)
qed simp

lemma BlockFilename_no_slash: "CHR ''/'' \<notin> set (BlockFilename_get r s b)"
  using pad0_plain(2) by (simp add: BlockFilename_get_def)

lemma om_keys_put: "k \<in> set (om_keys (om_put k v m))"
  by (simp add: set_keys_om_put)

lemma BlockStorage_written_listed:
  assumes "storageDir x = [] \<or> hd (storageDir x) \<noteq> CHR ''~''" and "storageDir x \<in> set (dirs k)"
    and "BlockStorage_writeBlock x r s b data k = (ok, k')" and "quota k (block_path x r s b) \<noteq> None"
  shows "\<exists>names. BlockStorage_getFiles x k' = Some (Some names) \<and> BlockFilename_get r s b \<in> set names"
proof -
  have "expandTilde (home k) (block_path x r s b) = block_path x r s b"
    using assms(1) by (intro expandTilde_plain) (auto simp: block_path_def hd_append)
  then obtain data' where k': "dirs k' = dirs k" "files k' = om_put (block_path x r s b) data' (files k)"
    using assms(3,4) by (auto simp: BlockStorage_writeBlock_def FileTools_write_def Let_def split: option.splits)
  have "below (storageDir x) (block_path x r s b) = Some (BlockFilename_get r s b)"
    by (simp add: below_def block_path_def)
  moreover have "block_path x r s b \<in> set (om_keys (files k'))"
    by (simp add: k' om_keys_put)
  ultimately have "BlockFilename_get r s b \<in> set (List.map_filter (below (storageDir x)) (om_keys (files k')))"
    by (force simp: map_filter_def)
  with assms(2) BlockFilename_no_slash show ?thesis
    by (simp add: BlockStorage_getFiles_def FileTools_listFiles_def FileTools_exists_def FileTools_isDir_def k'(1))
qed

text \<open>
  Claim C35.  A block whose write was reported as done, whose bytes \<^verbatim>\<open>fclose\<close> wrote out and whose file can be read, is
  read back; the blocks of every other index read as before, whatever the disk does.  (The code does not see whether
  \<^verbatim>\<open>fclose\<close> wrote the bytes out.)
\<close>

theorem BlockStorage_write_read:
  assumes "BlockStorage_writeBlock x r s b data k = (ok, k')"
  shows "(ok \<and> flushes k (block_path x r s b) \<and> readable k (block_path x r s b) \<longrightarrow> BlockStorage_readBlock x k' r s b = data) \<and>
     ((r', s', b') \<noteq> (r, s, b) \<longrightarrow> BlockStorage_readBlock x k' r' s' b' = BlockStorage_readBlock x k r' s' b')"
proof -
  from assms have k': "home k' = home k" "io k' = io k"
      "files k' = files k \<or> (\<exists>d. files k' = om_put (expandTilde (home k) (block_path x r s b)) d (files k))"
    by (auto simp: BlockStorage_writeBlock_def FileTools_write_def Let_def split: option.splits)
  have written: "files k' = om_put (expandTilde (home k) (block_path x r s b)) data (files k)"
    if "ok" "flushes k (block_path x r s b)"
    using FileTools_write_flushed [OF _ that(2), of data k'] assms that(1) by (simp add: BlockStorage_writeBlock_def)
  have "expandTilde (home k) (block_path x r' s' b') = expandTilde (home k) (block_path x r s b)
      \<longleftrightarrow> (r', s', b') = (r, s, b)"
    unfolding block_path_def expandTilde_inj by (simp add: BlockFilename_get_inject)
  then have "BlockStorage_readBlock x k' r' s' b' = BlockStorage_readBlock x k r' s' b'" if "(r', s', b') \<noteq> (r, s, b)"
    using that k' by (elim disjE exE) (auto simp: BlockStorage_readBlock_def FileTools_read_def om_map_simps Let_def)
  moreover have "BlockStorage_readBlock x k' r s b = data"
    if "ok" "flushes k (block_path x r s b)" "readable k (block_path x r s b)"
    using that written k'(1,2) by (simp add: BlockStorage_readBlock_def FileTools_read_def read_open_def readable_def om_map_simps Let_def)
  ultimately show ?thesis by blast
qed

definition demo_disk :: disk where
  "demo_disk = \<lparr>dirs = [''/home/f/.fluffycoin/blocks''], files = [], home = Some ''/home/f'', quota = (\<lambda>_. Some 100),
     io = plain_io\<rparr>"

theorem BlockStorage_write_read_witness:
  "BlockStorage_readBlock \<lparr>storageDir = ''/b''\<rparr>
     (snd (BlockStorage_writeBlock \<lparr>storageDir = ''/b''\<rparr> 1 0 0 [48] demo_disk)) 1 0 0 = [48]"
  using BlockStorage_write_read [of "\<lparr>storageDir = ''/b''\<rparr>" 1 0 0 "[48]" demo_disk]
  by (simp add: BlockStorage_writeBlock_def FileTools_write_def demo_disk_def Let_def)

text \<open>A disk that loses the buffer: the write is reported as done and the block is gone.\<close>

lemma FileTools_write_loses_unseen:
  "\<exists>k'. FileTools_write ''/b'' [48] (demo_disk\<lparr>io := plain_io\<lparr>lost := \<lambda>_. 1\<rparr>\<rparr>) = (True, k') \<and> FileTools_read k' ''/b'' = Some []"
  by (simp add: FileTools_write_def FileTools_read_def read_open_def demo_disk_def expandTilde_def om_find_Cons Let_def plain_io_def)

text \<open>
  With a block directory below the tilde, such as the default one, a block that was written and reads
  back is still not listed and not removed: listing and removal use the path as it stands.
\<close>

theorem BlockStorage_tilde_not_listed:
  assumes "hd (storageDir x) = CHR ''~''" and "storageDir x \<noteq> []"
    and "home k = Some h" and "h \<noteq> []" and "hd h \<noteq> CHR ''~''"
    and "storageDir x \<notin> set (dirs k)" and "om_find (files k) (storageDir x) = None"
    and "om_find (files k) (block_path x r s b) = None"
    and "BlockStorage_writeBlock x r s b data k = (True, k')"
    and "flushes k (block_path x r s b)" and "readable k (block_path x r s b)"
  shows "BlockStorage_readBlock x k' r s b = data \<and>
     BlockStorage_getFiles x k' = Some None \<and>
     BlockStorage_readBlock x (BlockStorage_clearBlock x r s b k') r s b = data"
proof -
  let ?p = "expandTilde (home k) (block_path x r s b)"
  have hd: "hd ?p \<noteq> CHR ''~''"
    using assms(1-5) by (simp add: block_path_def expandTilde_def)
  have k': "dirs k' = dirs k" "home k' = home k" "files k' = om_put ?p data (files k)" "io k' = io k"
    using FileTools_write_flushed [OF assms(9) [unfolded BlockStorage_writeBlock_def] assms(10)] by simp_all
  have ne: "storageDir x \<noteq> ?p" "block_path x r s b \<noteq> ?p"
    using hd assms(1,2) by (auto simp: block_path_def hd_append)
  have "om_find (files k') (storageDir x) = None" "om_find (files k') ?p = Some data"
    "om_find (files k') (block_path x r s b) = None"
    using ne assms(7,8) by (simp_all add: k' om_map_simps)
  then show ?thesis
    using assms(6,11) ne
    by (simp add: BlockStorage_readBlock_def FileTools_read_def read_open_def readable_def Let_def BlockStorage_getFiles_def FileTools_listFiles_def
        FileTools_exists_def FileTools_isFile_def FileTools_isDir_def BlockStorage_clearBlock_def
        FileTools_unlink_def k'(1,2,4) om_map_simps)
qed

theorem BlockStorage_tilde_not_listed_witness:
  "BlockStorage_getFiles \<lparr>storageDir = ''~/.fluffycoin/blocks''\<rparr>
     (snd (BlockStorage_writeBlock \<lparr>storageDir = ''~/.fluffycoin/blocks''\<rparr> 1 0 0 [48] demo_disk)) = Some None"
  using BlockStorage_tilde_not_listed
    [of "\<lparr>storageDir = ''~/.fluffycoin/blocks''\<rparr>" demo_disk "''/home/f''" 1 0 0 "[48]"]
  by (simp add: BlockStorage_writeBlock_def FileTools_write_def demo_disk_def Let_def)

end
