(* ===== verification/FC_Pending.thy ===== *)
theory FC_Pending
  imports FC_Curator FC_Files
begin

text \<open>
  The curator service, second part: \<^verbatim>\<open>BlockIntegrator\<close> keeps the blocks that wait for their turn and hands
  them to the database integrator, and \<^verbatim>\<open>events/LoadFromFs\<close> feeds it from the block directory.

  The pool of pending blocks is an instance of the locale \<open>block_pool\<close>, on which the loop relies.
  Calls run one at a time, as the loader makes them; two calls that interleave at their
  suspension points are not modelled.
\<close>

section \<open>Model\<close>

subsection \<open>Pending blocks\<close>

type_synonym PendingShard = "(u32, Block) omap"
type_synonym PendingRecon = "(u32, PendingShard) omap"

record BlockIntegrator =
  dbIntegrator :: DbIntegrator
  pendingRecons :: "(u32, PendingRecon) omap"
  shardCursor :: u32

definition BlockIntegrator_new :: BlockIntegrator where
  "BlockIntegrator_new = \<lparr>dbIntegrator = DbIntegrator_new, pendingRecons = om_empty, shardCursor = 0\<rparr>"

definition isSuccess :: "Result \<Rightarrow> bool" where
  "isSuccess ret = (ret = RsSuccess)"

definition isBadBlock :: "Result \<Rightarrow> bool" where
  "isBadBlock ret =
     (ret = RsInvalidIndex \<or> ret = RsDuplicate \<or> ret = RsBadBlock \<or> ret = RsNoMatch \<or> ret = RsAlreadyDone)"

definition om_get :: "('k :: linorder, 'v list) omap \<Rightarrow> 'k \<Rightarrow> 'v list" where
  "om_get m k = (case om_find m k of None \<Rightarrow> [] | Some v \<Rightarrow> v)"

text \<open>Writing through the iterators: the recon and the shard are added when missing, and a block that is
  already there is kept.\<close>

definition addPending :: "u32 \<Rightarrow> u32 \<Rightarrow> u32 \<Rightarrow> Block \<Rightarrow> BlockIntegrator \<Rightarrow> BlockIntegrator" where
  "addPending recon shard block data bi =
     (let pendingShards = om_get (pendingRecons bi) recon;
          pendingBlocks = om_emplace block data (om_get pendingShards shard)
      in bi\<lparr>pendingRecons := om_put recon (om_put shard pendingBlocks pendingShards) (pendingRecons bi),
            shardCursor := (if shardCursor bi > shard then shard else shardCursor bi)\<rparr>)"

definition removeBlock :: "u32 \<Rightarrow> u32 \<Rightarrow> u32 \<Rightarrow> BlockIntegrator \<Rightarrow> BlockIntegrator" where
  "removeBlock recon shard block bi =
     (case om_find (pendingRecons bi) recon of
        None \<Rightarrow> bi
      | Some pendingShards \<Rightarrow>
          (case om_find pendingShards shard of
             None \<Rightarrow> bi
           | Some pendingBlocks \<Rightarrow>
               (let pendingBlocks = om_erase block pendingBlocks;
                    pendingShards = (if pendingBlocks = [] then om_erase shard pendingShards
                                     else om_put shard pendingBlocks pendingShards)
                in bi\<lparr>pendingRecons := (if pendingShards = [] then om_erase recon (pendingRecons bi)
                                        else om_put recon pendingShards (pendingRecons bi))\<rparr>)))"

text \<open>The first block of the first shard at or after the cursor that has one.\<close>

fun next_pending :: "u32 \<Rightarrow> PendingRecon \<Rightarrow> (u32 \<times> u32 \<times> Block) option" where
  "next_pending cursor [] = None"
| "next_pending cursor ((shard, pendingBlocks) # shards) =
     (if shard < cursor then next_pending cursor shards
      else case pendingBlocks of
          [] \<Rightarrow> next_pending cursor shards
        | (block, data) # _ \<Rightarrow> Some (shard, block, data))"

definition tryNext ::
  "('h, 'd, 'k, 'bn) curator_env \<Rightarrow> BlockIntegrator \<Rightarrow> 'd \<Rightarrow> (bool \<times> BlockIntegrator \<times> 'd) option"
where
  "tryNext e bi d =
     (case pendingRecons bi of
        [] \<Rightarrow> Some (False, bi, d)
      | (recon, pendingShards) # _ \<Rightarrow>
          if pendingShards = []
          then Some (True, bi\<lparr>pendingRecons := om_erase recon (pendingRecons bi)\<rparr>, d)
          else case next_pending (shardCursor bi) pendingShards of
              None \<Rightarrow> Some (False, bi, d)
            | Some (shard, block, data) \<Rightarrow>
                do { nextBlock \<leftarrow> Block_assign_copy (cLong e) Block_new data;
                     (ret, x, det, d) \<leftarrow>
                       DbIntegrator_integrate e nextBlock recon shard block (dbIntegrator bi) Details_new d;
                     let bi = bi\<lparr>dbIntegrator := x\<rparr> in
                     Some (isSuccess ret,
                           (if isSuccess ret \<or> isBadBlock ret then removeBlock recon shard block bi else bi),
                           d) })"

partial_function (option) tryIntegrate ::
  "('h, 'd, 'k, 'bn) curator_env \<Rightarrow> BlockIntegrator \<Rightarrow> 'd \<Rightarrow> (BlockIntegrator \<times> 'd) option"
where
  "tryIntegrate e bi d =
     do { (retry, bi', d') \<leftarrow> tryNext e bi d;
          if retry then tryIntegrate e bi' d' else Some (bi', d') }"

definition BlockIntegrator_addBlock ::
  "('h, 'd, 'k, 'bn) curator_env \<Rightarrow> bytes \<Rightarrow> u32 \<Rightarrow> u32 \<Rightarrow> u32 \<Rightarrow> BlockIntegrator \<Rightarrow> 'd \<Rightarrow> (BlockIntegrator \<times> 'd) option"
where
  "BlockIntegrator_addBlock e binData recon shard block bi d =
     (case decode_Block (cd2i_Block e) (cLong e) binData Block_new of
        None \<Rightarrow> Some (bi, d)
      | Some data \<Rightarrow>
          tryIntegrate e (addPending recon shard block (fst (Block_assign_move Block_new data)) bi) d)"

subsection \<open>Loading\<close>

definition loadFile ::
  "('h, 'd, 'k, 'bn) curator_env \<Rightarrow> BlockStorage \<Rightarrow> disk \<Rightarrow> u32 \<Rightarrow> string \<Rightarrow>
     BlockIntegrator \<Rightarrow> 'd \<Rightarrow> (BlockIntegrator \<times> 'd) option"
where
  "loadFile e storage fs reloadFrom file bi d =
     (case BlockFilename_parse file of
        None \<Rightarrow> Some (bi, d)
      | Some (curRecon, curShard, curBlock) \<Rightarrow>
          if curRecon < reloadFrom then Some (bi, d)
          else let blockData = BlockStorage_readBlock storage fs curRecon curShard curBlock in
            if blockData = [] then Some (bi, d)
            else BlockIntegrator_addBlock e blockData curRecon curShard curBlock bi d)"

fun loadFiles ::
  "('h, 'd, 'k, 'bn) curator_env \<Rightarrow> BlockStorage \<Rightarrow> disk \<Rightarrow> u32 \<Rightarrow> string list \<Rightarrow>
     BlockIntegrator \<Rightarrow> 'd \<Rightarrow> (BlockIntegrator \<times> 'd) option"
where
  "loadFiles e storage fs reloadFrom [] bi d = Some (bi, d)"
| "loadFiles e storage fs reloadFrom (file # rest) bi d =
     do { (bi', d') \<leftarrow> loadFile e storage fs reloadFrom file bi d;
          loadFiles e storage fs reloadFrom rest bi' d' }"

definition LoadFromFs_init ::
  "('h, 'd, 'k, 'bn) curator_env \<Rightarrow> BlockStorage \<Rightarrow> disk \<Rightarrow> u32 \<Rightarrow> BlockIntegrator \<Rightarrow> 'd \<Rightarrow>
     (BlockIntegrator \<times> 'd) option"
where
  "LoadFromFs_init e storage fs reloadFrom bi d =
     (let reloadFrom = 0 in
      do { listing \<leftarrow> BlockStorage_getFiles storage fs;
           case listing of
             None \<Rightarrow> Some (bi, d)
           | Some fl \<Rightarrow> loadFiles e storage fs reloadFrom fl bi d })"

section \<open>Pending blocks\<close>

text \<open>What the loop over the pending blocks relies on: a finite pool in which a block that is already
  there is kept and a removed block is gone.\<close>

locale block_pool =
  fixes find :: "'p \<Rightarrow> 'k \<Rightarrow> 'v option"
    and add :: "'k \<Rightarrow> 'v \<Rightarrow> 'p \<Rightarrow> 'p"
    and remove :: "'k \<Rightarrow> 'p \<Rightarrow> 'p"
    and ok :: "'p \<Rightarrow> bool"
  assumes find_add: "ok p \<Longrightarrow> find (add k v p) k' = (if k' = k \<and> find p k = None then Some v else find p k')"
    and find_remove: "ok p \<Longrightarrow> find (remove k p) k' = (if k' = k then None else find p k')"
    and ok_add: "ok p \<Longrightarrow> ok (add k v p)"
    and ok_remove: "ok p \<Longrightarrow> ok (remove k p)"
    and finite_pool: "finite {k. find p k \<noteq> None}"
begin

lemma card_remove:
  assumes "ok p" and "find p k \<noteq> None"
  shows "card {k'. find (remove k p) k' \<noteq> None} < card {k'. find p k' \<noteq> None}"
proof -
  have "{k'. find (remove k p) k' \<noteq> None} = {k'. find p k' \<noteq> None} - {k}"
    using assms(1) by (auto simp: find_remove)
  then show ?thesis
    using card_Diff1_less [OF finite_pool, of k p] assms(2) by simp
qed

lemma add_twice: "ok p \<Longrightarrow> find (add k w (add k v p)) k' = find (add k v p) k'"
  by (auto simp: find_add ok_add)

lemma add_then_remove:
  "ok p \<Longrightarrow> find p k = None \<Longrightarrow> find (remove k (add k v p)) k' = find p k'"
  by (simp add: find_add find_remove ok_add)

end

definition pend_find :: "BlockIntegrator \<Rightarrow> u32 \<times> u32 \<times> u32 \<Rightarrow> Block option" where
  "pend_find bi k =
     (case k of (recon, shard, block) \<Rightarrow>
        do { shards \<leftarrow> om_find (pendingRecons bi) recon;
             blocks \<leftarrow> om_find shards shard;
             om_find blocks block })"

definition shards_ok :: "PendingRecon \<Rightarrow> bool" where
  "shards_ok shards \<longleftrightarrow> shards \<noteq> [] \<and> om_ok shards \<and>
     (\<forall>s blocks. om_find shards s = Some blocks \<longrightarrow> blocks \<noteq> [] \<and> om_ok blocks)"

definition pend_ok :: "BlockIntegrator \<Rightarrow> bool" where
  "pend_ok bi \<longleftrightarrow> om_ok (pendingRecons bi) \<and> (\<forall>r shards. om_find (pendingRecons bi) r = Some shards \<longrightarrow> shards_ok shards)"

lemma om_emplace_nonempty [simp]: "om_emplace k v m \<noteq> []"
  by (cases m) (auto simp: om_emplace_def split: option.splits)

lemma shards_ok_put:
  "shards = [] \<or> shards_ok shards \<Longrightarrow> blocks \<noteq> [] \<Longrightarrow> om_ok blocks \<Longrightarrow> shards_ok (om_put s blocks shards)"
  by (auto simp: shards_ok_def om_map_simps om.ok_put om_ok_Nil om_ok_Cons om_keys_def)

lemma shards_ok_erase: "shards_ok shards \<Longrightarrow> om_erase s shards \<noteq> [] \<Longrightarrow> shards_ok (om_erase s shards)"
  by (auto simp: shards_ok_def om_map_simps om.ok_erase split: if_splits)

lemma pend_ok_put:
  "pend_ok bi \<Longrightarrow> shards_ok shards \<Longrightarrow> pend_ok (bi\<lparr>pendingRecons := om_put r shards (pendingRecons bi)\<rparr>)"
  by (auto simp: pend_ok_def om_map_simps om.ok_put)

lemma pend_ok_erase: "pend_ok bi \<Longrightarrow> pend_ok (bi\<lparr>pendingRecons := om_erase r (pendingRecons bi)\<rparr>)"
  by (auto simp: pend_ok_def om_map_simps om.ok_erase split: if_splits)

lemma pend_ok_frame: "pend_ok (bi\<lparr>dbIntegrator := x\<rparr>) = pend_ok bi" "pend_ok (bi\<lparr>shardCursor := c\<rparr>) = pend_ok bi"
  by (simp_all add: pend_ok_def)

lemma om_get_ok:
  assumes "pend_ok bi"
  shows "om_get (pendingRecons bi) r = [] \<or> shards_ok (om_get (pendingRecons bi) r)"
    "om_ok (om_get (om_get (pendingRecons bi) r) s)"
proof -
  show "om_get (pendingRecons bi) r = [] \<or> shards_ok (om_get (pendingRecons bi) r)"
    using assms by (auto simp: pend_ok_def om_get_def split: option.splits)
  then show "om_ok (om_get (om_get (pendingRecons bi) r) s)"
    by (auto simp: shards_ok_def om_get_def om_ok_Nil split: option.splits)
qed

definition shards_find :: "PendingRecon \<Rightarrow> u32 \<times> u32 \<Rightarrow> Block option" where
  "shards_find shards k = (case k of (s, b) \<Rightarrow> do { blocks \<leftarrow> om_find shards s; om_find blocks b })"

lemma pend_find_shards: "pend_find bi (r, k) = shards_find (om_get (pendingRecons bi) r) k"
  by (cases k; cases "om_find (pendingRecons bi) r") (simp_all add: pend_find_def shards_find_def om_get_def)

lemma shards_find_get: "shards_find shards (s, b) = om_find (om_get shards s) b"
  by (cases "om_find shards s") (simp_all add: shards_find_def om_get_def)

lemma om_get_simps:
  "om_get (om_put k v m) k' = (if k' = k then v else om_get m k')"
  "om_get (om_erase k m) k' = (if k' = k then [] else om_get m k')"
  by (simp_all add: om_get_def om_map_simps)

lemmas pend_find_simps = pend_find_shards shards_find_get om_get_simps om_map_simps

lemma pend_find_addPending:
  "pend_find (addPending r s b data bi) k =
     (if k = (r, s, b) \<and> pend_find bi k = None then Some data else pend_find bi k)"
  by (cases k) (auto simp: addPending_def Let_def pend_find_simps)

lemma pend_ok_addPending:
  assumes "pend_ok bi"
  shows "pend_ok (addPending r s b data bi)"
proof -
  have "shards_ok (om_put s (om_emplace b data (om_get (om_get (pendingRecons bi) r) s)) (om_get (pendingRecons bi) r))"
    using om_get_ok [OF assms] by (intro shards_ok_put) (auto intro: om.ok_emplace)
  from pend_ok_put [OF assms this, of r] show ?thesis
    by (simp add: addPending_def Let_def pend_ok_def)
qed

lemma pend_find_removeBlock:
  "pend_find (removeBlock r s b bi) k = (if k = (r, s, b) then None else pend_find bi k)"
proof (cases "\<exists>shards blocks. om_find (pendingRecons bi) r = Some shards \<and> om_find shards s = Some blocks")
  case True
  then obtain shards blocks where *: "om_find (pendingRecons bi) r = Some shards" "om_find shards s = Some blocks"
    by blast
  let ?blocks = "om_erase b blocks"
  let ?shards = "if ?blocks = [] then om_erase s shards else om_put s ?blocks shards"
  have get: "om_get (pendingRecons bi) r = shards" "om_get shards s = blocks"
    using * by (simp_all add: om_get_def)
  have sh: "om_get ?shards s' = (if s' = s then ?blocks else om_get shards s')" for s'
    by (simp add: om_get_simps)
  then have "?shards = [] \<Longrightarrow> om_get ?shards s' = []" for s'
    by (simp add: om_get_def)
  then have "om_get (pendingRecons (removeBlock r s b bi)) r' = (if r' = r then ?shards else om_get (pendingRecons bi) r')" for r'
    by (simp add: removeBlock_def * Let_def om_get_simps)
  then show ?thesis
    using sh get by (cases k) (auto simp: pend_find_shards shards_find_get om_map_simps)
next
  case False
  then have "removeBlock r s b bi = bi" "pend_find bi (r, s, b) = None"
    by (auto simp: removeBlock_def pend_find_def split: option.splits bind_splits)
  then show ?thesis by simp
qed

lemma pend_ok_removeBlock:
  assumes "pend_ok bi"
  shows "pend_ok (removeBlock r s b bi)"
proof (cases "\<exists>shards blocks. om_find (pendingRecons bi) r = Some shards \<and> om_find shards s = Some blocks")
  case True
  then obtain shards blocks where *: "om_find (pendingRecons bi) r = Some shards" "om_find shards s = Some blocks"
    by blast
  let ?blocks = "om_erase b blocks"
  let ?shards = "if ?blocks = [] then om_erase s shards else om_put s ?blocks shards"
  have sh: "shards_ok shards" using assms * by (auto simp: pend_ok_def)
  then have "om_ok ?blocks" using *(2) by (auto simp: shards_ok_def om.ok_erase)
  with sh have "?shards \<noteq> [] \<Longrightarrow> shards_ok ?shards"
    by (auto intro: shards_ok_put shards_ok_erase split: if_splits)
  with pend_ok_put [OF assms, of ?shards r] pend_ok_erase [OF assms, of r] show ?thesis
    by (simp add: removeBlock_def * Let_def)
qed (use assms in \<open>auto simp: removeBlock_def split: option.splits\<close>)

lemma finite_om_dom: "finite {k. om_find m k \<noteq> None}"
  using finite_dom_map_of [of m] by (simp add: om_find_def dom_def)

lemma finite_pend: "finite {k. pend_find bi k \<noteq> None}"
proof -
  let ?R = "{r. om_find (pendingRecons bi) r \<noteq> None}"
  let ?S = "\<lambda>r. {s. om_find (om_get (pendingRecons bi) r) s \<noteq> None}"
  let ?B = "\<lambda>r s. {b. om_find (om_get (om_get (pendingRecons bi) r) s) b \<noteq> None}"
  have "{k. pend_find bi k \<noteq> None} \<subseteq> (SIGMA r : ?R. SIGMA s : ?S r. ?B r s)"
    by (auto simp: pend_find_def om_get_def split: bind_splits option.splits)
  moreover have "finite (SIGMA r : ?R. SIGMA s : ?S r. ?B r s)"
    by (intro finite_SigmaI finite_om_dom)
  ultimately show ?thesis by (rule finite_subset)
qed

interpretation pend: block_pool pend_find "\<lambda>(r, s, b). addPending r s b" "\<lambda>(r, s, b). removeBlock r s b" pend_ok
  by unfold_locales
    (auto simp: pend_find_addPending pend_find_removeBlock finite_pend split: prod.splits
      intro: pend_ok_addPending pend_ok_removeBlock)

section \<open>The integration loop\<close>

text \<open>A pending block can be copied, and its copy is well-formed.\<close>

definition block_good :: "('h, 'd, 'k, 'bn) curator_env \<Rightarrow> Block \<Rightarrow> bool" where
  "block_good e data \<longleftrightarrow>
     (\<exists>c. Block_assign_copy (cLong e) Block_new data = Some c \<and> Block_inv c \<and> Genesis_printable c)"

definition integ_ok :: "('h, 'd, 'k, 'bn) curator_env \<Rightarrow> BlockIntegrator \<Rightarrow> 'd \<Rightarrow> bool" where
  "integ_ok e bi d \<longleftrightarrow> pend_ok bi \<and> shardCursor bi = 0 \<and> (\<forall>k data. pend_find bi k = Some data \<longrightarrow> block_good e data) \<and>
     init_ready e (dbIntegrator bi) d \<and> DbIntegrator_inv (dbIntegrator bi)"

definition env_works :: "('h, 'd, 'k, 'bn) curator_env \<Rightarrow> ('bn \<Rightarrow> nat) \<Rightarrow> bool" where
  "env_works e val \<longleftrightarrow> db_works (cOzo e) \<and> cConnected e \<and> bn_laws (cBn e) val"

lemma pend_head:
  assumes "pend_ok bi" and "pendingRecons bi = (r, shards) # m"
  obtains s blocks ss b data bs where "shards = (s, blocks) # ss" "blocks = (b, data) # bs"
    "pend_find bi (r, s, b) = Some data"
    "\<And>r' s' b'. pend_find bi (r', s', b') \<noteq> None \<Longrightarrow> r \<le> r'"
proof -
  have r: "om_find (pendingRecons bi) r = Some shards"
    using assms(2) by (simp add: om_find_Cons)
  then have sh: "shards_ok shards" using assms(1) by (auto simp: pend_ok_def)
  then obtain s blocks ss where s: "shards = (s, blocks) # ss"
    by (cases shards) (auto simp: shards_ok_def)
  then have s': "om_find shards s = Some blocks" by (simp add: om_find_Cons)
  then have "blocks \<noteq> []" using sh by (auto simp: shards_ok_def)
  then obtain b data bs where b: "blocks = (b, data) # bs" by (cases blocks) auto
  have "r \<le> r'" if "pend_find bi (r', s', b') \<noteq> None" for r' s' b'
  proof -
    from that obtain sh' where "om_find (pendingRecons bi) r' = Some sh'"
      by (auto simp: pend_find_def split: bind_splits)
    with assms show ?thesis by (metis om_head_least pend_ok_def)
  qed
  moreover have "pend_find bi (r, s, b) = Some data"
    using r s' b by (simp add: pend_find_def om_find_Cons)
  ultimately show ?thesis using that s b by blast
qed

lemma tryNext_idle: "pendingRecons bi = [] \<Longrightarrow> tryNext e bi d = Some (False, bi, d)"
  by (simp add: tryNext_def)

lemma pend_none_iff:
  assumes "pend_ok bi"
  shows "(\<forall>k. pend_find bi k = None) \<longleftrightarrow> pendingRecons bi = []"
proof
  assume none: "\<forall>k. pend_find bi k = None"
  show "pendingRecons bi = []"
  proof (rule ccontr)
    assume "pendingRecons bi \<noteq> []"
    then obtain r shards m where "pendingRecons bi = (r, shards) # m" by (cases "pendingRecons bi") auto
    then show False by (rule pend_head [OF assms]) (use none in simp)
  qed
qed (simp add: pend_find_def)

lemma tryNext_head:
  assumes ok: "integ_ok e bi d0" and some: "pend_find bi k \<noteq> None"
  obtains r s b data c where "pend_find bi (r, s, b) = Some data"
    "\<And>r' s' b'. pend_find bi (r', s', b') \<noteq> None \<Longrightarrow> r \<le> r'"
    "Block_assign_copy (cLong e) Block_new data = Some c" "Block_inv c" "Genesis_printable c"
    "\<And>d. tryNext e bi d =
       map_option (\<lambda>(ret, x, det, d). (isSuccess ret,
           (if isSuccess ret \<or> isBadBlock ret then removeBlock r s b (bi\<lparr>dbIntegrator := x\<rparr>) else bi\<lparr>dbIntegrator := x\<rparr>), d))
         (DbIntegrator_integrate e c r s b (dbIntegrator bi) Details_new d)"
proof -
  have pend: "pend_ok bi" and cur: "shardCursor bi = 0" using ok by (auto simp: integ_ok_def)
  obtain r shards m where h: "pendingRecons bi = (r, shards) # m"
    using some pend_none_iff [OF pend] by (metis list.exhaust old.prod.exhaust)
  obtain s blocks ss b data bs where hd: "shards = (s, blocks) # ss" "blocks = (b, data) # bs"
      "pend_find bi (r, s, b) = Some data" "\<And>r' s' b'. pend_find bi (r', s', b') \<noteq> None \<Longrightarrow> r \<le> r'"
    by (rule pend_head [OF pend h]) blast
  obtain c where c: "Block_assign_copy (cLong e) Block_new data = Some c" "Block_inv c" "Genesis_printable c"
    using ok hd(3) unfolding integ_ok_def block_good_def by blast
  have "tryNext e bi d =
       map_option (\<lambda>(ret, x, det, d). (isSuccess ret,
           (if isSuccess ret \<or> isBadBlock ret then removeBlock r s b (bi\<lparr>dbIntegrator := x\<rparr>) else bi\<lparr>dbIntegrator := x\<rparr>), d))
         (DbIntegrator_integrate e c r s b (dbIntegrator bi) Details_new d)" for d
    by (cases "DbIntegrator_integrate e c r s b (dbIntegrator bi) Details_new d")
      (simp_all add: tryNext_def h hd(1,2) cur c(1) Let_def split: prod.splits)
  then show ?thesis using that hd(3,4) c by blast
qed

lemma pend_find_frame [simp]: "pend_find (bi\<lparr>dbIntegrator := x\<rparr>) k = pend_find bi k"
  by (cases k) (simp add: pend_find_def)

lemma dbIntegrator_removeBlock [simp]:
  "dbIntegrator (removeBlock r s b bi) = dbIntegrator bi" "shardCursor (removeBlock r s b bi) = shardCursor bi"
  by (simp_all add: removeBlock_def Let_def split: option.splits)

lemma integ_ok_update:
  assumes "integ_ok e bi d" and "initialized x" and "DbIntegrator_inv x"
  shows "integ_ok e (bi\<lparr>dbIntegrator := x\<rparr>) d'" "integ_ok e (removeBlock r s b (bi\<lparr>dbIntegrator := x\<rparr>)) d'"
  using assms by (simp_all add: integ_ok_def init_ready_def pend_ok_frame pend_ok_removeBlock pend_find_removeBlock)

lemma tryNext_works:
  assumes env: "env_works e val" and ok: "integ_ok e bi d"
  obtains retry bi' d' where "tryNext e bi d = Some (retry, bi', d')" "integ_ok e bi' d'"
    "retry \<Longrightarrow> card {k. pend_find bi' k \<noteq> None} < card {k. pend_find bi k \<noteq> None}"
proof (cases "\<forall>k. pend_find bi k = None")
  case True
  then have "pendingRecons bi = []" using pend_none_iff ok by (simp add: integ_ok_def)
  with that [of False bi d] ok show ?thesis by (simp add: tryNext_idle)
next
  case False
  then obtain k where k: "pend_find bi k \<noteq> None" by blast
  obtain r s b data c where h: "pend_find bi (r, s, b) = Some data"
    "Block_inv c" "Genesis_printable c" and attempt: "\<And>d. tryNext e bi d =
       map_option (\<lambda>(ret, x, det, d). (isSuccess ret,
           (if isSuccess ret \<or> isBadBlock ret then removeBlock r s b (bi\<lparr>dbIntegrator := x\<rparr>) else bi\<lparr>dbIntegrator := x\<rparr>), d))
         (DbIntegrator_integrate e c r s b (dbIntegrator bi) Details_new d)"
    by (rule tryNext_head [OF ok k]) blast
  have x: "init_ready e (dbIntegrator bi) d" "DbIntegrator_inv (dbIntegrator bi)" "pend_ok bi"
    using ok by (auto simp: integ_ok_def)
  obtain ret x' det' d' where i: "DbIntegrator_integrate e c r s b (dbIntegrator bi) Details_new d = Some (ret, x', det', d')"
      "initialized x'"
    using integrate_answers [OF _ _ isOk_new x(1) _ h(3,2) x(2)] env unfolding env_works_def by blast
  have inv: "DbIntegrator_inv x'" using integrate_step [OF i(1) x(2)] by simp
  have "card {k. pend_find (removeBlock r s b (bi\<lparr>dbIntegrator := x'\<rparr>)) k \<noteq> None} < card {k. pend_find bi k \<noteq> None}"
    using pend.card_remove [of "bi\<lparr>dbIntegrator := x'\<rparr>" "(r, s, b)"] x(3) h(1) by (simp add: pend_ok_frame)
  then show ?thesis
    using that attempt [of d] i(1) integ_ok_update [OF ok i(2) inv]
    by (simp split: if_splits)
qed

lemma tryIntegrate_works:
  assumes env: "env_works e val"
  shows "integ_ok e bi d \<Longrightarrow> \<exists>bi' d'. tryIntegrate e bi d = Some (bi', d') \<and> integ_ok e bi' d'"
proof (induction "card {k. pend_find bi k \<noteq> None}" arbitrary: bi d rule: less_induct)
  case less
  obtain retry bi' d' where t: "tryNext e bi d = Some (retry, bi', d')" "integ_ok e bi' d'"
    "retry \<Longrightarrow> card {k. pend_find bi' k \<noteq> None} < card {k. pend_find bi k \<noteq> None}"
    by (rule tryNext_works [OF env less.prems]) blast
  show ?case
  proof (cases retry)
    case True
    with less.hyps [OF t(3) t(2)] t(1) show ?thesis
      by (simp add: tryIntegrate.simps [of e bi d])
  next
    case False
    with t show ?thesis by (simp add: tryIntegrate.simps [of e bi d])
  qed
qed

section \<open>Adding a block\<close>

text \<open>The length of an ASN.1 string is a C \<^verbatim>\<open>int\<close>.\<close>

definition asn1_lengths :: "('h, 'd, 'k, 'bn) curator_env \<Rightarrow> bool" where
  "asn1_lengths e \<longleftrightarrow> (\<forall>bin g. cd2i_Block e bin = Some (Block_genesis g) \<longrightarrow>
     length (gCreator_a g) < 2 ^ 31 \<and> length (gStakeAddress_a g) < 2 ^ 31)"

lemma Transaction_inv_decoded: "Transaction_inv (Transaction_move (Transaction_fromAsn1 og t Transaction_new))"
  by (simp add: Transaction_inv_def Transaction_move_def Transaction_assign_move_def Transaction_resetChoice_def
      Transaction_fromAsn1_def Transaction_new_def Let_def split: TransactionChoice_st.splits)

lemma toTransactionStack_Some:
  "list_all Transaction_inv txs \<Longrightarrow> \<exists>st. toTransactionStack txs = Some st"
proof (induction txs)
  case (Cons x txs)
  then obtain t st where "Transaction_toAsn1 x Transaction_st_new = Some t" "toTransactionStack txs = Some st"
    using Transaction_toAsn1_Some by (metis list.pred_inject(2))
  then show ?case by (simp add: toTransactionStack_def)
qed (simp add: toTransactionStack_def)

lemma Node_toAsn1_decoded: "\<exists>t'. Node_toAsn1 (Node_fromAsn1 og t) Node_st_new = Some t'"
proof -
  have "list_all Transaction_inv (nTransactions (Node_fromAsn1 og t))"
    by (auto simp: Node_fromAsn1_def Let_def fromTransactionStack_def from_stack_def list_all_iff Transaction_inv_decoded)
  from toTransactionStack_Some [OF this] show ?thesis by (auto simp: Node_toAsn1_def Let_def)
qed

lemma Block_inv_fromAsn1: "Block_inv (Block_fromAsn1 og t Block_new)"
  by (intro Block_reach_inv Block_reach.intros)

lemma decoded_block_good:
  assumes "asn1_lengths e" and "decode_Block (cd2i_Block e) (cLong e) bin Block_new = Some data"
  shows "block_good e data"
proof -
  obtain t where t: "cd2i_Block e bin = Some t" "data = Block_fromAsn1 (cLong e) t Block_new"
    using assms(2) by (auto simp: decode_Block_def)
  have "\<exists>t'. Block_toAsn1 data = Some t'"
  proof (cases t)
    case (Block_node n)
    with Node_toAsn1_decoded [of "cLong e" n] show ?thesis
      by (auto simp: t(2) Block_toAsn1_def Block_ops)
  qed (simp_all add: t(2) Block_toAsn1_def Block_ops)
  then obtain t' where t': "Block_toAsn1 data = Some t'" by blast
  let ?c = "Block_fromAsn1 (cLong e) t' Block_new"
  have "Genesis_printable ?c"
  proof (cases t)
    case (Block_genesis g)
    with assms(1) t have "length (gCreator_a g) < 2 ^ 31" "length (gStakeAddress_a g) < 2 ^ 31"
      unfolding asn1_lengths_def by blast+
    with t' t(2) Block_genesis show ?thesis
      by (auto simp: Genesis_printable_def Block_toAsn1_def Block_ops Genesis_toAsn1_def Genesis_fromAsn1_def
          Address_toAsn1_def Address_fromAsn1_def toBin_def fromBin_small fits_int_def)
  qed (use t' t(2) in \<open>auto simp: Genesis_printable_def Block_toAsn1_def Block_ops split: bind_splits\<close>)
  then show ?thesis
    using t' Block_inv_fromAsn1 by (auto simp: block_good_def Block_assign_copy_def)
qed

lemma Block_move_new [simp]: "fst (Block_assign_move Block_new b) = b"
  by (cases b) (simp add: Block_ops)

lemma integ_ok_addPending:
  assumes "integ_ok e bi d" and "block_good e data"
  shows "integ_ok e (addPending r s b data bi) d"
  using assms pend_ok_addPending [of bi r s b data]
  by (auto simp: integ_ok_def pend_find_addPending split: if_splits) (auto simp: addPending_def Let_def)

lemma addBlock_works:
  assumes "env_works e val" and "asn1_lengths e" and "integ_ok e bi d"
  shows "\<exists>bi' d'. BlockIntegrator_addBlock e bin r s b bi d = Some (bi', d') \<and> integ_ok e bi' d'"
proof (cases "decode_Block (cd2i_Block e) (cLong e) bin Block_new")
  case (Some data)
  then have "integ_ok e (addPending r s b data bi) d"
    using decoded_block_good [OF assms(2)] integ_ok_addPending [OF assms(3)] by blast
  from tryIntegrate_works [OF assms(1) this] Some show ?thesis
    by (simp add: BlockIntegrator_addBlock_def)
qed (use assms(3) in \<open>simp add: BlockIntegrator_addBlock_def\<close>)

text \<open>
  Claim C14.  With a working database, and an integrator that either has initialized itself or is to begin with an empty
  table of imported blocks, handing any bytes under any index to the integrator returns: the loop that integrates
  pending blocks ends, the pool stays ordered and free of empty lists, and the integrator can be called again.
\<close>

theorem BlockIntegrator_addBlock_returns:
  assumes "env_works e val" and "asn1_lengths e" and "integ_ok e bi d"
  shows "\<exists>bi' d'. BlockIntegrator_addBlock e bin r s b bi d = Some (bi', d') \<and> integ_ok e bi' d'"
  by (rule addBlock_works [OF assms])

lemma integ_ok_new: "init_ready e DbIntegrator_new d \<Longrightarrow> integ_ok e BlockIntegrator_new d"
  by (auto simp: integ_ok_def BlockIntegrator_new_def pend_ok_def pend_find_def om_map_simps om_keeps_ok keeps)

section \<open>Order of arrival\<close>

lemma integrate_early:
  assumes works: "db_works (cOzo e)" and "cConnected e" and ready: "init_ready e x d" and "recon \<noteq> currentRecon x"
  shows "\<exists>x' det' d'. DbIntegrator_integrate e data recon shard block x Details_new d =
      Some (if recon > currentRecon x then RsNotReady else RsAlreadyDone, x', det', d') \<and>
      initialized x' \<and> chain_of x' = chain_of x \<and> (DbIntegrator_inv x \<longrightarrow> DbIntegrator_inv x')"
proof -
  obtain s d1 where s: "Database_newSession (cOzo e) (cConnected e) Details_new d = (s, Details_new, d1)"
      "session_open (cOzo e) s"
    using newSession_works [OF works] assms(2) by metis
  have blk: "currentRecon y = currentRecon x \<Longrightarrow> integrate_block e data recon shard block y s' det' d' =
      Some (if recon > currentRecon x then RsNotReady else RsAlreadyDone, y, s', det', d')" for y s' det' d'
    using assms(4) by (auto simp: integrate_block_def)
  show ?thesis
  proof (cases "initialized x")
    case True
    with s blk show ?thesis by (simp add: DbIntegrator_integrate_def)
  next
    case False
    obtain s' d' where "DbIntegrator_init e x s Details_new d1 =
        Some (RsSuccess, x\<lparr>initialized := True\<rparr>, s', Details_new, d')"
      using DbIntegrator_init_works [OF works s(1) [unfolded assms(2) [THEN eqTrueI]] isOk_new ready False] by blast
    with False s blk show ?thesis by (simp add: DbIntegrator_integrate_def)
  qed
qed

text \<open>A chain of blocks, one per reconciliation number, and the states it goes through.\<close>

fun chain_states :: "('h, 'd, 'k, 'bn) curator_env \<Rightarrow> Block list \<Rightarrow> chain \<Rightarrow> chain list option" where
  "chain_states e [] c = Some [c]"
| "chain_states e (b # bs) c =
     do { c' \<leftarrow> chain_next e b (fst c) 0 0 c; cs \<leftarrow> chain_states e bs c'; Some (c # cs) }"

definition load_block :: "('h, 'd, 'k, 'bn) curator_env \<Rightarrow> bytes \<Rightarrow> Block option" where
  "load_block e bin =
     do { data \<leftarrow> decode_Block (cd2i_Block e) (cLong e) bin Block_new;
          Block_assign_copy (cLong e) Block_new data }"

fun add_all ::
  "('h, 'd, 'k, 'bn) curator_env \<Rightarrow> bytes list \<Rightarrow> nat list \<Rightarrow> BlockIntegrator \<Rightarrow> 'd \<Rightarrow> (BlockIntegrator \<times> 'd) option"
where
  "add_all e bins [] bi d = Some (bi, d)"
| "add_all e bins (i # js) bi d =
     do { (bi', d') \<leftarrow> BlockIntegrator_addBlock e (bins ! i) (of_nat i) 0 0 bi d; add_all e bins js bi' d' }"

definition chain_bins :: "('h, 'd, 'k, 'bn) curator_env \<Rightarrow> bytes list \<Rightarrow> Block list \<Rightarrow> chain list \<Rightarrow> bool" where
  "chain_bins e bins blocks cs \<longleftrightarrow> map (load_block e) bins = map Some blocks \<and>
     chain_states e blocks (0, None) = Some cs \<and> length bins < 2 ^ 32"

lemma chain_states_nth:
  "chain_states e bs c = Some cs \<Longrightarrow>
     length cs = Suc (length bs) \<and> cs ! 0 = c \<and>
     (\<forall>i < length bs. chain_next e (bs ! i) (fst (cs ! i)) 0 0 (cs ! i) = Some (cs ! Suc i))"
proof (induction e bs c arbitrary: cs rule: chain_states.induct)
  case (2 e b bs c)
  then obtain c' cs' where *: "chain_next e b (fst c) 0 0 c = Some c'" "chain_states e bs c' = Some cs'" "cs = c # cs'"
    by (auto split: bind_splits)
  with "2.IH" [of c' cs'] show ?case by (auto simp: nth_Cons split: nat.splits)
qed auto

lemma chain_next_advances: "chain_next e b r 0 0 (cur, tip) = Some c \<Longrightarrow> fst c = cur + 1"
  by (auto simp: chain_next_def split: if_splits option.splits)

lemma chain_states_fst:
  assumes "chain_states e bs (0, None) = Some cs" and "i \<le> length bs"
  shows "fst (cs ! i) = of_nat i"
  using assms(2)
proof (induction i)
  case (Suc i)
  have "chain_next e (bs ! i) (fst (cs ! i)) 0 0 (cs ! i) = Some (cs ! Suc i)"
    using chain_states_nth [OF assms(1)] Suc.prems by simp
  with Suc show ?case by (cases "cs ! i") (auto dest!: chain_next_advances simp: add.commute)
qed (use chain_states_nth [OF assms(1)] in simp)

definition pool_at :: "(nat \<Rightarrow> Block) \<Rightarrow> nat set \<Rightarrow> nat \<Rightarrow> BlockIntegrator \<Rightarrow> bool" where
  "pool_at dat S k bi \<longleftrightarrow> (\<forall>r s b. pend_find bi (r, s, b) =
     (if s = 0 \<and> b = 0 \<and> unat r \<in> S \<and> k \<le> unat r then Some (dat (unat r)) else None))"

definition chain_at :: "('h, 'd, 'k, 'bn) curator_env \<Rightarrow> chain list \<Rightarrow> (nat \<Rightarrow> Block) \<Rightarrow> nat set \<Rightarrow> nat \<Rightarrow> BlockIntegrator \<Rightarrow> 'd \<Rightarrow> bool" where
  "chain_at e cs dat S k bi d \<longleftrightarrow> integ_ok e bi d \<and> chain_of (dbIntegrator bi) = cs ! k \<and> pool_at dat S k bi"

lemma unat_of_nat_small: "i < 2 ^ 32 \<Longrightarrow> unat (of_nat i :: u32) = i"
  by (simp add: unsigned_of_nat take_bit_nat_eq_self)

lemma chain_block:
  assumes "chain_bins e bins blocks cs" and "i < length bins"
    and "decode_Block (cd2i_Block e) (cLong e) (bins ! i) Block_new = Some dat"
    and "Block_assign_copy (cLong e) Block_new dat = Some c"
  shows "c = blocks ! i" "chain_next e c (of_nat i) 0 0 (cs ! i) = Some (cs ! Suc i)"
proof -
  have maps: "map (load_block e) bins = map Some blocks"
    using assms(1) by (simp add: chain_bins_def)
  then have len: "length blocks = length bins" by (metis length_map)
  have "load_block e (bins ! i) = Some (blocks ! i)"
    using maps assms(2) len by (metis nth_map)
  with assms(3,4) show c: "c = blocks ! i" by (simp add: load_block_def)
  have "chain_states e blocks (0, None) = Some cs" using assms(1) by (simp add: chain_bins_def)
  from chain_states_nth [OF this] chain_states_fst [OF this, of i] assms(2) len c
  show "chain_next e c (of_nat i) 0 0 (cs ! i) = Some (cs ! Suc i)" by auto
qed

lemma tryNext_chain_step:
  assumes env: "env_works e val" and bins: "chain_bins e bins blocks cs"
    and dat: "\<And>i. i < length bins \<Longrightarrow> decode_Block (cd2i_Block e) (cLong e) (bins ! i) Block_new = Some (dat i)"
    and S: "S \<subseteq> {..<length bins}" and at: "chain_at e cs dat S k bi d" and k: "k \<in> S"
  shows "\<exists>bi' d'. tryNext e bi d = Some (True, bi', d') \<and> chain_at e cs dat S (Suc k) bi' d'"
proof -
  have small: "length bins < 2 ^ 32" using bins by (simp add: chain_bins_def)
  have ok: "integ_ok e bi d" and chain: "chain_of (dbIntegrator bi) = cs ! k" and pool: "pool_at dat S k bi"
    using at by (auto simp: chain_at_def)
  have kb: "k < length bins" using S k by auto
  have uk: "unat (of_nat k :: u32) = k" using kb small by (simp add: unat_of_nat_small)
  then have some: "pend_find bi (of_nat k, 0, 0) \<noteq> None" using pool k by (simp add: pool_at_def)
  obtain r s b data c where h: "pend_find bi (r, s, b) = Some data" "r \<le> of_nat k"
    "Block_assign_copy (cLong e) Block_new data = Some c" "Block_inv c" "Genesis_printable c"
    and attempt: "tryNext e bi d = map_option (\<lambda>(ret, x, det, d). (isSuccess ret,
           (if isSuccess ret \<or> isBadBlock ret then removeBlock r s b (bi\<lparr>dbIntegrator := x\<rparr>) else bi\<lparr>dbIntegrator := x\<rparr>), d))
         (DbIntegrator_integrate e c r s b (dbIntegrator bi) Details_new d)"
    by (rule tryNext_head [OF ok some]) (use some in blast)
  have sb: "s = 0" "b = 0" "unat r \<in> S" "k \<le> unat r" "data = dat (unat r)"
    using h(1) pool by (auto simp: pool_at_def split: if_splits)
  have "unat r \<le> k" using h(2) uk by (simp add: word_le_nat_alt)
  with sb(4) have rk: "unat r = k" by simp
  then have r: "r = of_nat k" by (metis of_nat_unat ucast_id)
  have nx: "chain_next e c r 0 0 (cs ! k) = Some (cs ! Suc k)"
    using chain_block(2) [OF bins kb dat [OF kb]] h(3) sb(5) rk r by simp
  have x: "init_ready e (dbIntegrator bi) d" "DbIntegrator_inv (dbIntegrator bi)"
    using ok by (auto simp: integ_ok_def)
  obtain x' det' d' where i: "DbIntegrator_integrate e c r 0 0 (dbIntegrator bi) Details_new d = Some (RsSuccess, x', det', d')"
      "initialized x'"
    using integrate_answers [OF _ _ isOk_new x(1) _ h(5,4) x(2), of val r 0 0] env nx chain
    unfolding env_works_def by (metis option.discI)
  have inv: "DbIntegrator_inv x'" "chain_of x' = cs ! Suc k"
    using integrate_step [OF i(1) x(2)] nx chain by simp_all
  have "tryNext e bi d = Some (True, removeBlock r 0 0 (bi\<lparr>dbIntegrator := x'\<rparr>), d')"
    using attempt i(1) sb(1,2) by (simp add: isSuccess_def)
  moreover have "pool_at dat S (Suc k) (removeBlock r 0 0 (bi\<lparr>dbIntegrator := x'\<rparr>))"
    using pool rk unfolding pool_at_def
    by (auto simp: pend_find_removeBlock Suc_le_eq le_less word_unat_eq_iff)
  ultimately show ?thesis
    using integ_ok_update(2) [OF ok i(2) inv(1)] inv(2)
    by (auto simp: chain_at_def)
qed

lemma tryNext_chain_stop:
  assumes env: "env_works e val" and at: "chain_at e cs dat S k bi d"
    and k: "k \<notin> S" and cur: "fst (cs ! k) = of_nat k" "k < 2 ^ 32"
  shows "\<exists>bi' d'. tryNext e bi d = Some (False, bi', d') \<and> chain_at e cs dat S k bi' d'"
proof (cases "\<forall>q. pend_find bi q = None")
  case True
  then have "pendingRecons bi = []" using pend_none_iff at by (simp add: chain_at_def integ_ok_def)
  with at show ?thesis by (simp add: tryNext_idle)
next
  case False
  then obtain q where some: "pend_find bi q \<noteq> None" by blast
  have ok: "integ_ok e bi d" and chain: "chain_of (dbIntegrator bi) = cs ! k" and pool: "pool_at dat S k bi"
    using at by (auto simp: chain_at_def)
  obtain r s b data c where h: "pend_find bi (r, s, b) = Some data"
    and attempt: "tryNext e bi d = map_option (\<lambda>(ret, x, det, d). (isSuccess ret,
           (if isSuccess ret \<or> isBadBlock ret then removeBlock r s b (bi\<lparr>dbIntegrator := x\<rparr>) else bi\<lparr>dbIntegrator := x\<rparr>), d))
         (DbIntegrator_integrate e c r s b (dbIntegrator bi) Details_new d)"
    by (rule tryNext_head [OF ok some]) blast
  have "unat r \<in> S" "k \<le> unat r"
    using h(1) pool by (auto simp: pool_at_def split: if_splits)
  with k have "k < unat r" by (metis le_less)
  moreover have "currentRecon (dbIntegrator bi) = of_nat k"
    using chain cur by (simp add: chain_of_def prod_eq_iff)
  ultimately have gt: "r > currentRecon (dbIntegrator bi)"
    using cur(2) by (simp add: word_less_nat_alt unat_of_nat_small)
  have x: "init_ready e (dbIntegrator bi) d" "DbIntegrator_inv (dbIntegrator bi)"
    using ok by (auto simp: integ_ok_def)
  obtain x' det' d' where i: "DbIntegrator_integrate e c r s b (dbIntegrator bi) Details_new d =
      Some (RsNotReady, x', det', d')" "initialized x'" "chain_of x' = chain_of (dbIntegrator bi)" "DbIntegrator_inv x'"
    using integrate_early [of e "dbIntegrator bi" d r c s b] env x gt unfolding env_works_def by auto
  have "tryNext e bi d = Some (False, bi\<lparr>dbIntegrator := x'\<rparr>, d')"
    using attempt i(1) by (simp add: isSuccess_def isBadBlock_def)
  moreover have "chain_at e cs dat S k (bi\<lparr>dbIntegrator := x'\<rparr>) d'"
    using integ_ok_update(1) [OF ok i(2) i(4)] chain pool i(3)
    by (simp add: chain_at_def pool_at_def)
  ultimately show ?thesis by blast
qed

lemma tryIntegrate_chain:
  assumes env: "env_works e val" and bins: "chain_bins e bins blocks cs"
    and dat: "\<And>i. i < length bins \<Longrightarrow> decode_Block (cd2i_Block e) (cLong e) (bins ! i) Block_new = Some (dat i)"
    and S: "S \<subseteq> {..<length bins}"
  shows "chain_at e cs dat S k bi d \<Longrightarrow> k \<le> length bins \<Longrightarrow>
    \<exists>k' bi' d'. tryIntegrate e bi d = Some (bi', d') \<and> k \<le> k' \<and> k' \<le> length bins \<and>
      {k..<k'} \<subseteq> S \<and> k' \<notin> S \<and> chain_at e cs dat S k' bi' d'"
proof (induction "length bins - k" arbitrary: k bi d rule: less_induct)
  case less
  show ?case
  proof (cases "k \<in> S")
    case True
    then have "length bins - Suc k < length bins - k" "Suc k \<le> length bins" using S by auto
    moreover obtain bi1 d1 where t: "tryNext e bi d = Some (True, bi1, d1)" "chain_at e cs dat S (Suc k) bi1 d1"
      using tryNext_chain_step [OF env bins dat S less.prems(1) True] by blast
    ultimately obtain k' bi' d' where i: "tryIntegrate e bi1 d1 = Some (bi', d')" "Suc k \<le> k'" "k' \<le> length bins"
        "{Suc k..<k'} \<subseteq> S" "k' \<notin> S" "chain_at e cs dat S k' bi' d'"
      using less.hyps [of "Suc k" bi1 d1] by blast
    have "{k..<k'} \<subseteq> insert k {Suc k..<k'}" by auto
    with i(4) True have "{k..<k'} \<subseteq> S" by blast
    with i t show ?thesis
      by (intro exI [of _ k'] exI [of _ bi'] exI [of _ d']) (simp add: tryIntegrate.simps [of e bi d])
  next
    case False
    have len: "length blocks = length bins" "length bins < 2 ^ 32" "chain_states e blocks (0, None) = Some cs"
      using bins by (auto simp: chain_bins_def dest: map_eq_imp_length_eq)
    then have "fst (cs ! k) = of_nat k" "k < 2 ^ 32"
      using chain_states_fst [OF len(3), of k] less.prems(2) by simp_all
    then obtain bi' d' where "tryNext e bi d = Some (False, bi', d')" "chain_at e cs dat S k bi' d'"
      using tryNext_chain_stop [OF env less.prems(1) False] by blast
    with False less.prems(2) show ?thesis
      by (intro exI [of _ k] exI [of _ bi'] exI [of _ d']) (simp add: tryIntegrate.simps [of e bi d])
  qed
qed

lemma dbIntegrator_addPending [simp]: "dbIntegrator (addPending r s b data bi) = dbIntegrator bi"
  by (simp add: addPending_def Let_def)

lemma tryIntegrate_late:
  assumes env: "env_works e val" and at: "chain_at e cs dat S k bi d" and good: "block_good e (dat j)"
    and cur: "fst (cs ! k) = of_nat k" "k < 2 ^ 32" and j: "j < k"
  shows "\<exists>bi' d'. tryIntegrate e (addPending (of_nat j) 0 0 (dat j) bi) d = Some (bi', d') \<and> chain_at e cs dat S k bi' d'"
proof -
  let ?bi = "addPending (of_nat j) 0 0 (dat j) bi"
  have bi: "integ_ok e bi d" and chain: "chain_of (dbIntegrator bi) = cs ! k" and pool: "pool_at dat S k bi"
    using at by (auto simp: chain_at_def)
  have uj: "unat (of_nat j :: u32) = j" using j cur(2) by (simp add: unat_of_nat_small)
  have ok: "integ_ok e ?bi d" by (rule integ_ok_addPending [OF bi good])
  have some: "pend_find ?bi (of_nat j, 0, 0) \<noteq> None" by (simp add: pend_find_addPending)
  obtain r s b data c where h: "pend_find ?bi (r, s, b) = Some data" "r \<le> of_nat j"
    and attempt: "tryNext e ?bi d = map_option (\<lambda>(ret, x, det, d). (isSuccess ret,
           (if isSuccess ret \<or> isBadBlock ret then removeBlock r s b (?bi\<lparr>dbIntegrator := x\<rparr>) else ?bi\<lparr>dbIntegrator := x\<rparr>), d))
         (DbIntegrator_integrate e c r s b (dbIntegrator ?bi) Details_new d)"
    by (rule tryNext_head [OF ok some]) (use some in blast)
  have "unat r \<le> j" using h(2) uj by (simp add: word_le_nat_alt)
  then have none: "pend_find bi (r, s, b) = None" using pool j by (auto simp: pool_at_def)
  then have rj: "(r, s, b) = (of_nat j, 0, 0)" using h(1) by (auto simp: pend_find_addPending split: if_splits)
  have "currentRecon (dbIntegrator bi) = of_nat k"
    using chain cur by (simp add: chain_of_def prod_eq_iff)
  then have lt: "r < currentRecon (dbIntegrator bi)"
    using rj j cur(2) uj by (simp add: word_less_nat_alt unat_of_nat_small)
  obtain x' det' d' where i: "DbIntegrator_integrate e c r s b (dbIntegrator ?bi) Details_new d =
      Some (RsAlreadyDone, x', det', d')" "initialized x'" "chain_of x' = chain_of (dbIntegrator bi)" "DbIntegrator_inv x'"
    using integrate_early [of e "dbIntegrator bi" d r c s b] env bi less_imp_neq [OF lt] less_not_sym [OF lt]
    unfolding env_works_def integ_ok_def by auto
  let ?bi' = "removeBlock r s b (?bi\<lparr>dbIntegrator := x'\<rparr>)"
  have "tryNext e ?bi d = Some (False, ?bi', d')"
    using attempt i(1) by (simp add: isSuccess_def isBadBlock_def)
  moreover have "pend_find ?bi' q = pend_find bi q" for q
    using pend.add_then_remove [of bi "(r, s, b)" "dat j" q] none bi rj
    by (cases q) (auto simp: integ_ok_def pend_find_removeBlock pend_find_addPending)
  ultimately show ?thesis
    using integ_ok_update(2) [OF ok i(2) i(4), of r s b] chain pool i(3)
    by (auto simp: tryIntegrate.simps [of e ?bi d] chain_at_def pool_at_def)
qed

lemma add_all_chain:
  assumes env: "env_works e val" and len: "asn1_lengths e" and bins: "chain_bins e bins blocks cs"
    and dat: "\<And>i. i < length bins \<Longrightarrow> decode_Block (cd2i_Block e) (cLong e) (bins ! i) Block_new = Some (dat i)"
  shows "chain_at e cs dat S k bi d \<Longrightarrow> k \<le> length bins \<Longrightarrow> {..<k} \<subseteq> S \<Longrightarrow> k \<notin> S \<Longrightarrow> S \<union> set js \<subseteq> {..<length bins} \<Longrightarrow>
    \<exists>k' bi' d'. add_all e bins js bi d = Some (bi', d') \<and> k' \<le> length bins \<and>
      {..<k'} \<subseteq> S \<union> set js \<and> k' \<notin> S \<union> set js \<and> chain_at e cs dat (S \<union> set js) k' bi' d'"
proof (induction js arbitrary: S k bi d)
  case Nil
  then show ?case by auto
next
  case (Cons j js)
  have cs: "length blocks = length bins" "length bins < 2 ^ 32" "chain_states e blocks (0, None) = Some cs"
    using bins by (auto simp: chain_bins_def dest: map_eq_imp_length_eq)
  have j: "j < length bins" using Cons.prems(5) by simp
  then have add: "BlockIntegrator_addBlock e (bins ! j) (of_nat j) 0 0 bi d =
      tryIntegrate e (addPending (of_nat j) 0 0 (dat j) bi) d"
    by (simp add: BlockIntegrator_addBlock_def dat)
  have good: "block_good e (dat j)" using decoded_block_good [OF len dat [OF j]] .
  have "\<exists>k1 bi1 d1. BlockIntegrator_addBlock e (bins ! j) (of_nat j) 0 0 bi d = Some (bi1, d1) \<and> k1 \<le> length bins \<and>
      {..<k1} \<subseteq> insert j S \<and> k1 \<notin> insert j S \<and> chain_at e cs dat (insert j S) k1 bi1 d1"
  proof (cases "j < k")
    case True
    then have "insert j S = S" using Cons.prems(3) by auto
    moreover have "fst (cs ! k) = of_nat k" "k < 2 ^ 32"
      using chain_states_fst [OF cs(3), of k] cs Cons.prems(2) by simp_all
    ultimately show ?thesis
      using tryIntegrate_late [OF env Cons.prems(1) good _ _ True] Cons.prems(2-4) add by metis
  next
    case False
    have "unat (of_nat j :: u32) = j" using j cs(2) by (simp add: unat_of_nat_small)
    then have "pool_at dat (insert j S) k (addPending (of_nat j) 0 0 (dat j) bi)"
      using Cons.prems(1) False unfolding chain_at_def pool_at_def
      by (auto simp: pend_find_addPending word_unat_eq_iff)
    then have "chain_at e cs dat (insert j S) k (addPending (of_nat j) 0 0 (dat j) bi) d"
      using Cons.prems(1) integ_ok_addPending [OF _ good] by (simp add: chain_at_def)
    from tryIntegrate_chain [OF env bins dat _ this Cons.prems(2)]
    obtain k1 bi1 d1 where "tryIntegrate e (addPending (of_nat j) 0 0 (dat j) bi) d = Some (bi1, d1)" "k \<le> k1"
        "k1 \<le> length bins" "{k..<k1} \<subseteq> insert j S" "k1 \<notin> insert j S" "chain_at e cs dat (insert j S) k1 bi1 d1"
      using Cons.prems(5) by auto
    moreover have "{..<k1} \<subseteq> {..<k} \<union> {k..<k1}" by auto
    moreover from calculation have "{..<k1} \<subseteq> insert j S" using Cons.prems(3) by blast
    ultimately show ?thesis
      by (intro exI [of _ k1] exI [of _ bi1] exI [of _ d1]) (simp add: add)
  qed
  then obtain k1 bi1 d1 where one: "BlockIntegrator_addBlock e (bins ! j) (of_nat j) 0 0 bi d = Some (bi1, d1)"
      "k1 \<le> length bins" "{..<k1} \<subseteq> insert j S" "k1 \<notin> insert j S" "chain_at e cs dat (insert j S) k1 bi1 d1"
    by blast
  have "insert j S \<union> set js \<subseteq> {..<length bins}" using Cons.prems(5) by simp
  from Cons.IH [OF one(5,2,3,4) this] one(1) show ?case by simp
qed

lemma chain_at_new:
  "init_ready e DbIntegrator_new d \<Longrightarrow> cs ! 0 = (0, None) \<Longrightarrow> chain_at e cs dat {} 0 BlockIntegrator_new d"
  using integ_ok_new [of e]
  by (simp add: chain_at_def pool_at_def chain_of_def BlockIntegrator_new_def DbIntegrator_new_def pend_find_def om_map_simps)

lemma order_independent:
  assumes "env_works e val" and "asn1_lengths e" and "chain_bins e bins blocks cs" and "init_ready e DbIntegrator_new d"
    and "set arrivals \<subseteq> {..<length bins}" and "{..<k} \<subseteq> set arrivals" and "k \<notin> set arrivals"
  shows "\<exists>bi' d'. add_all e bins arrivals BlockIntegrator_new d = Some (bi', d') \<and>
     chain_of (dbIntegrator bi') = cs ! k \<and> currentRecon (dbIntegrator bi') = of_nat k \<and>
     (\<forall>r s b. pend_find bi' (r, s, b) \<noteq> None \<longleftrightarrow> s = 0 \<and> b = 0 \<and> unat r \<in> set arrivals \<and> k < unat r)"
proof -
  have cs: "length blocks = length bins" "chain_states e blocks (0, None) = Some cs"
    using assms(3) by (auto simp: chain_bins_def dest: map_eq_imp_length_eq)
  define dat where "dat i = the (decode_Block (cd2i_Block e) (cLong e) (bins ! i) Block_new)" for i
  have dat: "decode_Block (cd2i_Block e) (cLong e) (bins ! i) Block_new = Some (dat i)" if "i < length bins" for i
  proof -
    have "load_block e (bins ! i) = Some (blocks ! i)"
      using assms(3) cs(1) that unfolding chain_bins_def by (metis nth_map)
    then show ?thesis by (auto simp: load_block_def dat_def split: bind_splits)
  qed
  have "chain_at e cs dat {} 0 BlockIntegrator_new d"
    using chain_at_new [OF assms(4)] chain_states_nth [OF cs(2)] by simp
  from add_all_chain [OF assms(1-3) dat this, of arrivals] assms(5)
  obtain k' bi' d' where r: "add_all e bins arrivals BlockIntegrator_new d = Some (bi', d')" "k' \<le> length bins"
      "{..<k'} \<subseteq> set arrivals" "k' \<notin> set arrivals" "chain_at e cs dat (set arrivals) k' bi' d'"
    by auto
  have "k' = k"
    using r(3,4) assms(6,7) by (metis lessThan_iff linorder_neqE_nat subsetD)
  with r chain_states_fst [OF cs(2), of k] cs(1) show ?thesis
    by (auto simp: chain_at_def pool_at_def chain_of_def prod_eq_iff le_less split: if_splits)
qed

text \<open>
  Claim C1.  A chain is here a genesis block followed by reconciliation blocks, one for each number and each with the
  hash of the one before; node blocks are not part of it.  The order in which the blocks of such a chain arrive does
  not matter, nor does it matter that some arrive twice: on a working database whose table of imported blocks is
  empty at the start, once every block before number \<open>k\<close> has been handed over and \<open>k\<close> itself has not, the
  integrator waits for exactly \<open>k\<close>, and it holds exactly the later blocks it was given.
\<close>

theorem BlockIntegrator_order_independent:
  assumes "env_works e val" and "asn1_lengths e" and "chain_bins e bins blocks cs" and "init_ready e DbIntegrator_new d"
    and "set arrivals \<subseteq> {..<length bins}" and "{..<k} \<subseteq> set arrivals" and "k \<notin> set arrivals"
  shows "\<exists>bi' d'. add_all e bins arrivals BlockIntegrator_new d = Some (bi', d') \<and>
     chain_of (dbIntegrator bi') = cs ! k \<and> currentRecon (dbIntegrator bi') = of_nat k \<and>
     (\<forall>r s b. pend_find bi' (r, s, b) \<noteq> None \<longleftrightarrow> s = 0 \<and> b = 0 \<and> unat r \<in> set arrivals \<and> k < unat r)"
  by (rule order_independent [OF assms])

section \<open>A chain of two blocks\<close>

definition demo_recon :: Reconciliation where
  "demo_recon = Reconciliation_new\<lparr>chainId := 1,
     shardInfo := [ShardInfo_make (genesis_hash (demo_env store_ozo) Genesis_new) 0]\<rparr>"

definition demo_blocks :: "Block list" where
  "demo_blocks = [Block_setGenesis Genesis_new Block_new, Block_setReconciliation demo_recon Block_new]"

definition demo_chain_env :: "(bool, string list, bytes, nat) curator_env" where
  "demo_chain_env = (demo_env store_ozo)\<lparr>cd2i_Block := (\<lambda>bin.
     if bin = [0] then Block_toAsn1 (demo_blocks ! 0)
     else if bin = [1] then Block_toAsn1 (demo_blocks ! 1) else None)\<rparr>"

definition demo_states :: "chain list" where
  "demo_states = [(0, None), (1, Some (genesis_hash (demo_env store_ozo) Genesis_new)),
     (2, Some (recon_hash (demo_env store_ozo) demo_recon))]"

lemma plain_hash_ok: "Hash_ok (Hash_of plain_openssl d)"
  by (simp add: Hash_ok_def Hash_of_def sha2_256_def sha3_256_def doHash_def plain_openssl_def fits_int_def)

lemma demo_blocks_ok: "Block_inv (demo_blocks ! 0)" "Block_ok (demo_blocks ! 0)" "Block_inv (demo_blocks ! 1)" "Block_ok (demo_blocks ! 1)"
  by (simp_all add: demo_blocks_def Block_inv_def Block_ok_def Block_ops Genesis_ok_def Genesis_new_def Time_ok_def
      Time_new_def Specie_ok_def Specie_new_def fits_long_def Reconciliation_ok_def Reconciliation_new_def demo_recon_def
      genesis_hash_def demo_env_def plain_hash_ok ShardInfo_make_def)

lemma demo_load:
  assumes "cd2i_Block e bin = Block_toAsn1 b" and "cLong e = ASN1_INTEGER_get"
    and "Block_inv b" and "Block_ok b" and "node b = None"
  shows "load_block e bin = Some b"
proof -
  have "\<exists>t. Block_toAsn1 b = Some t \<and> Block_fromAsn1 ASN1_INTEGER_get t Block_new = b"
    using Block_from_to [OF assms(3,4) long_get_ASN1_INTEGER_get, of Block_new] Block_moved_id [OF assms(5)] by auto
  with assms(1,2) show ?thesis
    by (auto simp: load_block_def decode_Block_def Block_assign_copy_def)
qed

lemma demo_chain_bins: "chain_bins demo_chain_env [[0], [1]] demo_blocks demo_states"
proof -
  have node: "node (demo_blocks ! 0) = None" "node (demo_blocks ! 1) = None"
    by (simp_all add: demo_blocks_def Block_ops)
  have "cd2i_Block demo_chain_env [0] = Block_toAsn1 (demo_blocks ! 0)" "cd2i_Block demo_chain_env [1] = Block_toAsn1 (demo_blocks ! 1)"
    "cLong demo_chain_env = ASN1_INTEGER_get"
    by (simp_all add: demo_chain_env_def demo_env_def)
  then have "load_block demo_chain_env [0] = Some (demo_blocks ! 0)" "load_block demo_chain_env [1] = Some (demo_blocks ! 1)"
    using demo_load [OF _ _ demo_blocks_ok(1,2) node(1)] demo_load [OF _ _ demo_blocks_ok(3,4) node(2)] by blast+
  moreover have "chain_states demo_chain_env demo_blocks (0, None) = Some demo_states"
    by (simp add: demo_blocks_def demo_states_def chain_next_def Block_ops genesis_hash_def recon_hash_def
        demo_chain_env_def demo_env_def demo_recon_def)
  ultimately show ?thesis by (simp add: chain_bins_def demo_blocks_def)
qed

lemma demo_chain_env_works:
  "env_works demo_chain_env id" "asn1_lengths demo_chain_env" "init_ready demo_chain_env x []"
proof -
  show "env_works demo_chain_env id" "init_ready demo_chain_env x []"
    using demo_db_works nat_bn_laws by (simp_all add: env_works_def demo_chain_env_def demo_env_def init_ready_def)
  show "asn1_lengths demo_chain_env"
    by (auto simp: asn1_lengths_def demo_chain_env_def demo_blocks_def Block_toAsn1_def Block_ops Genesis_toAsn1_def
        Genesis_new_def Address_toAsn1_def fromBin_small split: if_splits)
qed

text \<open>The reconciliation arrives before the genesis block, and then once more.\<close>

theorem BlockIntegrator_order_independent_witness:
  "\<exists>bi' d'. add_all demo_chain_env [[0], [1]] [1, 0, 1] BlockIntegrator_new [] = Some (bi', d') \<and>
     currentRecon (dbIntegrator bi') = 2 \<and> (\<forall>r s b. pend_find bi' (r, s, b) = None)"
proof -
  have "{..<2 :: nat} \<subseteq> set [1, 0, 1]" by auto
  from BlockIntegrator_order_independent [OF demo_chain_env_works(1,2) demo_chain_bins demo_chain_env_works(3) _ this]
  obtain bi' d' where "add_all demo_chain_env [[0], [1]] [1, 0, 1] BlockIntegrator_new [] = Some (bi', d')"
    "currentRecon (dbIntegrator bi') = 2"
    and pool: "\<forall>r s b. pend_find bi' (r, s, b) \<noteq> None \<longleftrightarrow> s = 0 \<and> b = 0 \<and> unat r \<in> set [1, 0, 1 :: nat] \<and> 2 < unat r"
    by auto
  moreover have "pend_find bi' (r, s, b) = None" for r s b
    using pool [rule_format, of r s b] by auto
  ultimately show ?thesis by blast
qed

theorem BlockIntegrator_addBlock_returns_witness:
  "\<exists>bi' d'. BlockIntegrator_addBlock demo_chain_env [0] 0 0 0 BlockIntegrator_new [] = Some (bi', d')"
  using BlockIntegrator_addBlock_returns [OF demo_chain_env_works(1,2) integ_ok_new [OF demo_chain_env_works(3)]] by blast

section \<open>Loading a directory\<close>

definition chain_file :: "nat \<Rightarrow> string" where
  "chain_file i = BlockFilename_get (of_nat i) 0 0"

lemma loadFiles_add_all:
  assumes "\<forall>i \<in> set js. i < 10 ^ 8 \<and> BlockStorage_readBlock storage fs (of_nat i) 0 0 = bins ! i \<and> bins ! i \<noteq> []"
  shows "loadFiles e storage fs 0 (map chain_file js) bi d = add_all e bins js bi d"
  using assms
proof (induction js arbitrary: bi d)
  case (Cons j js)
  then have j: "j < 10 ^ 8" "BlockStorage_readBlock storage fs (of_nat j) 0 0 = bins ! j" "bins ! j \<noteq> []" by simp_all
  have "unat (of_nat j :: u32) < 10 ^ 8"
    using j(1) by (simp add: unsigned_of_nat take_bit_nat_eq_self)
  then have "BlockFilename_parse (chain_file j) = Some (of_nat j, 0, 0)"
    unfolding chain_file_def by (intro parse_get_small) simp_all
  with j(2,3) have "loadFile e storage fs 0 (chain_file j) bi d = BlockIntegrator_addBlock e (bins ! j) (of_nat j) 0 0 bi d"
    by (simp add: loadFile_def)
  with Cons show ?case
    by (cases "BlockIntegrator_addBlock e (bins ! j) (of_nat j) 0 0 bi d") (auto split: prod.splits)
qed simp

lemma LoadFromFs_loads_chain:
  assumes "env_works e val" and "asn1_lengths e" and "chain_bins e bins blocks cs" and "init_ready e DbIntegrator_new d"
    and "BlockStorage_getFiles storage fs = Some (Some (map chain_file js))" and "set js = {..<length bins}"
    and "\<forall>i < length bins. BlockStorage_readBlock storage fs (of_nat i) 0 0 = bins ! i \<and> bins ! i \<noteq> []"
    and "length bins \<le> 10 ^ 8"
  shows "\<exists>bi' d'. LoadFromFs_init e storage fs reloadFrom BlockIntegrator_new d = Some (bi', d') \<and>
     chain_of (dbIntegrator bi') = cs ! length bins \<and> (\<forall>k. pend_find bi' k = None)"
proof -
  have "LoadFromFs_init e storage fs reloadFrom BlockIntegrator_new d = add_all e bins js BlockIntegrator_new d"
    using loadFiles_add_all [of js storage fs bins e] assms(5-8) by (simp add: LoadFromFs_init_def)
  moreover have "set js \<subseteq> {..<length bins}" "{..<length bins} \<subseteq> set js" "length bins \<notin> set js"
    using assms(6) by simp_all
  from order_independent [OF assms(1-4) this] obtain bi' d' where "add_all e bins js BlockIntegrator_new d = Some (bi', d')"
      "chain_of (dbIntegrator bi') = cs ! length bins"
      and pool: "\<forall>r s b. pend_find bi' (r, s, b) \<noteq> None \<longleftrightarrow>
         s = 0 \<and> b = 0 \<and> unat r \<in> set js \<and> length bins < unat r"
    by (elim exE conjE)
  moreover have "pend_find bi' k = None" for k
  proof (cases k)
    case (fields r s b)
    have "\<not> (unat r \<in> set js \<and> length bins < unat r)" unfolding assms(6) by simp
    with pool fields show ?thesis by blast
  qed
  ultimately show ?thesis by metis
qed

text \<open>
  Claim C2.  Starting the curator on a directory that can be listed and holds the files of a chain (a genesis block and
  reconciliation blocks, no node blocks) and nothing else integrates all of them, in whatever order the directory is
  listed, for chains of up to a hundred million blocks, on a working database whose table of imported blocks is
  empty at the start.
\<close>

theorem LoadFromFs_integrates_chain:
  assumes "env_works e val" and "asn1_lengths e" and "chain_bins e bins blocks cs" and "init_ready e DbIntegrator_new d"
    and "BlockStorage_getFiles storage fs = Some (Some (map chain_file js))" and "set js = {..<length bins}"
    and "\<forall>i < length bins. BlockStorage_readBlock storage fs (of_nat i) 0 0 = bins ! i \<and> bins ! i \<noteq> []"
    and "length bins \<le> 10 ^ 8"
  shows "\<exists>bi' d'. LoadFromFs_init e storage fs reloadFrom BlockIntegrator_new d = Some (bi', d') \<and>
     chain_of (dbIntegrator bi') = cs ! length bins \<and> (\<forall>k. pend_find bi' k = None)"
  using assms by (rule LoadFromFs_loads_chain)

definition demo_block_disk :: disk where
  "demo_block_disk = \<lparr>dirs = [''/b''],
     files = [(''/b/'' @ chain_file 0, [0]), (''/b/'' @ chain_file 1, [1])], home = None, quota = (\<lambda>_. None), io = plain_io\<rparr>"

theorem LoadFromFs_integrates_chain_witness:
  "\<exists>bi' d'. LoadFromFs_init demo_chain_env \<lparr>storageDir = ''/b''\<rparr> demo_block_disk 0 BlockIntegrator_new [] = Some (bi', d') \<and>
     chain_of (dbIntegrator bi') = demo_states ! 2 \<and> (\<forall>k. pend_find bi' k = None)"
proof -
  let ?st = "\<lparr>storageDir = ''/b''\<rparr>"
  have slash: "CHR ''/'' \<notin> set (chain_file i)" for i
    by (simp add: chain_file_def BlockFilename_no_slash)
  have ne: "chain_file 1 \<noteq> chain_file 0"
    by (simp add: chain_file_def BlockFilename_get_inject)
  have "BlockStorage_getFiles ?st demo_block_disk = Some (Some (map chain_file [0, 1]))"
    by (simp add: BlockStorage_getFiles_def FileTools_listFiles_def demo_block_disk_def FileTools_exists_def
        FileTools_isDir_def om_keys_def below_def map_filter_simps slash)
  moreover have "BlockStorage_readBlock ?st demo_block_disk (of_nat i) 0 0 = [[0], [1]] ! i" if "i < 2" for i
    using that ne by (auto simp: less_2_cases_iff BlockStorage_readBlock_def FileTools_read_readable demo_block_disk_def
        block_path_def expandTilde_def chain_file_def om_find_Cons)
  then have "\<forall>i < length [[0], [1 :: byte]]. BlockStorage_readBlock ?st demo_block_disk (of_nat i) 0 0 = [[0], [1]] ! i \<and>
      [[0], [1 :: byte]] ! i \<noteq> []"
    by (auto simp: less_2_cases_iff numeral_2_eq_2 less_Suc_eq)
  moreover have "set [0, 1] = {..<length [[0], [1 :: byte]]}" by auto
  ultimately show ?thesis
    using LoadFromFs_integrates_chain [OF demo_chain_env_works(1,2) demo_chain_bins demo_chain_env_works(3), of ?st demo_block_disk "[0, 1]" 0]
    by (simp add: numeral_2_eq_2)
qed

end
