(* ===== verification/FC_Keys.thy ===== *)
theory FC_Keys
  imports FC_Asn1 FC_Codecs
begin

text \<open>
  Keys at rest: \<^verbatim>\<open>ossl/PbkdfKey\<close> (the project's own password format) and \<^verbatim>\<open>ossl/Pkcs8Key\<close>.

  The OpenSSL functions they call are the fields of \<open>keylib\<close>.  A cipher or digest is its NID and
  an \<^verbatim>\<open>ASN1_OBJECT\<close> the NID it is looked up by; a PKCS#8 structure is its encoding.  Encryption
  and decryption stand for the sequence of init, update and final calls; a failure is \<open>None\<close>.  The
  result of a wrap carries the rest of the tape of random bytes; \<open>None\<close> there is a tape that is
  too short, or a write outside a buffer.
\<close>

section \<open>Model\<close>

subsection \<open>Encoded structures\<close>

record FluffyPbkdfInfo =
  fVersion :: asn1_int
  fIters :: asn1_int
  fSalt :: octets
  fIv :: "octets option"
  fKdf :: int
  fKeytype :: int

record FluffyPbkdfContent =
  fInfo :: FluffyPbkdfInfo
  fPayload :: octets

record FluffyPbkdfKey =
  fContent :: FluffyPbkdfContent
  fSignature :: octets

record 'k keylib =
  kl_os :: "'k openssl"
  kl_og :: "asn1_int \<Rightarrow> int"
  PKCS5_PBKDF2_HMAC :: "bytes \<Rightarrow> bytes \<Rightarrow> int \<Rightarrow> int \<Rightarrow> nat \<Rightarrow> bytes option"
  digest_known :: "int \<Rightarrow> bool"
  cipher_known :: "int \<Rightarrow> bool"
  cipher_key_length :: "int \<Rightarrow> nat"
  cipher_iv_length :: "int \<Rightarrow> nat"
  cipher_encrypt :: "int \<Rightarrow> bytes \<Rightarrow> bytes \<Rightarrow> bytes \<Rightarrow> bytes"
  cipher_decrypt :: "int \<Rightarrow> bytes \<Rightarrow> bytes \<Rightarrow> bytes \<Rightarrow> bytes option"
  cmac :: "int \<Rightarrow> bytes \<Rightarrow> bytes \<Rightarrow> bytes option"
  i2d_FluffyPbkdfContent :: "FluffyPbkdfContent \<Rightarrow> bytes option"
  i2d_FluffyPbkdfKey :: "FluffyPbkdfKey \<Rightarrow> bytes option"
  d2i_FluffyPbkdfKey :: "bytes \<Rightarrow> FluffyPbkdfKey option"
  EVP_PKEY2PKCS8 :: "'k \<Rightarrow> bytes option"
  PKCS8_add_keyusage :: "bytes \<Rightarrow> bytes"
  PKCS8_encrypt :: "bytes \<Rightarrow> bytes \<Rightarrow> int \<Rightarrow> bytes \<Rightarrow> bytes option"
  i2d_X509_SIG :: "bytes \<Rightarrow> bytes option"
  d2i_X509_SIG :: "bytes \<Rightarrow> bytes option"
  PKCS8_decrypt :: "bytes \<Rightarrow> bytes \<Rightarrow> bytes option"
  EVP_PKCS82PKEY :: "bytes \<Rightarrow> 'k option"

subsection \<open>PbkdfKey\<close>

definition SALT_LEN :: nat where
  "SALT_LEN = 8"

definition IV_LEN :: nat where
  "IV_LEN = 16"

definition KDF_NID :: int where
  "KDF_NID = 1099"

definition KEY_NID :: int where
  "KEY_NID = 427"

definition KDF_ITERS_DEFAULT :: u32 where
  "KDF_ITERS_DEFAULT = 1024 * 1024"

definition KDF_ITERS_MIN :: nat where
  "KDF_ITERS_MIN = 1024"

definition KDF_ITERS_MAX :: nat where
  "KDF_ITERS_MAX = 10 * 1024 * 1024"

definition SALT_LEN_MIN :: nat where
  "SALT_LEN_MIN = 8"

definition SALT_LEN_MAX :: nat where
  "SALT_LEN_MAX = 1024"

definition pbkdf :: "'k keylib \<Rightarrow> nat \<Rightarrow> bytes \<Rightarrow> bytes \<Rightarrow> int \<Rightarrow> int \<Rightarrow> (bytes \<times> bytes) option" where
  "pbkdf K keyLen pass salt iters md =
     map_option (\<lambda>keys. (take keyLen keys, take keyLen (drop keyLen keys)))
       (PKCS5_PBKDF2_HMAC K pass salt iters md (keyLen * 2))"

definition pbkdf_sign :: "'k keylib \<Rightarrow> bytes \<Rightarrow> int \<Rightarrow> bytes \<Rightarrow> bytes" where
  "pbkdf_sign K content cipher mak =
     (case cmac K cipher mak content of None \<Rightarrow> [] | Some signature \<Rightarrow> signature)"

definition pbkdf_info :: "u32 \<Rightarrow> bytes \<Rightarrow> bytes \<Rightarrow> FluffyPbkdfInfo" where
  "pbkdf_info iters salt iv =
     \<lparr>fVersion = fromUInt32 0 0, fIters = fromUInt32 0 iters, fSalt = fromBin [] salt,
      fIv = Some (fromBin [] iv), fKdf = KDF_NID, fKeytype = KEY_NID\<rparr>"

definition PbkdfKey_wrap :: "'k keylib \<Rightarrow> 'k \<Rightarrow> bytes \<Rightarrow> u32 \<Rightarrow> tape \<Rightarrow> (bytes \<times> tape) option" where
  "PbkdfKey_wrap K key pass iters t =
     (if pass = [] \<or> unat iters < KDF_ITERS_MIN \<or> unat iters > KDF_ITERS_MAX then Some ([], t)
      else
        let encoded = bd_bytes (toPrivate (kl_os K) key) in
        if encoded = [] then Some ([], t)
        else
          do { (iv, t1) \<leftarrow> Prng_rand IV_LEN t;
               (salt, t2) \<leftarrow> Prng_rand SALT_LEN t1;
               case pbkdf K (cipher_key_length K KEY_NID) pass salt (uint iters) KDF_NID of
                 None \<Rightarrow> Some ([], t2)
               | Some (dek, mak) \<Rightarrow>
                   let encipheredKey = cipher_encrypt K KEY_NID dek iv encoded in
                   if length encipheredKey > ((length encoded + 16) div 16) * 16 then None
                   else
                     let content = \<lparr>fInfo = pbkdf_info iters salt iv, fPayload = fromBin [] encipheredKey\<rparr>;
                         signature = pbkdf_sign K (ossl_encode (i2d_FluffyPbkdfContent K) content) KEY_NID mak
                     in if signature = [] then Some ([], t2)
                        else Some (ossl_encode (i2d_FluffyPbkdfKey K)
                                     \<lparr>fContent = content, fSignature = fromBin [] signature\<rparr>, t2) })"

text \<open>The parameters that an encoded key is checked for.\<close>

definition pbkdf_params_ok :: "'k keylib \<Rightarrow> FluffyPbkdfInfo \<Rightarrow> bool" where
  "pbkdf_params_ok K info =
     (let version = toUInt64 (kl_og K) (fVersion info);
          iters = toUInt64 (kl_og K) (fIters info);
          salt = toBin (fSalt info);
          iv = (case fIv info of None \<Rightarrow> [] | Some v \<Rightarrow> toBin v)
      in \<not> (version \<noteq> 0) \<and> \<not> (unat iters < KDF_ITERS_MIN \<or> unat iters > KDF_ITERS_MAX) \<and>
         \<not> (length salt < SALT_LEN_MIN \<or> length salt > SALT_LEN_MAX) \<and>
         \<not> (length iv \<noteq> cipher_iv_length K (fKeytype info)))"

definition PbkdfKey_unwrap :: "'k keylib \<Rightarrow> bytes \<Rightarrow> bytes \<Rightarrow> 'k option" where
  "PbkdfKey_unwrap K key pass =
     (if pass = [] then None
      else
        do { encodedKey \<leftarrow> ossl_decode (d2i_FluffyPbkdfKey K) key;
             let info = fInfo (fContent encodedKey);
                 md = fKdf info;
                 cipher = fKeytype info;
                 iv = (case fIv info of None \<Rightarrow> [] | Some v \<Rightarrow> toBin v)
             in if \<not> digest_known K md \<or> \<not> cipher_known K cipher then None
                else if \<not> pbkdf_params_ok K info then None
                else
                  do { (dek, mak) \<leftarrow> pbkdf K (cipher_key_length K cipher) pass (toBin (fSalt info))
                         (uint (toUInt64 (kl_og K) (fIters info))) md;
                       let content = ossl_encode (i2d_FluffyPbkdfContent K) (fContent encodedKey);
                           verify = pbkdf_sign K content cipher mak
                       in if toBin (fSignature encodedKey) \<noteq> verify then None
                          else
                            do { decrypted \<leftarrow> cipher_decrypt K cipher dek iv (toBin (fPayload (fContent encodedKey)));
                                 fromPrivate (kl_os K) decrypted } } })"

subsection \<open>Pkcs8Key\<close>

definition Pkcs8Key_wrap :: "'k keylib \<Rightarrow> 'k \<Rightarrow> bytes \<Rightarrow> u32 \<Rightarrow> tape \<Rightarrow> (bytes \<times> tape) option" where
  "Pkcs8Key_wrap K key pass iters t =
     (if unat iters < KDF_ITERS_MIN \<or> unat iters > KDF_ITERS_MAX then Some ([], t)
      else
        case EVP_PKEY2PKCS8 K key of
          None \<Rightarrow> Some ([], t)
        | Some bag \<Rightarrow>
            do { (salt, t1) \<leftarrow> Prng_rand SALT_LEN t;
                 case PKCS8_encrypt K pass salt (uint iters) (PKCS8_add_keyusage K bag) of
                   None \<Rightarrow> Some ([], t1)
                 | Some wrapped \<Rightarrow> Some (ossl_encode (i2d_X509_SIG K) wrapped, t1) })"

definition Pkcs8Key_unwrap :: "'k keylib \<Rightarrow> bytes \<Rightarrow> bytes \<Rightarrow> 'k option" where
  "Pkcs8Key_unwrap K key pass =
     do { encrypted \<leftarrow> d2i_X509_SIG K key;
          bag \<leftarrow> PKCS8_decrypt K encrypted pass;
          EVP_PKCS82PKEY K bag }"

section \<open>The contract of a key format\<close>

text \<open>What the library promises for a key \<open>k\<close>: the private point is an encoding of it, decryption
  inverts encryption and fits the buffer, a code is one block long, and what an encoder produces its decoder
  reads back.\<close>

definition private_ok :: "'k openssl \<Rightarrow> 'k \<Rightarrow> bool" where
  "private_ok os k \<longleftrightarrow> fromPrivate os (bd_bytes (toPrivate os k)) = Some k"

definition pbkdf_ok :: "'k keylib \<Rightarrow> 'k \<Rightarrow> bool" where
  "pbkdf_ok K k \<longleftrightarrow>
     long_get (kl_og K) \<and> private_ok (kl_os K) k \<and>
     digest_known K KDF_NID \<and> cipher_known K KEY_NID \<and> cipher_iv_length K KEY_NID = 16 \<and>
     (\<forall>key iv d. cipher_decrypt K KEY_NID key iv (cipher_encrypt K KEY_NID key iv d) = Some d) \<and>
     (\<forall>key d s. cmac K KEY_NID key d = Some s \<longrightarrow> length s = 16) \<and>
     (\<forall>x d. i2d_FluffyPbkdfKey K x = Some d \<longrightarrow> d2i_FluffyPbkdfKey K d = Some x)"

definition pkcs8_ok :: "'k keylib \<Rightarrow> 'k \<Rightarrow> bool" where
  "pkcs8_ok K k \<longleftrightarrow>
     (\<forall>b. EVP_PKEY2PKCS8 K k = Some b \<longrightarrow> EVP_PKCS82PKEY K (PKCS8_add_keyusage K b) = Some k) \<and>
     (\<forall>pass salt iters b w. PKCS8_encrypt K pass salt iters b = Some w \<longrightarrow> PKCS8_decrypt K w pass = Some b) \<and>
     (\<forall>w d. i2d_X509_SIG K w = Some d \<longrightarrow> d2i_X509_SIG K d = Some w)"

locale key_format =
  fixes valid :: "'e \<Rightarrow> 'k \<Rightarrow> bool"
    and wrap :: "'e \<Rightarrow> 'k \<Rightarrow> bytes \<Rightarrow> u32 \<Rightarrow> tape \<Rightarrow> (bytes \<times> tape) option"
    and unwrap :: "'e \<Rightarrow> bytes \<Rightarrow> bytes \<Rightarrow> 'k option"
  assumes unwrap_wrap:
    "valid e k \<Longrightarrow> wrap e k pass iters t = Some (d, t') \<Longrightarrow> d \<noteq> [] \<Longrightarrow> unwrap e d pass = Some k"
begin

lemma unwrap_printed:
  assumes "valid e k" and "wrap e k pass iters t = Some (d, t')" and "Base64_encode d \<noteq> []"
  shows "unwrap e (Base64_decode (Base64_encode d)) pass = Some k"
proof -
  have "d \<noteq> []"
    using assms(3) by (auto simp: Base64_encode_def)
  with unwrap_wrap [OF assms(1,2)] show ?thesis
    by (simp add: Base64_decode_encode)
qed

lemma wrap_inj:
  assumes "valid e k" "valid e k'"
    and "wrap e k pass iters t = Some (d, t1)" "wrap e k' pass iters' t' = Some (d, t2)" "d \<noteq> []"
  shows "k = k'"
  using unwrap_wrap [OF assms(1,3,5)] unwrap_wrap [OF assms(2,4,5)] by simp

end

lemma pbkdf_iters_bound: "unat iters \<le> KDF_ITERS_MAX \<Longrightarrow> unat iters < 2 ^ 31" for iters :: u32
  by (simp add: KDF_ITERS_MAX_def)

lemma toUInt64_fromUInt32:
  assumes "long_get og"
  shows "toUInt64 og (fromUInt32 t ui) = ucast ui"
proof -
  have "uint ui < 2 ^ 32"
    using uint_lt2p [of ui] by simp
  then show ?thesis
    using assms by (simp add: toUInt64_def fromUInt32_def long_get_def)
qed

lemma uint_ucast_32_64: "uint (ucast (ui :: u32) :: u64) = uint ui"
  by (simp add: uint_up_ucast is_up)

lemma unat_ucast_32_64: "unat (ucast (ui :: u32) :: u64) = unat ui"
  by (metis uint_ucast_32_64 nat_uint_eq)

lemma pbkdf_info_simps [simp]:
  "fKdf (pbkdf_info i s v) = KDF_NID" "fKeytype (pbkdf_info i s v) = KEY_NID"
  "fits_int s \<Longrightarrow> fSalt (pbkdf_info i s v) = s" "fits_int v \<Longrightarrow> fIv (pbkdf_info i s v) = Some v"
  by (simp_all add: pbkdf_info_def fromBin_small)

lemma pbkdf_info_ok:
  assumes "pbkdf_ok K k" and "KDF_ITERS_MIN \<le> unat iters" "unat iters \<le> KDF_ITERS_MAX"
    and "length salt = 8" "length iv = 16"
  shows "pbkdf_params_ok K (pbkdf_info iters salt iv)"
    and "toUInt64 (kl_og K) (fIters (pbkdf_info iters salt iv)) = ucast iters"
proof -
  have og: "long_get (kl_og K)"
    using assms(1) by (simp add: pbkdf_ok_def)
  then show it: "toUInt64 (kl_og K) (fIters (pbkdf_info iters salt iv)) = ucast iters"
    by (simp add: pbkdf_info_def toUInt64_fromUInt32)
  have "toUInt64 (kl_og K) (fVersion (pbkdf_info iters salt iv)) = 0"
    using og by (simp add: pbkdf_info_def toUInt64_fromUInt32)
  moreover have "fits_int salt" "fits_int iv" using assms(4,5) by (simp_all add: fits_int_def)
  ultimately show "pbkdf_params_ok K (pbkdf_info iters salt iv)"
    using it assms by (simp add: pbkdf_params_ok_def toBin_def unat_ucast_32_64 pbkdf_ok_def
        SALT_LEN_MIN_def SALT_LEN_MAX_def Let_def)
qed

lemma private_ok_length: "private_ok os k \<Longrightarrow> length (bd_bytes (toPrivate os k)) = 32"
  by (auto simp: private_ok_def fromPrivate_def POINT_LEN_def split: if_splits)

text \<open>A wrap that gives a result, taken apart.\<close>

lemma PbkdfKey_wrapE:
  assumes "PbkdfKey_wrap K k pass iters t = Some (d, t')" and "d \<noteq> []" and "pbkdf_ok K k"
  obtains iv salt dek mak content signature where
    "pass \<noteq> []" "KDF_ITERS_MIN \<le> unat iters" "unat iters \<le> KDF_ITERS_MAX"
    "length iv = 16" "length salt = 8"
    "pbkdf K (cipher_key_length K KEY_NID) pass salt (uint iters) KDF_NID = Some (dek, mak)"
    "content = \<lparr>fInfo = pbkdf_info iters salt iv,
       fPayload = cipher_encrypt K KEY_NID dek iv (bd_bytes (toPrivate (kl_os K) k))\<rparr>"
    "signature = pbkdf_sign K (ossl_encode (i2d_FluffyPbkdfContent K) content) KEY_NID mak"
    "signature \<noteq> []"
    "i2d_FluffyPbkdfKey K \<lparr>fContent = content, fSignature = signature\<rparr> = Some d"
proof -
  let ?iv = "take 16 t" and ?salt = "take 8 (drop 16 t)"
  from assms have "16 \<le> length t" "8 \<le> length t - 16"
    by (auto simp: PbkdfKey_wrap_def Let_def Prng_rand_def IV_LEN_def SALT_LEN_def
        split: if_splits bind_splits)
  moreover from assms obtain dek mak where
    "pbkdf K (cipher_key_length K KEY_NID) pass ?salt (uint iters) KDF_NID = Some (dek, mak)"
    by (auto simp: PbkdfKey_wrap_def Let_def Prng_rand_def IV_LEN_def SALT_LEN_def
        split: if_splits option.splits bind_splits)
  moreover have "fits_int c" if "\<not> (length (bd_bytes (toPrivate (kl_os K) k)) + 16) div 16 * 16 < length c" for c :: bytes
    using that private_ok_length [of "kl_os K" k] assms(3) by (simp add: pbkdf_ok_def fits_int_def)
  moreover have "fits_int (pbkdf_sign K c KEY_NID m)" for c m
    using assms(3) by (auto simp: pbkdf_sign_def pbkdf_ok_def fits_int_def split: option.split)
  ultimately show thesis
    using assms(1,2)
    by (intro that [of ?iv ?salt dek mak])
      (auto simp: PbkdfKey_wrap_def Let_def Prng_rand_def IV_LEN_def SALT_LEN_def fromBin_small
        ossl_encode_def [of "i2d_FluffyPbkdfKey K"]
        split: if_splits option.splits)
qed

lemma PbkdfKey_unwrap_wrap:
  assumes "pbkdf_ok K k" and "PbkdfKey_wrap K k pass iters t = Some (d, t')" and "d \<noteq> []"
  shows "PbkdfKey_unwrap K d pass = Some k"
  using assms(2,3,1)
proof (cases rule: PbkdfKey_wrapE)
  case (1 iv salt dek mak content signature)
  note ok = pbkdf_info_ok [OF assms(1) 1(2,3,5,4)]
  have "ossl_decode (d2i_FluffyPbkdfKey K) d = Some \<lparr>fContent = content, fSignature = signature\<rparr>"
    using assms(1,3) 1(10) by (simp add: ossl_decode_def pbkdf_ok_def)
  moreover have "fits_int salt" "fits_int iv" using 1(4,5) by (simp_all add: fits_int_def)
  ultimately show ?thesis
    using assms(1) 1 ok
    by (simp add: PbkdfKey_unwrap_def toBin_def uint_ucast_32_64 pbkdf_ok_def private_ok_def)
qed

interpretation fcp: key_format pbkdf_ok PbkdfKey_wrap PbkdfKey_unwrap
  by unfold_locales (rule PbkdfKey_unwrap_wrap)

lemma Pkcs8Key_unwrap_wrap:
  assumes "pkcs8_ok K k" and "Pkcs8Key_wrap K k pass iters t = Some (d, t')" and "d \<noteq> []"
  shows "Pkcs8Key_unwrap K d pass = Some k"
  using assms
  by (auto simp: Pkcs8Key_wrap_def Pkcs8Key_unwrap_def pkcs8_ok_def ossl_encode_def
      split: if_splits option.splits bind_splits)

interpretation p8: key_format pkcs8_ok Pkcs8Key_wrap Pkcs8Key_unwrap
  by unfold_locales (rule Pkcs8Key_unwrap_wrap)

section \<open>A key library for the examples\<close>

text \<open>Lengths are written in unary, so that each item ends where its reader expects.\<close>

definition put_nat :: "nat \<Rightarrow> bytes" where
  "put_nat n = replicate n 1 @ [0]"

definition get_nat :: "bytes \<Rightarrow> nat \<times> bytes" where
  "get_nat d = (let n = length (takeWhile (\<lambda>b. b = 1) d) in (n, drop (Suc n) d))"

definition put_int :: "int \<Rightarrow> bytes" where
  "put_int v = (if v < 0 then 1 else 0) # put_nat (nat \<bar>v\<bar>)"

definition get_int :: "bytes \<Rightarrow> int \<times> bytes" where
  "get_int d = (case get_nat (tl d) of (n, r) \<Rightarrow> (if hd d = 1 then - int n else int n, r))"

definition put_bytes :: "bytes \<Rightarrow> bytes" where
  "put_bytes b = put_nat (length b) @ b"

definition get_bytes :: "bytes \<Rightarrow> bytes \<times> bytes" where
  "get_bytes d = (case get_nat d of (n, r) \<Rightarrow> (take n r, drop n r))"

lemma get_put [simp]:
  "get_nat (put_nat n @ r) = (n, r)"
  "get_int (put_int v @ r) = (v, r)"
  "get_bytes (put_bytes b @ r) = (b, r)"
proof -
  have "takeWhile (\<lambda>b. b = 1) (replicate n 1 @ 0 # r) = replicate n (1 :: byte)" for n r
    by (induction n) simp_all
  then show *: "get_nat (put_nat n @ r) = (n, r)" for n r
    by (simp add: get_nat_def put_nat_def Let_def)
  show "get_int (put_int v @ r) = (v, r)" "get_bytes (put_bytes b @ r) = (b, r)"
    by (simp_all add: get_int_def put_int_def get_bytes_def put_bytes_def *)
qed

definition put_key :: "FluffyPbkdfKey \<Rightarrow> bytes" where
  "put_key x =
     (let c = fContent x; i = fInfo c in
      put_int (fVersion i) @ put_int (fIters i) @ put_bytes (fSalt i) @
      (case fIv i of None \<Rightarrow> put_nat 0 @ put_bytes [] | Some v \<Rightarrow> put_nat 1 @ put_bytes v) @
      put_int (fKdf i) @ put_int (fKeytype i) @ put_bytes (fPayload c) @ put_bytes (fSignature x))"

definition get_key :: "bytes \<Rightarrow> FluffyPbkdfKey" where
  "get_key d =
     (let (version, d) = get_int d; (iters, d) = get_int d; (salt, d) = get_bytes d;
          (has, d) = get_nat d; (iv, d) = get_bytes d;
          (kdf, d) = get_int d; (keytype, d) = get_int d; (payload, d) = get_bytes d;
          (signature, d) = get_bytes d
      in \<lparr>fContent = \<lparr>fInfo = \<lparr>fVersion = version, fIters = iters, fSalt = salt,
            fIv = (if has = 0 then None else Some iv), fKdf = kdf, fKeytype = keytype\<rparr>,
            fPayload = payload\<rparr>, fSignature = signature\<rparr>)"

lemma get_put_key: "get_key (put_key x) = x"
proof -
  have last: "get_bytes (put_bytes b) = (b, [])" for b
    using get_put(3) [of b "[]"] by simp
  show ?thesis
    by (cases "fIv (fInfo (fContent x))")
      (simp_all add: get_key_def put_key_def Let_def last)
qed

lemma put_key_nonempty: "put_key x \<noteq> []"
  by (simp add: put_key_def put_int_def Let_def)

definition plain_keylib :: "bytes keylib" where
  "plain_keylib = \<lparr>kl_os = plain_openssl, kl_og = (\<lambda>n. if - (2 ^ 63) \<le> n \<and> n < 2 ^ 63 then n else - 1),
     PKCS5_PBKDF2_HMAC = (\<lambda>pass salt iters md n. Some (take n (pass @ salt @ replicate n 0))),
     digest_known = (\<lambda>n. n = KDF_NID), cipher_known = (\<lambda>n. n = KEY_NID),
     cipher_key_length = (\<lambda>_. 32), cipher_iv_length = (\<lambda>_. 16),
     cipher_encrypt = (\<lambda>c key iv d. map (\<lambda>b. b + sum_list key) d),
     cipher_decrypt = (\<lambda>c key iv d. Some (map (\<lambda>b. b - sum_list key) d)),
     cmac = (\<lambda>c key d. Some (take 16 (key @ d @ replicate 16 0))),
     i2d_FluffyPbkdfContent = (\<lambda>c. Some (put_key \<lparr>fContent = c, fSignature = []\<rparr>)),
     i2d_FluffyPbkdfKey = (\<lambda>x. Some (put_key x)),
     d2i_FluffyPbkdfKey = (\<lambda>d. Some (get_key d)),
     EVP_PKEY2PKCS8 = Some, PKCS8_add_keyusage = (\<lambda>b. b),
     PKCS8_encrypt = (\<lambda>pass salt iters b. Some (put_bytes pass @ b)),
     i2d_X509_SIG = Some, d2i_X509_SIG = Some,
     PKCS8_decrypt = (\<lambda>w pass. case get_bytes w of (p, b) \<Rightarrow> if p = pass then Some b else None),
     EVP_PKCS82PKEY = Some\<rparr>"

lemma plain_private_ok:
  assumes "length p = 32"
  shows "private_ok plain_openssl (take 12 pubinfo @ p)"
proof -
  have "i2d_PrivateKey plain_openssl (take 12 pubinfo @ p) = Some (take 16 privinfo @ p)"
    by (simp add: plain_openssl_def)
  from toPrivate_parts [OF this] assms
  have "bd_bytes (toPrivate plain_openssl (take 12 pubinfo @ p)) = p"
    by (simp add: bd_bytes_def)
  moreover have "fromPrivate plain_openssl p = Some (take 12 pubinfo @ p)"
    using assms by (auto simp: fromPrivate_def plain_openssl_def ossl_decode_def)
  ultimately show ?thesis
    by (simp add: private_ok_def)
qed

lemma plain_pbkdf_ok: "length p = 32 \<Longrightarrow> pbkdf_ok plain_keylib (take 12 pubinfo @ p)"
  by (simp add: pbkdf_ok_def plain_keylib_def plain_private_ok long_get_def comp_def get_put_key) (auto simp: min_def)

lemma plain_pkcs8_ok: "pkcs8_ok plain_keylib k"
  by (simp add: pkcs8_ok_def plain_keylib_def)

text \<open>The calls that may fail do not: key material of the length asked for, a cipher text of at most
  one more block, a code for every message and an encoding of every structure.\<close>

definition pbkdf_total :: "'k keylib \<Rightarrow> bool" where
  "pbkdf_total K \<longleftrightarrow>
     (\<forall>pass salt iters n. PKCS5_PBKDF2_HMAC K pass salt iters KDF_NID n \<noteq> None) \<and>
     (\<forall>key iv d. length (cipher_encrypt K KEY_NID key iv d) \<le> (length d + 16) div 16 * 16) \<and>
     (\<forall>key d. \<exists>s. cmac K KEY_NID key d = Some s \<and> s \<noteq> []) \<and>
     (\<forall>x. \<exists>d. i2d_FluffyPbkdfKey K x = Some d \<and> d \<noteq> [])"

lemma plain_pbkdf_total: "pbkdf_total plain_keylib"
proof -
  have "length d \<le> (length d + 16) div 16 * 16" for d :: bytes
    by simp
  then show ?thesis
    by (simp add: pbkdf_total_def plain_keylib_def put_key_nonempty)
qed

lemma private_ok_nonempty: "private_ok os k \<Longrightarrow> bd_bytes (toPrivate os k) \<noteq> []"
  by (auto simp: private_ok_def fromPrivate_def POINT_LEN_def split: if_splits)

lemma PbkdfKey_wrap_total:
  assumes "private_ok (kl_os K) k" and "pbkdf_total K" and "24 \<le> length t" and "pass \<noteq> []"
    and "KDF_ITERS_MIN \<le> unat iters" "unat iters \<le> KDF_ITERS_MAX"
  shows "\<exists>d. PbkdfKey_wrap K k pass iters t = Some (d, drop 24 t) \<and> d \<noteq> []"
proof -
  let ?iv = "take 16 t" and ?salt = "take 8 (drop 16 t)"
  obtain dek mak where km:
    "pbkdf K (cipher_key_length K KEY_NID) pass ?salt (uint iters) KDF_NID = Some (dek, mak)"
    using assms(2) by (fastforce simp: pbkdf_total_def pbkdf_def)
  have sign: "pbkdf_sign K c KEY_NID mak \<noteq> []" for c
  proof -
    from assms(2) have "\<exists>s. cmac K KEY_NID mak c = Some s \<and> s \<noteq> []"
      by (simp add: pbkdf_total_def)
    then show ?thesis by (auto simp: pbkdf_sign_def)
  qed
  have enc: "ossl_encode (i2d_FluffyPbkdfKey K) x \<noteq> []" for x
  proof -
    from assms(2) have "\<exists>d. i2d_FluffyPbkdfKey K x = Some d \<and> d \<noteq> []"
      by (simp add: pbkdf_total_def)
    then show ?thesis by (auto simp: ossl_encode_def)
  qed
  have fit: "\<not> (length d + 16) div 16 * 16 < length (cipher_encrypt K KEY_NID dek ?iv d)" for d
    using assms(2) by (simp add: pbkdf_total_def not_less)
  show ?thesis
    using assms(3-6) private_ok_nonempty [OF assms(1)] km sign fit enc
    by (simp add: PbkdfKey_wrap_def Let_def Prng_rand_def IV_LEN_def SALT_LEN_def)
qed

section \<open>Properties\<close>

lemma iv_bytes: "(case v of None \<Rightarrow> [] | Some d \<Rightarrow> toBin d) = (case v of None \<Rightarrow> [] | Some d \<Rightarrow> d)"
  by (simp add: toBin_def split: option.split)

text \<open>Claim C17.  A key survives being stored under a password: with a password, an admissible
  iteration count and 24 random bytes the wrap succeeds, and unwrapping its result with the
  same password gives the key back.\<close>

theorem PbkdfKey_wrap_unwrap:
  assumes "pbkdf_ok K k" and "pbkdf_total K" and "24 \<le> length t" and "pass \<noteq> []"
    and "1024 \<le> unat iters" and "unat iters \<le> 10485760"
  shows "\<exists>d. PbkdfKey_wrap K k pass iters t = Some (d, drop 24 t) \<and>
             PbkdfKey_unwrap K d pass = Some k"
proof -
  have "private_ok (kl_os K) k"
    using assms(1) by (simp add: pbkdf_ok_def)
  then obtain d where "PbkdfKey_wrap K k pass iters t = Some (d, drop 24 t)" "d \<noteq> []"
    using PbkdfKey_wrap_total [of K k t pass iters] assms
    by (auto simp: KDF_ITERS_MIN_def KDF_ITERS_MAX_def)
  with fcp.unwrap_wrap [OF assms(1)] show ?thesis by blast
qed

theorem PbkdfKey_wrap_unwrap_witness:
  "\<exists>d. PbkdfKey_wrap plain_keylib (take 12 pubinfo @ replicate 32 7) [112] 1024 (replicate 24 5) = Some (d, []) \<and>
       PbkdfKey_unwrap plain_keylib d [112] = Some (take 12 pubinfo @ replicate 32 7)"
  using PbkdfKey_wrap_unwrap [OF plain_pbkdf_ok plain_pbkdf_total, of "replicate 32 7" "replicate 24 5" "[112]" 1024]
  by simp

text \<open>What is unwrapped was sealed under the password: a key is returned exactly for
  a structure of version 0 whose iteration count, salt and IV lie in the documented ranges, whose
  signature is the code of its content under the derived key, and whose payload decrypts to the
  key.  A code that cannot be computed counts as the empty signature.\<close>

theorem PbkdfKey_unwrap_iff:
  "PbkdfKey_unwrap K d pass = Some k \<longleftrightarrow>
     (\<exists>x info dek mak secret.
        info = fInfo (fContent x) \<and>
        pass \<noteq> [] \<and> d \<noteq> [] \<and> d2i_FluffyPbkdfKey K d = Some x \<and>
        digest_known K (fKdf info) \<and> cipher_known K (fKeytype info) \<and>
        toUInt64 (kl_og K) (fVersion info) = 0 \<and>
        1024 \<le> unat (toUInt64 (kl_og K) (fIters info)) \<and>
        unat (toUInt64 (kl_og K) (fIters info)) \<le> 10485760 \<and>
        8 \<le> length (fSalt info) \<and> length (fSalt info) \<le> 1024 \<and>
        length (case fIv info of None \<Rightarrow> [] | Some v \<Rightarrow> v)
          = cipher_iv_length K (fKeytype info) \<and>
        pbkdf K (cipher_key_length K (fKeytype info)) pass (fSalt info)
          (uint (toUInt64 (kl_og K) (fIters info))) (fKdf info) = Some (dek, mak) \<and>
        fSignature x = (case cmac K (fKeytype info) mak
            (ossl_encode (i2d_FluffyPbkdfContent K) (fContent x)) of None \<Rightarrow> [] | Some s \<Rightarrow> s) \<and>
        cipher_decrypt K (fKeytype info) dek
          (case fIv info of None \<Rightarrow> [] | Some v \<Rightarrow> v) (fPayload (fContent x)) = Some secret \<and>
        fromPrivate (kl_os K) secret = Some k)"
  by (cases "d2i_FluffyPbkdfKey K d")
    (auto simp: PbkdfKey_unwrap_def ossl_decode_def pbkdf_params_ok_def pbkdf_sign_def toBin_def iv_bytes Let_def
      KDF_ITERS_MIN_def KDF_ITERS_MAX_def SALT_LEN_MIN_def SALT_LEN_MAX_def
      split: if_splits bind_splits)

end
