(* ===== verification/FC_Json.thy ===== *)
theory FC_Json
  imports FC_Prelude
begin

text \<open>
  The values of the JSON library and the accesses the code makes.  A floating point number
  carries its value cut towards zero, which is all the conversions look at.  An access that
  throws is \<open>JThrow\<close>; access to a missing key of a constant object is undefined, here \<open>JUndef\<close>.
\<close>

section \<open>Model\<close>

datatype json =
    JNull
  | JBool bool
  | JInt int
  | JFloat int
  | JStr string
  | JArr "json list"
  | JObj "(string \<times> json) list"

datatype 'a jres = JOk 'a | JThrow | JUndef

fun jbind :: "'a jres \<Rightarrow> ('a \<Rightarrow> 'b jres) \<Rightarrow> 'b jres" where
  "jbind (JOk x) f = f x"
| "jbind JThrow f = JThrow"
| "jbind JUndef f = JUndef"

text \<open>Subscript of a modifiable value, which turns null into an object and a missing key into null,
  and of a constant one.\<close>

fun jat :: "json \<Rightarrow> string \<Rightarrow> json jres" where
  "jat (JObj kv) k = JOk (case map_of kv k of Some v \<Rightarrow> v | None \<Rightarrow> JNull)"
| "jat JNull k = JOk JNull"
| "jat _ k = JThrow"

fun jat_const :: "json \<Rightarrow> string \<Rightarrow> json jres" where
  "jat_const (JObj kv) k = (case map_of kv k of Some v \<Rightarrow> JOk v | None \<Rightarrow> JUndef)"
| "jat_const _ k = JThrow"

fun jget_string :: "json \<Rightarrow> string jres" where
  "jget_string (JStr s) = JOk s"
| "jget_string _ = JThrow"

fun jget_uint :: "json \<Rightarrow> u32 jres" where
  "jget_uint (JInt n) = JOk (word_of_int n)"
| "jget_uint (JFloat n) = (if 0 \<le> n \<and> n < 2 ^ 32 then JOk (word_of_int n) else JUndef)"
| "jget_uint (JBool b) = JOk (if b then 1 else 0)"
| "jget_uint _ = JThrow"

fun jget_uint64 :: "json \<Rightarrow> u64 jres" where
  "jget_uint64 (JInt n) = JOk (word_of_int n)"
| "jget_uint64 (JFloat n) = (if 0 \<le> n \<and> n < 2 ^ 64 then JOk (word_of_int n) else JUndef)"
| "jget_uint64 _ = JThrow"

fun jelems :: "json \<Rightarrow> json list" where
  "jelems JNull = []"
| "jelems (JArr es) = es"
| "jelems (JObj kv) = map snd kv"
| "jelems j = [j]"

text \<open>Assignment to a key of an object that keeps the order of insertion.\<close>

fun oj_put :: "string \<Rightarrow> json \<Rightarrow> (string \<times> json) list \<Rightarrow> (string \<times> json) list" where
  "oj_put k v [] = [(k, v)]"
| "oj_put k v (p # kv) = (if fst p = k then (k, v) # kv else p # oj_put k v kv)"

lemma map_of_oj_put [simp]: "map_of (oj_put k v kv) = (map_of kv)(k \<mapsto> v)"
  by (induction kv) auto

lemma distinct_oj_put [keeps]:
  "distinct (map fst kv) \<Longrightarrow> distinct (map fst (oj_put k v kv))"
proof -
  have "set (map fst (oj_put k v kv)) = insert k (set (map fst kv))" for kv
    by (induction kv) auto
  then show "distinct (map fst kv) \<Longrightarrow> distinct (map fst (oj_put k v kv))"
    by (induction kv) auto
qed

end
