(* ===== verification/FC_Wallet.thy ===== *)
theory FC_Wallet
  imports FC_Keys FC_Address FC_Json
begin

text \<open>
  \<^verbatim>\<open>alg/Wallet\<close>: a list of password protected keys, newest first, and its JSON form.

  The JSON library's parser and printer are the parameters \<open>json_parse\<close> and \<open>json_dump\<close>, where
  \<open>None\<close> is an exception.  Random bytes are read from the tape; a run with too short a tape is
  \<open>None\<close>.
\<close>

section \<open>Model\<close>

subsection \<open>Wallet\<close>

datatype EncFormat = EfNone | EfClear | EfFcPbkdf | EfPkcs8

datatype KeyUsage = KuNone | KuSpecie | KuValidator

record Entry =
  eTime :: u64
  eUsage :: KeyUsage
  eFormat :: EncFormat
  eAddress :: string
  ePrivKey :: string

record Wallet =
  wKeys :: "Entry list"
  wPassword :: bytes
  wDefaultFormat :: EncFormat
  wKdfIters :: u32

definition WALLET_VERSION :: u32 where
  "WALLET_VERSION = 1"

definition wallet_decrypt :: "'k keylib \<Rightarrow> EncFormat \<Rightarrow> string \<Rightarrow> bytes \<Rightarrow> 'k option" where
  "wallet_decrypt K format keyString password =
     (let originalBin = Base64_decode keyString in
      case format of
        EfClear \<Rightarrow> fromPrivate (kl_os K) originalBin
      | EfFcPbkdf \<Rightarrow> PbkdfKey_unwrap K originalBin password
      | EfPkcs8 \<Rightarrow> Pkcs8Key_unwrap K originalBin password
      | EfNone \<Rightarrow> None)"

fun EncFormat_to_string :: "EncFormat \<Rightarrow> string" where
  "EncFormat_to_string EfClear = ''clear''"
| "EncFormat_to_string EfFcPbkdf = ''fcpbkdf''"
| "EncFormat_to_string EfPkcs8 = ''pkcs8''"
| "EncFormat_to_string EfNone = ''none''"

definition EncFormat_from_string :: "string \<Rightarrow> EncFormat" where
  "EncFormat_from_string str =
     (if str = ''clear'' then EfClear
      else if str = ''pkcs8'' then EfPkcs8
      else if str = ''fcpbkdf'' then EfFcPbkdf
      else EfNone)"

fun KeyUsage_to_string :: "KeyUsage \<Rightarrow> string" where
  "KeyUsage_to_string KuSpecie = ''specie''"
| "KeyUsage_to_string KuValidator = ''validator''"
| "KeyUsage_to_string KuNone = ''none''"

definition KeyUsage_from_string :: "string \<Rightarrow> KeyUsage" where
  "KeyUsage_from_string str =
     (if str = ''specie'' then KuSpecie
      else if str = ''validator'' then KuValidator
      else KuNone)"

definition wallet_reencrypt ::
  "'k keylib \<Rightarrow> EncFormat \<Rightarrow> u32 \<Rightarrow> 'k \<Rightarrow> bytes \<Rightarrow> tape \<Rightarrow> (bytes \<times> tape) option"
where
  "wallet_reencrypt K newFormat kdfIters key newPassword t =
     (case newFormat of
        EfFcPbkdf \<Rightarrow> PbkdfKey_wrap K key newPassword kdfIters t
      | EfPkcs8 \<Rightarrow> Pkcs8Key_wrap K key newPassword kdfIters t
      | EfNone \<Rightarrow> Some ([], t)
      | EfClear \<Rightarrow> Some ([], t))"

text \<open>The inner option is the result: \<open>None\<close> where \<^verbatim>\<open>retranslate\<close> returns false.\<close>

definition retranslate ::
  "'k keylib \<Rightarrow> EncFormat \<Rightarrow> EncFormat \<Rightarrow> u32 \<Rightarrow> string \<Rightarrow> bytes \<Rightarrow> bytes \<Rightarrow> tape \<Rightarrow> (string option \<times> tape) option"
where
  "retranslate K format newFormat kdfIters original password newPassword t =
     (case wallet_decrypt K format original password of
        None \<Rightarrow> Some (None, t)
      | Some key \<Rightarrow>
          do { (newEnc, t') \<leftarrow> wallet_reencrypt K newFormat kdfIters key newPassword t;
               if newEnc = [] then Some (None, t')
               else let translated = Base64_encode newEnc
                    in Some (if translated = [] then None else Some translated, t') })"

definition getTopKey :: "Entry list \<Rightarrow> KeyUsage \<Rightarrow> Entry option" where
  "getTopKey keys usage = List.find (\<lambda>entry. eUsage entry = usage) keys"

definition Wallet_new :: Wallet where
  "Wallet_new = \<lparr>wKeys = [], wPassword = [], wDefaultFormat = EfFcPbkdf, wKdfIters = KDF_ITERS_DEFAULT\<rparr>"

definition Wallet_setEncFormat :: "EncFormat \<Rightarrow> u32 \<Rightarrow> Wallet \<Rightarrow> Wallet" where
  "Wallet_setEncFormat format iters w = w\<lparr>wKdfIters := iters, wDefaultFormat := format\<rparr>"

definition Wallet_getLatestKey :: "'k keylib \<Rightarrow> KeyUsage \<Rightarrow> Wallet \<Rightarrow> 'k option" where
  "Wallet_getLatestKey K usage w =
     (case getTopKey (wKeys w) usage of
        None \<Rightarrow> None
      | Some entry \<Rightarrow> wallet_decrypt K (eFormat entry) (ePrivKey entry) (wPassword w))"

definition Wallet_getLatestAddress :: "KeyUsage \<Rightarrow> Wallet \<Rightarrow> string" where
  "Wallet_getLatestAddress usage w =
     (case getTopKey (wKeys w) usage of None \<Rightarrow> [] | Some entry \<Rightarrow> eAddress entry)"

definition Wallet_getLatestAddressBin :: "'bn bn_ops \<Rightarrow> KeyUsage \<Rightarrow> Wallet \<Rightarrow> bytes option" where
  "Wallet_getLatestAddressBin B usage w = Address_unprintable B (Wallet_getLatestAddress usage w)"

definition Wallet_getLatestPublicKey :: "'k keylib \<Rightarrow> KeyUsage \<Rightarrow> Wallet \<Rightarrow> bytes" where
  "Wallet_getLatestPublicKey K usage w =
     (case Wallet_getLatestKey K usage w of None \<Rightarrow> [] | Some key \<Rightarrow> toPublic (kl_os K) key)"

definition Wallet_getKey :: "'k keylib \<Rightarrow> string \<Rightarrow> Wallet \<Rightarrow> 'k option" where
  "Wallet_getKey K address w =
     (case List.find (\<lambda>entry. eAddress entry = address) (wKeys w) of
        None \<Rightarrow> None
      | Some entry \<Rightarrow> wallet_decrypt K (eFormat entry) (ePrivKey entry) (wPassword w))"

text \<open>The encrypted key of a new entry, with the format it is recorded under.\<close>

definition addKey_encrypt ::
  "'k keylib \<Rightarrow> EncFormat \<Rightarrow> u32 \<Rightarrow> 'k \<Rightarrow> bytes \<Rightarrow> tape \<Rightarrow> (EncFormat \<times> string \<times> tape) option"
where
  "addKey_encrypt K format kdfIters key password t =
     (case format of
        EfClear \<Rightarrow> Some (EfClear, Base64_encode (bd_bytes (toPrivate (kl_os K) key)), t)
      | EfPkcs8 \<Rightarrow>
          map_option (\<lambda>(d, t'). (EfPkcs8, Base64_encode d, t')) (Pkcs8Key_wrap K key password kdfIters t)
      | _ \<Rightarrow>
          map_option (\<lambda>(d, t'). (EfFcPbkdf, Base64_encode d, t')) (PbkdfKey_wrap K key password kdfIters t))"

text \<open>\<open>now\<close> is the reading of the system clock in seconds.\<close>

definition Wallet_addKey ::
  "'bn bn_ops \<Rightarrow> 'k keylib \<Rightarrow> u64 \<Rightarrow> KeyUsage \<Rightarrow> 'k \<Rightarrow> string \<Rightarrow> Wallet \<Rightarrow> tape \<Rightarrow> (bool \<times> Wallet \<times> tape) option"
where
  "Wallet_addKey B K now usage key address w t =
     do { ok \<leftarrow> Address_verify_str B (kl_os K) address key;
          if \<not> ok then Some (False, w, t)
          else
            do { (password, t1) \<leftarrow> (if wPassword w = [] then Prng_rand 16 t else Some (wPassword w, t));
                 (format, privKey, t2) \<leftarrow> addKey_encrypt K (wDefaultFormat w) (wKdfIters w) key password t1;
                 let w = w\<lparr>wPassword := password\<rparr>
                 in if privKey = [] then Some (False, w, t2)
                    else Some (True,
                      w\<lparr>wKeys := \<lparr>eTime = now, eUsage = usage, eFormat = format, eAddress = address,
                                  ePrivKey = privKey\<rparr> # wKeys w\<rparr>, t2) } }"

text \<open>The key generator draws its own random bytes, \<open>seed\<close>.\<close>

definition Wallet_makeNewKey ::
  "'bn bn_ops \<Rightarrow> 'k keylib \<Rightarrow> u64 \<Rightarrow> KeyUsage \<Rightarrow> string \<Rightarrow> bytes \<Rightarrow> Wallet \<Rightarrow> tape \<Rightarrow>
    ('k option \<times> Wallet \<times> tape) option"
where
  "Wallet_makeNewKey B K now usage addressSalt seed w t =
     (case Curve_generate (kl_os K) seed of
        None \<Rightarrow> Some (None, w, t)
      | Some key \<Rightarrow>
          do { (bin, t1) \<leftarrow> (if addressSalt = [] then Address_generate (kl_os K) key t
                             else Address_generate_str (kl_os K) key addressSalt t);
               address \<leftarrow> Address_printable B bin;
               (_, w', t2) \<leftarrow> Wallet_addKey B K now usage key address w t1;
               Some (Some key, w', t2) })"

subsection \<open>The JSON form\<close>

definition setString_entry :: "'k keylib \<Rightarrow> bytes \<Rightarrow> bool \<Rightarrow> json \<Rightarrow> Entry jres" where
  "setString_entry K password bPwVerify jsonEntry =
     jbind (jbind (jat jsonEntry ''address'') jget_string) (\<lambda>address.
     jbind (jbind (jat jsonEntry ''priv'') jget_string) (\<lambda>privKey.
     jbind (jbind (jat jsonEntry ''format'') jget_string) (\<lambda>formatStr.
     jbind (jbind (jat jsonEntry ''usage'') jget_string) (\<lambda>usageStr.
     jbind (jbind (jat jsonEntry ''time'') jget_uint64) (\<lambda>time.
     let format = EncFormat_from_string formatStr; usage = KeyUsage_from_string usageStr in
     if format = EfNone then JThrow
     else if \<not> bPwVerify \<and> wallet_decrypt K format privKey password = None then JThrow
     else JOk \<lparr>eTime = time, eUsage = usage, eFormat = format, eAddress = address, ePrivKey = privKey\<rparr>)))))"

text \<open>The loop keeps the entries it read before one that throws.\<close>

fun setString_entries :: "'k keylib \<Rightarrow> bytes \<Rightarrow> bool \<Rightarrow> json list \<Rightarrow> Entry list \<Rightarrow> (bool \<times> Entry list) option" where
  "setString_entries K password bPwVerify [] keys = Some (True, keys)"
| "setString_entries K password bPwVerify (key # rest) keys =
     (case setString_entry K password bPwVerify key of
        JOk entry \<Rightarrow> setString_entries K password True rest (keys @ [entry])
      | JThrow \<Rightarrow> Some (False, keys)
      | JUndef \<Rightarrow> None)"

definition Wallet_setString ::
  "(string \<Rightarrow> json option) \<Rightarrow> 'k keylib \<Rightarrow> string \<Rightarrow> bytes \<Rightarrow> Wallet \<Rightarrow> (bool \<times> Wallet) option"
where
  "Wallet_setString json_parse K value password w =
     (let w = w\<lparr>wKeys := [], wPassword := password\<rparr> in
      case json_parse value of
        None \<Rightarrow> Some (False, w)
      | Some json \<Rightarrow>
          (case jat json ''config'' of
             JUndef \<Rightarrow> None
           | JThrow \<Rightarrow> Some (False, w)
           | JOk config \<Rightarrow>
               (case jbind (jbind (jat_const config ''version'') jget_uint)
                       (\<lambda>_. jbind (jat_const config ''iters'') jget_uint) of
                  JUndef \<Rightarrow> None
                | JThrow \<Rightarrow> Some (False, w)
                | JOk iters \<Rightarrow>
                    (let w = w\<lparr>wKdfIters := iters\<rparr> in
                     case jbind (jat_const config ''defaultFormat'') jget_string of
                       JUndef \<Rightarrow> None
                     | JThrow \<Rightarrow> Some (False, w)
                     | JOk str \<Rightarrow>
                         (let w = w\<lparr>wDefaultFormat := EncFormat_from_string str\<rparr> in
                          case jat json ''keys'' of
                            JUndef \<Rightarrow> None
                          | JThrow \<Rightarrow> Some (False, w)
                          | JOk keys \<Rightarrow>
                              map_option (\<lambda>(success, entries). (success, w\<lparr>wKeys := entries\<rparr>))
                                (setString_entries K password False (jelems keys) []))))))"

definition entry_json :: "Entry \<Rightarrow> string \<Rightarrow> EncFormat \<Rightarrow> json" where
  "entry_json entry priv format =
     JObj [(''address'', JStr (eAddress entry)), (''format'', JStr (EncFormat_to_string format)),
           (''priv'', JStr priv), (''time'', JInt (uint (eTime entry))),
           (''usage'', JStr (KeyUsage_to_string (eUsage entry)))]"

text \<open>The inner \<open>None\<close> is the exception about a key that cannot be translated.\<close>

fun getString_entries :: "'k keylib \<Rightarrow> bytes \<Rightarrow> Wallet \<Rightarrow> Entry list \<Rightarrow> tape \<Rightarrow> (json list option \<times> tape) option" where
  "getString_entries K password w [] t = Some (Some [], t)"
| "getString_entries K password w (entry # rest) t =
     (if password = [] \<or> password = wPassword w then
        map_option (\<lambda>(js, t'). (map_option (\<lambda>l. entry_json entry (ePrivKey entry) (eFormat entry) # l) js, t'))
          (getString_entries K password w rest t)
      else
        do { (translated, t1) \<leftarrow> retranslate K (eFormat entry) (wDefaultFormat w) (wKdfIters w)
               (ePrivKey entry) (wPassword w) password t;
             case translated of
               None \<Rightarrow> Some (None, t1)
             | Some priv \<Rightarrow>
                 map_option (\<lambda>(js, t'). (map_option (\<lambda>l. entry_json entry priv (wDefaultFormat w) # l) js, t'))
                   (getString_entries K password w rest t1) })"

definition wallet_json :: "Wallet \<Rightarrow> json list \<Rightarrow> json" where
  "wallet_json w entries =
     JObj [(''config'', JObj [(''version'', JInt (uint WALLET_VERSION)), (''iters'', JInt (uint (wKdfIters w))),
              (''defaultFormat'', JStr (EncFormat_to_string (wDefaultFormat w)))]),
           (''keys'', JArr entries)]"

definition Wallet_getString ::
  "(json \<Rightarrow> string option) \<Rightarrow> 'k keylib \<Rightarrow> bytes \<Rightarrow> Wallet \<Rightarrow> tape \<Rightarrow> (string \<times> tape) option"
where
  "Wallet_getString json_dump K password w t =
     map_option (\<lambda>(js, t').
         (case js of
            None \<Rightarrow> []
          | Some entries \<Rightarrow> (case json_dump (wallet_json w entries) of None \<Rightarrow> [] | Some s \<Rightarrow> s), t'))
       (getString_entries K password w (wKeys w) t)"

section \<open>Entries\<close>

text \<open>What the library promises for a key in a format.\<close>

definition format_ok :: "'k keylib \<Rightarrow> EncFormat \<Rightarrow> 'k \<Rightarrow> bool" where
  "format_ok K format key =
     (case format of
        EfClear \<Rightarrow> private_ok (kl_os K) key
      | EfPkcs8 \<Rightarrow> pkcs8_ok K key
      | _ \<Rightarrow> pbkdf_ok K key)"

lemma EncFormat_from_to [roundtrip]: "EncFormat_from_string (EncFormat_to_string f) = f"
  by (cases f) (simp_all add: EncFormat_from_string_def)

lemma KeyUsage_from_to [roundtrip]: "KeyUsage_from_string (KeyUsage_to_string u) = u"
  by (cases u) (simp_all add: KeyUsage_from_string_def)

lemma reencrypt_decrypts:
  assumes "format_ok K f key" and "wallet_reencrypt K f iters key pw t = Some (d, t')" and "d \<noteq> []"
  shows "wallet_decrypt K f (Base64_encode d) pw = Some key"
  using assms
  by (cases f)
    (simp_all add: wallet_reencrypt_def wallet_decrypt_def format_ok_def Base64_decode_encode
      fcp.unwrap_wrap p8.unwrap_wrap)

lemma addKey_encrypt_decrypts:
  assumes "format_ok K f key" and "addKey_encrypt K f iters key pw t = Some (f', s, t')" and "s \<noteq> []"
  shows "wallet_decrypt K f' s pw = Some key"
proof -
  consider (clear) "f' = EfClear" "s = Base64_encode (bd_bytes (toPrivate (kl_os K) key))" "f = EfClear"
    | (pkcs8) d where "f' = EfPkcs8" "s = Base64_encode d" "f = EfPkcs8"
        "Pkcs8Key_wrap K key pw iters t = Some (d, t')"
    | (pbkdf) d where "f' = EfFcPbkdf" "s = Base64_encode d" "f = EfFcPbkdf \<or> f = EfNone"
        "PbkdfKey_wrap K key pw iters t = Some (d, t')"
    using assms(2) by (cases f) (auto simp: addKey_encrypt_def)
  then show ?thesis
  proof cases
    case clear
    then show ?thesis
      using assms(1) by (simp add: wallet_decrypt_def format_ok_def Base64_decode_encode private_ok_def)
  next
    case pkcs8
    then show ?thesis
      using assms(1,3) p8.unwrap_printed [OF _ pkcs8(4)] by (simp add: wallet_decrypt_def format_ok_def)
  next
    case pbkdf
    then have "pbkdf_ok K key"
      using assms(1) by (auto simp: format_ok_def)
    then show ?thesis
      using assms(3) fcp.unwrap_printed [OF _ pbkdf(4)] pbkdf(1,2) by (simp add: wallet_decrypt_def)
  qed
qed

lemma retranslate_decrypts:
  assumes "retranslate K f g iters s pw pw' t = Some (Some s', t')"
    and "\<And>key. wallet_decrypt K f s pw = Some key \<Longrightarrow> format_ok K g key"
  shows "wallet_decrypt K g s' pw' = wallet_decrypt K f s pw \<and> wallet_decrypt K f s pw \<noteq> None"
  using assms reencrypt_decrypts
  by (fastforce simp: retranslate_def Let_def split: option.splits bind_splits if_splits)

lemma retranslate_clear:
  assumes "g = EfClear \<or> g = EfNone"
  shows "retranslate K f g iters s pw pw' t = Some (None, t)"
  using assms by (auto simp: retranslate_def wallet_reencrypt_def split: option.splits)

section \<open>Reading back what was written\<close>

text \<open>An entry written under a password, as its reader sees it.\<close>

definition moved_entry :: "'k keylib \<Rightarrow> bytes \<Rightarrow> bytes \<Rightarrow> Entry \<Rightarrow> Entry \<Rightarrow> bool" where
  "moved_entry K pw pw' e e' \<longleftrightarrow>
     eTime e' = eTime e \<and> eUsage e' = eUsage e \<and> eAddress e' = eAddress e \<and>
     wallet_decrypt K (eFormat e') (ePrivKey e') pw' = wallet_decrypt K (eFormat e) (ePrivKey e) pw"

lemma Entry_eta [simp]:
  "\<lparr>eTime = eTime e, eUsage = eUsage e, eFormat = eFormat e, eAddress = eAddress e, ePrivKey = ePrivKey e\<rparr> = e"
  by (cases e) simp

lemma decrypt_format: "wallet_decrypt K f s pw \<noteq> None \<Longrightarrow> f \<noteq> EfNone"
  by (auto simp: wallet_decrypt_def Let_def)

lemma setString_entry_json:
  assumes "wallet_decrypt K f s pw \<noteq> None"
  shows "setString_entry K pw b (entry_json e s f) =
    JOk \<lparr>eTime = eTime e, eUsage = eUsage e, eFormat = f, eAddress = eAddress e, ePrivKey = s\<rparr>"
  using assms decrypt_format [OF assms]
  by (simp add: setString_entry_def entry_json_def EncFormat_from_to KeyUsage_from_to)

lemma getString_entries_moved:
  assumes "getString_entries K pw w es t = Some (Some js, t')"
    and "pw' = (if pw = [] then wPassword w else pw)"
    and "\<forall>e \<in> set es. wallet_decrypt K (eFormat e) (ePrivKey e) (wPassword w) \<noteq> None"
    and "\<forall>e \<in> set es. \<forall>key. wallet_decrypt K (eFormat e) (ePrivKey e) (wPassword w) = Some key
           \<longrightarrow> format_ok K (wDefaultFormat w) key"
  shows "\<exists>es'. list_all2 (moved_entry K (wPassword w) pw') es es' \<and>
           setString_entries K pw' b js ks = Some (True, ks @ es')"
  using assms
proof (induction es arbitrary: t js b ks)
  case (Cons e es)
  show ?case
  proof (cases "pw = [] \<or> pw = wPassword w")
    case True
    with Cons.prems(1) obtain js' t1 where
      rest: "getString_entries K pw w es t = Some (Some js', t')"
        and js: "js = entry_json e (ePrivKey e) (eFormat e) # js'"
      by auto
    have pw': "pw' = wPassword w"
      using True Cons.prems(2) by auto
    have dec: "wallet_decrypt K (eFormat e) (ePrivKey e) pw' \<noteq> None"
      using Cons.prems(3) pw' by simp
    obtain es' where es': "list_all2 (moved_entry K (wPassword w) pw') es es'"
      "setString_entries K pw' True js' (ks @ [e]) = Some (True, (ks @ [e]) @ es')"
      using Cons.IH [OF rest Cons.prems(2), of True "ks @ [e]"] Cons.prems(3,4) by auto
    have "setString_entries K pw' b js ks = Some (True, ks @ e # es')"
      using es'(2) js setString_entry_json [OF dec, of b e] by simp
    moreover have "moved_entry K (wPassword w) pw' e e"
      by (simp add: moved_entry_def pw')
    ultimately show ?thesis using es'(1) by blast
  next
    case False
    with Cons.prems(1) obtain s t1 js' where
      tr: "retranslate K (eFormat e) (wDefaultFormat w) (wKdfIters w) (ePrivKey e) (wPassword w) pw t
             = Some (Some s, t1)"
        and rest: "getString_entries K pw w es t1 = Some (Some js', t')"
        and js: "js = entry_json e s (wDefaultFormat w) # js'"
      by (auto split: bind_splits option.splits)
    let ?e = "\<lparr>eTime = eTime e, eUsage = eUsage e, eFormat = wDefaultFormat w,
               eAddress = eAddress e, ePrivKey = s\<rparr>"
    have pw': "pw' = pw"
      using False Cons.prems(2) by auto
    have same: "wallet_decrypt K (wDefaultFormat w) s pw' =
        wallet_decrypt K (eFormat e) (ePrivKey e) (wPassword w)"
      and dec: "wallet_decrypt K (wDefaultFormat w) s pw' \<noteq> None"
      using retranslate_decrypts [OF tr] Cons.prems(4) by (simp_all add: pw')
    obtain es' where es': "list_all2 (moved_entry K (wPassword w) pw') es es'"
      "setString_entries K pw' True js' (ks @ [?e]) = Some (True, (ks @ [?e]) @ es')"
      using Cons.IH [OF rest Cons.prems(2), of True "ks @ [?e]"] Cons.prems(3,4) by auto
    have "setString_entries K pw' b js ks = Some (True, ks @ ?e # es')"
      using es'(2) js setString_entry_json [OF dec, of b e] by simp
    moreover have "moved_entry K (wPassword w) pw' e ?e"
      by (simp add: moved_entry_def same)
    ultimately show ?thesis using es'(1) by blast
  qed
qed simp

lemma find_moved:
  assumes "list_all2 (moved_entry K pw pw') es es'"
    and "\<And>e e'. moved_entry K pw pw' e e' \<Longrightarrow> P e' = P e"
  shows "rel_option (moved_entry K pw pw') (List.find P es) (List.find P es')"
  using assms by (induction rule: list_all2_induct) auto

lemma moved_lookup:
  assumes "list_all2 (moved_entry K (wPassword w) (wPassword w')) (wKeys w) (wKeys w')"
  shows "Wallet_getKey K a w' = Wallet_getKey K a w"
    and "Wallet_getLatestKey K u w' = Wallet_getLatestKey K u w"
    and "Wallet_getLatestAddress u w' = Wallet_getLatestAddress u w"
proof -
  have "rel_option (moved_entry K (wPassword w) (wPassword w'))
      (List.find (\<lambda>e. eAddress e = a) (wKeys w)) (List.find (\<lambda>e. eAddress e = a) (wKeys w'))"
    using assms by (rule find_moved) (simp add: moved_entry_def)
  then show "Wallet_getKey K a w' = Wallet_getKey K a w"
    by (cases rule: option.rel_cases) (simp_all add: Wallet_getKey_def moved_entry_def)
  have "rel_option (moved_entry K (wPassword w) (wPassword w'))
      (getTopKey (wKeys w) u) (getTopKey (wKeys w') u)"
    unfolding getTopKey_def using assms by (rule find_moved) (simp add: moved_entry_def)
  then show "Wallet_getLatestKey K u w' = Wallet_getLatestKey K u w"
    and "Wallet_getLatestAddress u w' = Wallet_getLatestAddress u w"
    by (cases rule: option.rel_cases,
        simp_all add: Wallet_getLatestKey_def Wallet_getLatestAddress_def moved_entry_def)+
qed

lemma setString_wallet_json:
  assumes "json_parse s = Some (wallet_json w js)" and "setString_entries K pw False js [] = Some (True, es)"
  shows "Wallet_setString json_parse K s pw w0 =
    Some (True, w0\<lparr>wKeys := es, wPassword := pw, wKdfIters := wKdfIters w, wDefaultFormat := wDefaultFormat w\<rparr>)"
  using assms by (simp add: Wallet_setString_def wallet_json_def EncFormat_from_to)

section \<open>Adding keys\<close>

text \<open>A key that is added is the newest of its usage and is found under its address;
  the keys of all other addresses are found as before, unless the wallet had no password and
  the added key gave it one.\<close>

lemma Wallet_addKey_finds:
  assumes "Wallet_addKey B K now usage key address w t = Some (True, w', t')"
    and "format_ok K (wDefaultFormat w) key"
  shows "Wallet_getKey K address w' = Some key \<and> Wallet_getLatestKey K usage w' = Some key \<and>
         Wallet_getLatestAddress usage w' = address \<and> wPassword w' \<noteq> [] \<and>
         (wPassword w \<noteq> [] \<longrightarrow> (\<forall>a. a \<noteq> address \<longrightarrow> Wallet_getKey K a w' = Wallet_getKey K a w))"
proof -
  obtain password t1 format privKey where
    pw: "(if wPassword w = [] then Prng_rand 16 t else Some (wPassword w, t)) = Some (password, t1)"
    and enc: "addKey_encrypt K (wDefaultFormat w) (wKdfIters w) key password t1 = Some (format, privKey, t')"
    and "privKey \<noteq> []"
    and w': "w' = w\<lparr>wPassword := password,
      wKeys := \<lparr>eTime = now, eUsage = usage, eFormat = format, eAddress = address, ePrivKey = privKey\<rparr> # wKeys w\<rparr>"
    using assms(1) by (auto simp: Wallet_addKey_def Let_def split: bind_splits if_splits)
  have "wallet_decrypt K format privKey password = Some key"
    using addKey_encrypt_decrypts [OF assms(2) enc \<open>privKey \<noteq> []\<close>] .
  moreover have "password \<noteq> []" and "wPassword w \<noteq> [] \<Longrightarrow> password = wPassword w"
    using pw by (auto simp: Prng_rand_def split: if_splits)
  ultimately show ?thesis
    by (auto simp: w' Wallet_getKey_def Wallet_getLatestKey_def Wallet_getLatestAddress_def getTopKey_def
        cong: option.case_cong)
qed

lemma PbkdfKey_wrap_nonempty:
  assumes "PbkdfKey_wrap K k pass iters t = Some (d, t')"
    and "private_ok (kl_os K) k" and "pbkdf_total K" and "pass \<noteq> []"
    and "KDF_ITERS_MIN \<le> unat iters" "unat iters \<le> KDF_ITERS_MAX"
  shows "d \<noteq> []"
proof (cases "24 \<le> length t")
  case True
  from PbkdfKey_wrap_total [OF assms(2,3) True assms(4-6)] assms(1) show ?thesis by auto
next
  case False
  then have "PbkdfKey_wrap K k pass iters t = None"
    using assms(4-6) private_ok_nonempty [OF assms(2)]
    by (auto simp: PbkdfKey_wrap_def Prng_rand_def IV_LEN_def SALT_LEN_def Let_def split: bind_splits)
  with assms(1) show ?thesis by simp
qed

lemma generated_verifies:
  assumes "sha256_size os" and "bn_laws B val" and "Address_generate_bin os key salt t = Some (bin, t')"
    and "Address_printable B bin = Some address"
  shows "Address_verify_str B os address key = Some True"
proof -
  obtain s where s: "length s = 6" "bin = s @ addr_digest os key s"
    using generate_bin_salted [OF assms(1,3)] by blast
  with length_addr_digest [OF assms(1)] have len: "length bin = 26" by simp
  then have "length bin < 2 ^ 31" by simp
  from printable_unprintable [OF assms(2) this] assms(4)
  have "Address_unprintable B address = Some bin" by simp
  moreover have "Address_verify os bin key = Some True"
    using s len by (simp add: verify_iff [OF assms(1)])
  ultimately show ?thesis by (simp add: Address_verify_str_def)
qed

lemma generate_str_via_bin:
  "Address_generate_str os key salt t = Some (bin, t') \<Longrightarrow> \<exists>s t1. Address_generate_bin os key s t1 = Some (bin, t')"
  by (auto simp: Address_generate_str_def split: if_splits bind_splits)

lemma generate_via_bin:
  assumes "(if salt = [] then Address_generate os key t else Address_generate_str os key salt t) = Some (bin, t')"
  shows "\<exists>s t1. Address_generate_bin os key s t1 = Some (bin, t')"
  using assms generate_str_via_bin [of os key _ _ bin t']
  by (auto simp: Address_generate_def split: if_splits bind_splits)

lemma addKey_succeeds:
  assumes "Address_verify_str B (kl_os K) address key = Some True"
    and "Wallet_addKey B K now usage key address w t = Some (ok, w', t')"
    and "wDefaultFormat w = EfFcPbkdf" "pbkdf_ok K key" "pbkdf_total K"
    and "KDF_ITERS_MIN \<le> unat (wKdfIters w)" "unat (wKdfIters w) \<le> KDF_ITERS_MAX"
  shows "ok"
proof -
  obtain password t1 d t2 where
    pw: "(if wPassword w = [] then Prng_rand 16 t else Some (wPassword w, t)) = Some (password, t1)"
    and wrap: "PbkdfKey_wrap K key password (wKdfIters w) t1 = Some (d, t2)"
    and ok: "ok \<longleftrightarrow> Base64_encode d \<noteq> []"
    using assms(1-3)
    by (auto simp: Wallet_addKey_def Let_def addKey_encrypt_def split: bind_splits if_splits)
  have "password \<noteq> []"
    using pw by (auto simp: Prng_rand_def split: if_splits)
  with PbkdfKey_wrap_nonempty [OF wrap] assms(4-7) have "d \<noteq> []"
    by (simp add: pbkdf_ok_def)
  then have "Base64_decode (Base64_encode d) \<noteq> []"
    by (simp add: Base64_decode_encode)
  then have "Base64_encode d \<noteq> []"
    by (auto simp: Base64_decode_def)
  with ok show ?thesis by simp
qed

text \<open>A wallet that stores clear keys cannot be exported under another password.\<close>

lemma Wallet_clear_no_password_change:
  assumes "wDefaultFormat w = EfClear" and "wKeys w \<noteq> []" and "pw \<noteq> []" and "pw \<noteq> wPassword w"
  shows "Wallet_getString json_dump K pw w t = Some ([], t)"
  using assms by (cases "wKeys w") (simp_all add: Wallet_getString_def retranslate_clear)

lemma Wallet_read_back:
  assumes parse: "\<And>j s. json_dump j = Some s \<Longrightarrow> json_parse s = Some j"
    and "Wallet_getString json_dump K pw w t = Some (s, t')" and "s \<noteq> []"
    and "\<forall>e \<in> set (wKeys w). \<exists>key. wallet_decrypt K (eFormat e) (ePrivKey e) (wPassword w) = Some key
           \<and> format_ok K (wDefaultFormat w) key"
  shows "\<exists>w'. Wallet_setString json_parse K s (if pw = [] then wPassword w else pw) w0 = Some (True, w') \<and>
           map (\<lambda>e. (eTime e, eUsage e, eAddress e)) (wKeys w') = map (\<lambda>e. (eTime e, eUsage e, eAddress e)) (wKeys w) \<and>
           wKdfIters w' = wKdfIters w \<and> wDefaultFormat w' = wDefaultFormat w \<and>
           (\<forall>a. Wallet_getKey K a w' = Wallet_getKey K a w) \<and>
           (\<forall>u. Wallet_getLatestKey K u w' = Wallet_getLatestKey K u w) \<and>
           (\<forall>u. Wallet_getLatestAddress u w' = Wallet_getLatestAddress u w)"
proof -
  let ?pw = "if pw = [] then wPassword w else pw"
  from assms(2,3) obtain js where js: "getString_entries K pw w (wKeys w) t = Some (Some js, t')"
    and dump: "json_dump (wallet_json w js) = Some s"
    by (auto simp: Wallet_getString_def split: option.splits)
  have "\<forall>e \<in> set (wKeys w). wallet_decrypt K (eFormat e) (ePrivKey e) (wPassword w) \<noteq> None"
    and "\<forall>e \<in> set (wKeys w). \<forall>key. wallet_decrypt K (eFormat e) (ePrivKey e) (wPassword w) = Some key
           \<longrightarrow> format_ok K (wDefaultFormat w) key"
    using assms(4) by fastforce+
  from getString_entries_moved [OF js refl this, of False "[]"]
  obtain es where es: "list_all2 (moved_entry K (wPassword w) ?pw) (wKeys w) es"
    and read: "setString_entries K ?pw False js [] = Some (True, es)"
    by auto
  let ?w = "w0\<lparr>wKeys := es, wPassword := ?pw, wKdfIters := wKdfIters w, wDefaultFormat := wDefaultFormat w\<rparr>"
  have "Wallet_setString json_parse K s ?pw w0 = Some (True, ?w)"
    using parse [OF dump] read by (rule setString_wallet_json)
  moreover have "list_all2 (moved_entry K (wPassword w) (wPassword ?w)) (wKeys w) (wKeys ?w)"
    using es by simp
  note moved_lookup [OF this]
  moreover have "map (\<lambda>e. (eTime e, eUsage e, eAddress e)) es = map (\<lambda>e. (eTime e, eUsage e, eAddress e)) (wKeys w)"
    using es by (induction rule: list_all2_induct) (simp_all add: moved_entry_def)
  ultimately show ?thesis by simp
qed

section \<open>Properties\<close>

text \<open>Claim C6.  Writing a wallet and reading it back, under its own password or under a new one,
  keeps every key: if all keys can be decrypted and the export succeeds, reading the text with
  the password succeeds and every address and every usage leads to the same key as before.\<close>

theorem Wallet_write_read:
  assumes parse: "\<And>j s. json_dump j = Some s \<Longrightarrow> json_parse s = Some j"
    and "Wallet_getString json_dump K pw w t = Some (s, t')" and "s \<noteq> []"
    and "\<forall>e \<in> set (wKeys w). \<exists>key. wallet_decrypt K (eFormat e) (ePrivKey e) (wPassword w) = Some key
           \<and> format_ok K (wDefaultFormat w) key"
  shows "\<exists>w'. Wallet_setString json_parse K s (if pw = [] then wPassword w else pw) w0 = Some (True, w') \<and>
           map (\<lambda>e. (eTime e, eUsage e, eAddress e)) (wKeys w') = map (\<lambda>e. (eTime e, eUsage e, eAddress e)) (wKeys w) \<and>
           wKdfIters w' = wKdfIters w \<and> wDefaultFormat w' = wDefaultFormat w \<and>
           (\<forall>a. Wallet_getKey K a w' = Wallet_getKey K a w) \<and>
           (\<forall>u. Wallet_getLatestKey K u w' = Wallet_getLatestKey K u w)"
  using Wallet_read_back [where json_parse = json_parse, OF assms] by blast

text \<open>Claim C18.  A new key can be used.  Take a wallet whose format for new keys is \<open>EfFcPbkdf\<close> and whose number of
  iterations lies between 1024 and 10485760, as the reader of that format asks, and a call that made a key which that
  format can hold.  Then the key is the newest of its usage, its address verifies against it and finds it
  again; and if the wallet had a password, the keys under all other addresses are found as before (without
  one, the call sets a random password that the older keys were not stored under).\<close>

theorem Wallet_makeNewKey_finds:
  assumes "sha256_size (kl_os K)" and "bn_laws B val"
    and "Wallet_makeNewKey B K now usage salt seed w t = Some (Some key, w', t')"
    and "wDefaultFormat w = EfFcPbkdf" and "pbkdf_ok K key" and "pbkdf_total K"
    and "1024 \<le> unat (wKdfIters w)" and "unat (wKdfIters w) \<le> 10485760"
  shows "Wallet_getLatestKey K usage w' = Some key \<and>
         Wallet_getKey K (Wallet_getLatestAddress usage w') w' = Some key \<and>
         Address_verify_str B (kl_os K) (Wallet_getLatestAddress usage w') key = Some True \<and>
         (wPassword w \<noteq> [] \<longrightarrow> (\<forall>a. a \<noteq> Wallet_getLatestAddress usage w' \<longrightarrow>
            Wallet_getKey K a w' = Wallet_getKey K a w))"
proof -
  obtain bin t1 address ok where
    gen: "(if salt = [] then Address_generate (kl_os K) key t
           else Address_generate_str (kl_os K) key salt t) = Some (bin, t1)"
    and addr: "Address_printable B bin = Some address"
    and add: "Wallet_addKey B K now usage key address w t1 = Some (ok, w', t')"
    using assms(3) by (auto simp: Wallet_makeNewKey_def split: option.splits bind_splits)
  obtain s t0 where "Address_generate_bin (kl_os K) key s t0 = Some (bin, t1)"
    using generate_via_bin [OF gen] by blast
  from generated_verifies [OF assms(1,2) this addr]
  have ver: "Address_verify_str B (kl_os K) address key = Some True" .
  have "ok"
    by (rule addKey_succeeds [OF ver add assms(4-6)])
      (use assms(7,8) in \<open>simp_all add: KDF_ITERS_MIN_def KDF_ITERS_MAX_def\<close>)
  moreover have "format_ok K (wDefaultFormat w) key"
    using assms(4,5) by (simp add: format_ok_def)
  ultimately show ?thesis
    using Wallet_addKey_finds [of B K now usage key address w t1 w' t'] add ver by simp
qed

section \<open>Examples\<close>

text \<open>A wallet with one clear key, and the wallet a node starts with.\<close>

definition demo_entry :: Entry where
  "demo_entry = \<lparr>eTime = 1, eUsage = KuValidator, eFormat = EfClear, eAddress = ''a'',
     ePrivKey = Base64_encode (replicate 32 7)\<rparr>"

definition demo_wallet :: Wallet where
  "demo_wallet = \<lparr>wKeys = [demo_entry], wPassword = [111], wDefaultFormat = EfFcPbkdf, wKdfIters = 1024\<rparr>"

lemma demo_decrypt:
  "wallet_decrypt plain_keylib EfClear (Base64_encode (replicate 32 7)) pw = Some (take 12 pubinfo @ replicate 32 7)"
proof -
  have "fromPrivate plain_openssl (replicate 32 7) = Some (take 12 pubinfo @ replicate 32 7)"
    by (simp add: fromPrivate_def plain_openssl_def ossl_decode_def)
  then show ?thesis
    by (simp add: wallet_decrypt_def Base64_decode_encode plain_keylib_def)
qed

lemma demo_export:
  "\<exists>js t'. getString_entries plain_keylib [112] demo_wallet (wKeys demo_wallet) (replicate 24 5) = Some (Some js, t')"
proof -
  have "private_ok (kl_os plain_keylib) (take 12 pubinfo @ replicate 32 7)"
    using plain_pbkdf_ok [of "replicate 32 7"] by (simp add: pbkdf_ok_def)
  from PbkdfKey_wrap_total [OF this plain_pbkdf_total, of "replicate 24 5" "[112]" 1024]
  obtain d where d: "PbkdfKey_wrap plain_keylib (take 12 pubinfo @ replicate 32 7) [112] 1024 (replicate 24 5)
      = Some (d, [])" "d \<noteq> []"
    by (auto simp: KDF_ITERS_MIN_def KDF_ITERS_MAX_def)
  have "Base64_encode d \<noteq> []"
    using d(2) Base64_decode_encode [of d] by (auto simp: Base64_decode_def)
  with d have "retranslate plain_keylib EfClear EfFcPbkdf 1024 (Base64_encode (replicate 32 7)) [111] [112] (replicate 24 5)
      = Some (Some (Base64_encode d), [])"
    by (simp add: retranslate_def demo_decrypt wallet_reencrypt_def)
  then show ?thesis
    by (simp add: demo_wallet_def demo_entry_def)
qed

lemma demo_keys:
  "\<forall>e \<in> set (wKeys demo_wallet).
      \<exists>key. wallet_decrypt plain_keylib (eFormat e) (ePrivKey e) (wPassword demo_wallet) = Some key
        \<and> format_ok plain_keylib (wDefaultFormat demo_wallet) key"
  using plain_pbkdf_ok [of "replicate 32 7"]
  by (simp add: demo_wallet_def demo_entry_def demo_decrypt format_ok_def)

theorem Wallet_write_read_witness:
  "\<exists>dump parse s t' w'.
     Wallet_getString dump plain_keylib [112] demo_wallet (replicate 24 5) = Some (s, t') \<and>
     Wallet_setString parse plain_keylib s [112] Wallet_new = Some (True, w') \<and>
     Wallet_getKey plain_keylib ''a'' w' = Some (take 12 pubinfo @ replicate 32 7)"
proof -
  obtain js t' where js:
    "getString_entries plain_keylib [112] demo_wallet (wKeys demo_wallet) (replicate 24 5) = Some (Some js, t')"
    using demo_export by blast
  let ?J = "wallet_json demo_wallet js"
  let ?dump = "\<lambda>j. if j = ?J then Some ''{}'' else None" and ?parse = "\<lambda>s. if s = ''{}'' then Some ?J else None"
  have parse: "\<And>j s. ?dump j = Some s \<Longrightarrow> ?parse s = Some j"
    by (auto split: if_splits)
  have out: "Wallet_getString ?dump plain_keylib [112] demo_wallet (replicate 24 5) = Some (''{}'', t')"
    using js by (simp add: Wallet_getString_def)
  have found: "Wallet_getKey plain_keylib ''a'' demo_wallet = Some (take 12 pubinfo @ replicate 32 7)"
    by (simp add: Wallet_getKey_def demo_wallet_def demo_entry_def demo_decrypt)
  obtain w' where "Wallet_setString ?parse plain_keylib ''{}'' [112] Wallet_new = Some (True, w')"
    "Wallet_getKey plain_keylib ''a'' w' = Wallet_getKey plain_keylib ''a'' demo_wallet"
    using Wallet_write_read [where json_parse = ?parse, OF parse out _ demo_keys, where ?w0.0 = Wallet_new] by auto
  with out found show ?thesis
    by (intro exI [of _ ?dump] exI [of _ ?parse] exI [of _ "''{}''"] exI [of _ t'] exI [of _ w']) simp
qed

lemma demo_makeNewKey:
  "\<exists>w' t'. Wallet_makeNewKey nat_bn plain_keylib 9 KuSpecie (Base64_encode (replicate 6 0)) (replicate 32 7)
     demo_wallet (replicate 24 5) = Some (Some (take 12 pubinfo @ replicate 32 7), w', t')"
proof -
  let ?k = "take 12 pubinfo @ replicate 32 7 :: bytes" and ?salt = "Base64_encode (replicate 6 0)"
  have os: "kl_os plain_keylib = plain_openssl"
    by (simp add: plain_keylib_def)
  have "length ?salt = 8" by (simp add: length_Base64_encode)
  then have "?salt \<noteq> []" and "length ?salt mod 4 = 0" by auto
  then have gen: "Address_generate_str plain_openssl ?k ?salt (replicate 24 5)
      = Some (replicate 6 0 @ addr_digest plain_openssl ?k (replicate 6 0), replicate 24 5)"
    by (simp add: Address_generate_str_def Base64_decode_encode generate_bin_exact [OF plain_sha256_size])
  obtain s t0 where bin: "Address_generate_bin plain_openssl ?k s t0
      = Some (replicate 6 0 @ addr_digest plain_openssl ?k (replicate 6 0), replicate 24 5)"
    using generate_str_via_bin [OF gen] by blast
  have "length (replicate 6 0 @ addr_digest plain_openssl ?k (replicate 6 0)) < 2 ^ 31"
    using length_addr_digest [OF plain_sha256_size] by simp
  from printable_unprintable [OF nat_bn_laws this] obtain address where
    addr: "Address_printable nat_bn (replicate 6 0 @ addr_digest plain_openssl ?k (replicate 6 0)) = Some address"
    by blast
  note ver = generated_verifies [OF plain_sha256_size nat_bn_laws bin addr]
  have "private_ok (kl_os plain_keylib) ?k"
    using plain_pbkdf_ok [of "replicate 32 7"] by (simp add: pbkdf_ok_def)
  from PbkdfKey_wrap_total [OF this plain_pbkdf_total, of "replicate 24 5" "[111]" 1024]
  obtain d where "PbkdfKey_wrap plain_keylib ?k [111] 1024 (replicate 24 5) = Some (d, [])"
    by (auto simp: KDF_ITERS_MIN_def KDF_ITERS_MAX_def)
  then have "\<exists>r. Wallet_addKey nat_bn plain_keylib 9 KuSpecie ?k address demo_wallet (replicate 24 5) = Some r"
    using ver by (cases "Base64_encode d = []")
      (auto simp: Wallet_addKey_def os addKey_encrypt_def demo_wallet_def Let_def)
  moreover have "Curve_generate (kl_os plain_keylib) (replicate 32 7) = Some ?k"
    by (simp add: Curve_generate_def os plain_openssl_def)
  ultimately show ?thesis
    using gen addr \<open>?salt \<noteq> []\<close> by (auto simp: Wallet_makeNewKey_def os)
qed

theorem Wallet_makeNewKey_finds_witness:
  "\<exists>w' t'. Wallet_makeNewKey nat_bn plain_keylib 9 KuSpecie (Base64_encode (replicate 6 0)) (replicate 32 7)
       demo_wallet (replicate 24 5) = Some (Some (take 12 pubinfo @ replicate 32 7), w', t') \<and>
     Wallet_getLatestKey plain_keylib KuSpecie w' = Some (take 12 pubinfo @ replicate 32 7)"
proof -
  obtain w' t' where new: "Wallet_makeNewKey nat_bn plain_keylib 9 KuSpecie (Base64_encode (replicate 6 0))
      (replicate 32 7) demo_wallet (replicate 24 5) = Some (Some (take 12 pubinfo @ replicate 32 7), w', t')"
    using demo_makeNewKey by blast
  have sha: "sha256_size (kl_os plain_keylib)"
    using plain_sha256_size by (simp add: plain_keylib_def)
  have "wDefaultFormat demo_wallet = EfFcPbkdf" "wKdfIters demo_wallet = 1024"
    by (simp_all add: demo_wallet_def)
  with Wallet_makeNewKey_finds [OF sha nat_bn_laws new _ plain_pbkdf_ok plain_pbkdf_total] new
  show ?thesis by auto
qed

section \<open>Keys that are made\<close>

text \<open>The documented behaviour of the libraries that keys and addresses need.\<close>

definition key_libs :: "'bn bn_ops \<Rightarrow> ('bn \<Rightarrow> nat) \<Rightarrow> 'k keylib \<Rightarrow> bool" where
  "key_libs B val K \<longleftrightarrow> sha256_size (kl_os K) \<and> bn_laws B val \<and> pbkdf_total K \<and>
     (\<forall>seed key. Curve_generate (kl_os K) seed = Some key \<longrightarrow> pbkdf_ok K key)"

definition default_wallet :: "Wallet \<Rightarrow> bool" where
  "default_wallet w \<longleftrightarrow> wDefaultFormat w = EfFcPbkdf \<and> KDF_ITERS_MIN \<le> unat (wKdfIters w) \<and> unat (wKdfIters w) \<le> KDF_ITERS_MAX"

lemma default_Wallet_new: "default_wallet Wallet_new"
  by (simp add: default_wallet_def Wallet_new_def KDF_ITERS_DEFAULT_def KDF_ITERS_MIN_def KDF_ITERS_MAX_def)

text \<open>The entry of a key: it opens with the password and its address stands for the key.\<close>

definition entry_of :: "'bn bn_ops \<Rightarrow> 'k keylib \<Rightarrow> bytes \<Rightarrow> KeyUsage \<Rightarrow> 'k \<Rightarrow> Entry \<Rightarrow> bool" where
  "entry_of B K pw usage key e \<longleftrightarrow> eUsage e = usage \<and> wallet_decrypt K (eFormat e) (ePrivKey e) pw = Some key \<and>
     (\<exists>bin. Address_unprintable B (eAddress e) = Some bin \<and> length bin = 26)"

lemma generated_address:
  assumes "sha256_size os" and "bn_laws B val" and "Address_generate_bin os key salt t = Some (bin, t')"
    and "Address_printable B bin = Some address"
  shows "Address_unprintable B address = Some bin \<and> length bin = 26"
proof -
  obtain s where s: "length s = 6" "bin = s @ addr_digest os key s"
    using generate_bin_salted [OF assms(1,3)] by blast
  with length_addr_digest [OF assms(1)] have len: "length bin = 26" by simp
  then have "length bin < 2 ^ 31" by simp
  from printable_unprintable [OF assms(2) this] assms(4) len show ?thesis by simp
qed

lemma makeNewKey_entry:
  assumes "key_libs B val K" and "default_wallet w" and "Wallet_makeNewKey B K now usage salt seed w t = Some (Some key, w', t')"
  shows "\<exists>e pw. w' = w\<lparr>wPassword := pw, wKeys := e # wKeys w\<rparr> \<and> entry_of B K pw usage key e \<and> pbkdf_ok K key \<and>
     pw \<noteq> [] \<and> (wPassword w \<noteq> [] \<longrightarrow> pw = wPassword w)"
proof -
  have libs: "sha256_size (kl_os K)" "bn_laws B val" "pbkdf_total K" using assms(1) by (simp_all add: key_libs_def)
  have w: "wDefaultFormat w = EfFcPbkdf" "KDF_ITERS_MIN \<le> unat (wKdfIters w)" "unat (wKdfIters w) \<le> KDF_ITERS_MAX"
    using assms(2) by (simp_all add: default_wallet_def)
  obtain bin t1 address ok where key: "Curve_generate (kl_os K) seed = Some key"
    and gen: "(if salt = [] then Address_generate (kl_os K) key t else Address_generate_str (kl_os K) key salt t) = Some (bin, t1)"
    and addr: "Address_printable B bin = Some address"
    and add: "Wallet_addKey B K now usage key address w t1 = Some (ok, w', t')"
    using assms(3) by (auto simp: Wallet_makeNewKey_def split: option.splits bind_splits)
  have pk: "pbkdf_ok K key" using assms(1) key by (auto simp: key_libs_def)
  obtain s t0 where bin: "Address_generate_bin (kl_os K) key s t0 = Some (bin, t1)"
    using generate_via_bin [OF gen] by blast
  note ver = generated_verifies [OF libs(1,2) bin addr]
  have "ok" by (rule addKey_succeeds [OF ver add w(1) pk libs(3) w(2,3)])
  with add ver obtain pw t2 format privKey where
    pw: "(if wPassword w = [] then Prng_rand 16 t1 else Some (wPassword w, t1)) = Some (pw, t2)"
    and enc: "addKey_encrypt K (wDefaultFormat w) (wKdfIters w) key pw t2 = Some (format, privKey, t')" "privKey \<noteq> []"
    and w': "w' = w\<lparr>wPassword := pw,
      wKeys := \<lparr>eTime = now, eUsage = usage, eFormat = format, eAddress = address, ePrivKey = privKey\<rparr> # wKeys w\<rparr>"
    by (auto simp: Wallet_addKey_def Let_def split: bind_splits if_splits)
  have "format_ok K (wDefaultFormat w) key" using w(1) pk by (simp add: format_ok_def)
  from addKey_encrypt_decrypts [OF this enc] have "wallet_decrypt K format privKey pw = Some key" .
  moreover have "pw \<noteq> []" and "wPassword w \<noteq> [] \<Longrightarrow> pw = wPassword w"
    using pw by (auto simp: Prng_rand_def split: if_splits)
  ultimately show ?thesis
    using generated_address [OF libs(1,2) bin addr] pk unfolding w' entry_of_def by fastforce
qed

text \<open>With a salt of whole groups of four characters, 46 random bytes are enough.\<close>

lemma padSalt_tape:
  assumes "6 \<le> length t"
  shows "\<exists>s t'. Address_padSalt salt t = Some (s, t') \<and> length t \<le> length t' + 6"
  using assms by (auto simp: Address_padSalt_def SALT_LENGTH_def Prng_rand_def)

lemma addKey_total:
  assumes "Address_verify_str B (kl_os K) address key = Some True" and "default_wallet w" and "pbkdf_ok K key" "pbkdf_total K"
    and "40 \<le> length t"
  shows "\<exists>ok w' t'. Wallet_addKey B K now usage key address w t = Some (ok, w', t') \<and> length t \<le> length t' + 40"
proof -
  obtain pw t1 where pw: "(if wPassword w = [] then Prng_rand 16 t else Some (wPassword w, t)) = Some (pw, t1)" "pw \<noteq> []"
    and t1: "length t \<le> length t1 + 16"
    using assms(5) by (cases "wPassword w = []"; cases "t = []") (auto simp: Prng_rand_def)
  have "private_ok (kl_os K) key" using assms(3) by (simp add: pbkdf_ok_def)
  from PbkdfKey_wrap_total [OF this assms(4) _ pw(2), of t1 "wKdfIters w"] assms(2,5) t1
  obtain d where "PbkdfKey_wrap K key pw (wKdfIters w) t1 = Some (d, drop 24 t1)" by (auto simp: default_wallet_def)
  with assms(1,2) pw have "\<exists>ok w'. Wallet_addKey B K now usage key address w t = Some (ok, w', drop 24 t1)"
    by (cases "Base64_encode d = []") (auto simp: Wallet_addKey_def addKey_encrypt_def default_wallet_def Let_def)
  moreover have "length t \<le> length (drop 24 t1) + 40" using t1 by simp
  ultimately show ?thesis by blast
qed

lemma makeNewKey_total:
  assumes "key_libs B val K" and "default_wallet w" and "Curve_generate (kl_os K) seed = Some key"
    and "salt \<noteq> []" and "length salt mod 4 = 0" and "46 \<le> length t"
  shows "\<exists>w' t'. Wallet_makeNewKey B K now usage salt seed w t = Some (Some key, w', t') \<and> length t \<le> length t' + 46"
proof -
  have libs: "sha256_size (kl_os K)" "bn_laws B val" "pbkdf_total K" and pk: "pbkdf_ok K key"
    using assms(1,3) by (auto simp: key_libs_def)
  obtain s t1 where s: "Address_padSalt (Base64_decode salt) t = Some (s, t1)" "length t \<le> length t1 + 6"
    using padSalt_tape [of t] assms(6) by fastforce
  then obtain bin where bin: "Address_generate_bin (kl_os K) key (Base64_decode salt) t = Some (bin, t1)"
    by (auto simp: Address_generate_bin_def fromSalt_digest [OF libs(1)])
  obtain address where addr: "Address_printable B bin = Some address"
  proof -
    obtain r where "length r = 6" "bin = r @ addr_digest (kl_os K) key r"
      using generate_bin_salted [OF libs(1) bin] by blast
    then have "length bin < 2 ^ 31" using length_addr_digest [OF libs(1)] by simp
    from printable_unprintable [OF libs(2) this] show thesis using that by blast
  qed
  from addKey_total [OF generated_verifies [OF libs(1,2) bin addr] assms(2) pk libs(3), of t1 now usage] assms(6) s(2)
  obtain ok w' t' where "Wallet_addKey B K now usage key address w t1 = Some (ok, w', t')" "length t1 \<le> length t' + 40" by auto
  with bin addr assms(3-5) s(2) show ?thesis
    by (simp add: Wallet_makeNewKey_def Address_generate_str_def)
qed

end
