(* ===== verification/FC_Peers.thy ===== *)
theory FC_Peers
  imports FC_Wallet FC_Files FC_Utils
begin

text \<open>
  The peer-to-peer service: \<^verbatim>\<open>p2p/auth\<close> (brute force table, sessions, stake key, validator lookup),
  \<^verbatim>\<open>alg/PeerAuth\<close>, the handshake handler \<^verbatim>\<open>p2p/api/server/Handshake\<close> and the set-up of the
  service \<^verbatim>\<open>p2p/core/P2pServiceParams\<close>.

  A time is the reading of the monotonic clock in nanoseconds, whose epoch, the value of a
  default time point, is 0.  Operations that read the clock take the readings as arguments, in
  the order they are made.  Each method holds its object's mutex throughout, so that calls from
  several threads are a sequence of calls.
\<close>

section \<open>Model\<close>

type_synonym timept = nat

definition chrono_seconds :: "nat \<Rightarrow> timept" where
  "chrono_seconds n = n * 1000000000"

subsection \<open>BruteForce\<close>

definition MAX_OFFENSES :: u32 where
  "MAX_OFFENSES = 3"

definition LOCKOUT_SECONDS :: nat where
  "LOCKOUT_SECONDS = 60"

definition CLEANUP_INTERVAL_SECONDS :: nat where
  "CLEANUP_INTERVAL_SECONDS = 20"

record BruteForceOffender =
  offAddress :: string
  offenses :: u32
  lastOffense :: timept

record BruteForce =
  offenders :: "(string, BruteForceOffender) omap"
  mapAddressToForgiveness :: "(string, timept) omap"
  bfNextCleanup :: timept

definition BruteForce_new :: BruteForce where
  "BruteForce_new = \<lparr>offenders = om_empty, mapAddressToForgiveness = om_empty, bfNextCleanup = 0\<rparr>"

definition BruteForce_cleanup :: "timept \<Rightarrow> BruteForce \<Rightarrow> BruteForce" where
  "BruteForce_cleanup now x =
     (if bfNextCleanup x < now then x
      else
        x\<lparr>bfNextCleanup := now + chrono_seconds CLEANUP_INTERVAL_SECONDS,
          mapAddressToForgiveness := filter (\<lambda>(a, until). \<not> until < now) (mapAddressToForgiveness x),
          offenders := filter (\<lambda>(a, off). \<not> lastOffense off + chrono_seconds LOCKOUT_SECONDS < now) (offenders x)\<rparr>)"

definition BruteForce_checkAddress :: "string \<Rightarrow> timept \<Rightarrow> BruteForce \<Rightarrow> bool \<times> BruteForce" where
  "BruteForce_checkAddress address now x =
     (let x = BruteForce_cleanup now x in (om_find (mapAddressToForgiveness x) address = None, x))"

definition BruteForce_addOffense :: "string \<Rightarrow> timept \<Rightarrow> BruteForce \<Rightarrow> BruteForce" where
  "BruteForce_addOffense address now x =
     (if om_find (mapAddressToForgiveness x) address \<noteq> None then x
      else
        case om_find (offenders x) address of
          None \<Rightarrow>
            x\<lparr>offenders := om_put address \<lparr>offAddress = address, offenses = 0 + 1, lastOffense = now\<rparr> (offenders x)\<rparr>
        | Some offender \<Rightarrow>
            let offender = offender\<lparr>lastOffense := now, offenses := offenses offender + 1\<rparr>
            in if offenses offender \<ge> MAX_OFFENSES then
                 x\<lparr>mapAddressToForgiveness :=
                     om_put address (lastOffense offender + chrono_seconds LOCKOUT_SECONDS) (mapAddressToForgiveness x),
                   offenders := om_erase address (offenders x)\<rparr>
               else x\<lparr>offenders := om_put address offender (offenders x)\<rparr>)"

subsection \<open>PeerSessions\<close>

definition SESSION_TIMEOUT_SECONDS :: nat where
  "SESSION_TIMEOUT_SECONDS = 300"

record PeerSession =
  protocolVersion :: u32
  psAddress :: string
  sessionId :: string
  hmacKey :: bytes
  lastUse :: timept

definition PeerSession_new :: PeerSession where
  "PeerSession_new = \<lparr>protocolVersion = 0, psAddress = [], sessionId = [], hmacKey = [], lastUse = 0\<rparr>"

record PeerSessions =
  sessions :: "(string, PeerSession) omap"
  psNextCleanup :: timept

definition PeerSessions_new :: PeerSessions where
  "PeerSessions_new = \<lparr>sessions = om_empty, psNextCleanup = 0\<rparr>"

definition PeerSessions_cleanup :: "timept \<Rightarrow> PeerSessions \<Rightarrow> PeerSessions" where
  "PeerSessions_cleanup now x =
     (if now < psNextCleanup x then x
      else x\<lparr>sessions := filter (\<lambda>(i, s). \<not> lastUse s + chrono_seconds SESSION_TIMEOUT_SECONDS < now) (sessions x)\<rparr>)"

definition PeerSessions_addSession ::
  "u32 \<Rightarrow> string \<Rightarrow> string \<Rightarrow> bytes \<Rightarrow> timept \<Rightarrow> timept \<Rightarrow> PeerSessions \<Rightarrow> PeerSessions"
where
  "PeerSessions_addSession version peerAddress sid key now1 now2 x =
     (let x = PeerSessions_cleanup now1 x
      in x\<lparr>sessions := om_put sid \<lparr>protocolVersion = version, psAddress = peerAddress, sessionId = sid,
                                     hmacKey = key, lastUse = now2\<rparr> (sessions x)\<rparr>)"

definition PeerSessions_getSession :: "string \<Rightarrow> timept \<Rightarrow> PeerSessions \<Rightarrow> PeerSession \<times> PeerSessions" where
  "PeerSessions_getSession sid now x =
     (case om_find (sessions x) sid of
        Some session \<Rightarrow>
          let session = session\<lparr>lastUse := now\<rparr>
          in (session, x\<lparr>sessions := om_put sid session (sessions x)\<rparr>)
      | None \<Rightarrow> (PeerSession_new, x))"

subsection \<open>StakeKey\<close>

record 'k StakeKey =
  skAddress :: string
  skKey :: "'k option"
  skPub :: bytes
  skPriv :: BinData

definition StakeKey_new :: "'k StakeKey" where
  "StakeKey_new = \<lparr>skAddress = [], skKey = None, skPub = [], skPriv = SafeData_new\<rparr>"

definition StakeKey_setKey :: "'k openssl \<Rightarrow> string \<Rightarrow> 'k option \<Rightarrow> 'k StakeKey \<Rightarrow> 'k StakeKey" where
  "StakeKey_setKey os address keyPtr x =
     (case keyPtr of
        Some key \<Rightarrow> x\<lparr>skAddress := address, skKey := keyPtr, skPub := toPublic os key, skPriv := toPrivate os key\<rparr>
      | None \<Rightarrow> x\<lparr>skAddress := address, skKey := keyPtr, skPub := [], skPriv := fst (BinData_clear (skPriv x))\<rparr>)"

subsection \<open>ValidatorLookup\<close>

text \<open>What the handshake reads of the peer information; the operations of the class are still
  placeholders.\<close>

record ValidatorInfo =
  getPubKey :: bytes
  isActive :: bool

definition ValidatorInfo_new :: ValidatorInfo where
  "ValidatorInfo_new = \<lparr>getPubKey = [], isActive = False\<rparr>"

definition ValidatorLookup_getValidator :: "string \<Rightarrow> Details \<Rightarrow> ValidatorInfo \<times> Details" where
  "ValidatorLookup_getValidator address details =
     (ValidatorInfo_new, setError EcInternalError ''p2p_lookup'' ''Not implemented'' details)"

subsection \<open>PeerAuth\<close>

text \<open>The key agreement and key derivation calls of OpenSSL.  A call that writes a buffer gives its
  return value, the bytes and the length it reports.\<close>

record 'k agreement =
  EVP_PKEY_CTX_new :: "'k \<Rightarrow> bool"
  EVP_PKEY_derive_init :: "'k \<Rightarrow> int"
  EVP_PKEY_derive_set_peer :: "'k \<Rightarrow> 'k \<Rightarrow> int"
  EVP_PKEY_derive_length :: "'k \<Rightarrow> 'k \<Rightarrow> int \<times> nat"
  EVP_PKEY_derive :: "'k \<Rightarrow> 'k \<Rightarrow> int \<times> bytes \<times> nat"
  HKDF_derive :: "string \<Rightarrow> bytes \<Rightarrow> bytes \<Rightarrow> nat \<Rightarrow> int \<times> bytes \<times> nat"

definition AUTH_NONCE_LENGTH :: nat where
  "AUTH_NONCE_LENGTH = 8"

definition MESSAGE_AUTH_KDF_MGF :: string where
  "MESSAGE_AUTH_KDF_MGF = ''SHA256''"

definition MESSAGE_AUTH_KEY_LEN :: nat where
  "MESSAGE_AUTH_KEY_LEN = 32"

definition sharedSecret :: "'k agreement \<Rightarrow> 'k \<Rightarrow> 'k \<Rightarrow> bytes option" where
  "sharedSecret A priv peerKey =
     (if \<not> EVP_PKEY_CTX_new A priv then None
      else if EVP_PKEY_derive_init A priv \<noteq> 1 then None
      else if EVP_PKEY_derive_set_peer A priv peerKey \<noteq> 1 then None
      else
        case EVP_PKEY_derive_length A priv peerKey of (ret, secretLen) \<Rightarrow>
          if ret \<noteq> 1 \<or> secretLen = 0 then None
          else
            case EVP_PKEY_derive A priv peerKey of (ret, secret, n) \<Rightarrow>
              if ret \<noteq> 1 \<or> n \<noteq> secretLen then None else Some (take secretLen secret))"

definition createMessageAuthKey ::
  "'k openssl \<Rightarrow> 'k agreement \<Rightarrow> 'k \<Rightarrow> bytes \<Rightarrow> bytes \<Rightarrow> bytes \<Rightarrow> bytes"
where
  "createMessageAuthKey os A priv pub clientNonce serverNonce =
     (case fromPublic os pub of
        None \<Rightarrow> []
      | Some peerKey \<Rightarrow>
          (case sharedSecret A priv peerKey of
             None \<Rightarrow> []
           | Some secret \<Rightarrow>
               (let combinedNonce = serverNonce @ clientNonce in
                case HKDF_derive A MESSAGE_AUTH_KDF_MGF serverNonce secret MESSAGE_AUTH_KEY_LEN of
                  (ret, key, keyLen) \<Rightarrow>
                    if ret \<noteq> 1 \<or> keyLen \<noteq> MESSAGE_AUTH_KEY_LEN then [] else take MESSAGE_AUTH_KEY_LEN key)))"

definition createSessionId :: "'k openssl \<Rightarrow> bytes \<Rightarrow> bytes \<Rightarrow> string" where
  "createSessionId os clientNonce serverNonce =
     Base64_encode (take 8 (sha2_256 os (clientNonce @ serverNonce)))"

subsection \<open>Handshake\<close>

text \<open>The objects a handler reaches through the service scene, by their type; \<open>None\<close> is a type that
  was never registered, whose null pointer the scene dereferences.  The validator lookup has no state.  \<open>clk n\<close> is the reading number
  \<open>n\<close> of the clock during the call.\<close>

record 'k utils =
  uBruteForce :: "BruteForce option"
  uStakeKey :: "'k StakeKey option"
  uLookup :: "unit option"
  uSessions :: "PeerSessions option"

datatype 'a outcome = NullDeref | OutOfTape | Done 'a

definition PROTOCOL_VERSION :: u32 where
  "PROTOCOL_VERSION = 1"

record AuthenticateSession =
  auth_address :: string
  hsVersion :: int
  client_session_id :: bytes

record AuthenticateSessionResponse =
  rspVersion :: int
  server_session_id :: bytes

definition quote :: string where
  "quote = [CHR 0x27]"

text \<open>An offense that is recorded before an error return.\<close>

definition refuse ::
  "BruteForce \<Rightarrow> string \<Rightarrow> timept \<Rightarrow> ErrorCode \<Rightarrow> string \<Rightarrow> string \<Rightarrow> 'k utils \<Rightarrow> Details \<Rightarrow> tape \<Rightarrow>
    (AuthenticateSessionResponse option \<times> 'k utils \<times> Details \<times> tape) outcome"
where
  "refuse bforce address now code field msg u d t =
     Done (None, u\<lparr>uBruteForce := Some (BruteForce_addOffense address now bforce)\<rparr>, setError code field msg d, t)"

definition Handshake_process ::
  "'k openssl \<Rightarrow> 'k agreement \<Rightarrow> AuthenticateSession \<Rightarrow> (nat \<Rightarrow> timept) \<Rightarrow> 'k utils \<Rightarrow> Details \<Rightarrow> tape \<Rightarrow>
    (AuthenticateSessionResponse option \<times> 'k utils \<times> Details \<times> tape) outcome"
where
  "Handshake_process os A handshake clk u d t =
     (let clientAddress = auth_address handshake in
      case uBruteForce u of
        None \<Rightarrow> NullDeref
      | Some bf0 \<Rightarrow>
      case BruteForce_checkAddress clientAddress (clk 0) bf0 of (ok, bforce) \<Rightarrow>
      let u = u\<lparr>uBruteForce := Some bforce\<rparr> in
      if \<not> ok then
        Done (None, u, setError EcBlocked ''brute_force''
          (''Refusing address '' @ quote @ clientAddress @ quote @ '' due to brute force check.'') d, t)
      else
      let version = hsVersion handshake in
      if version \<le> 0 then
        refuse bforce clientAddress (clk 1) EcArgumentInvalid ''version''
          (''Invalid protocol version '' @ to_string_int version @ ''.'') u d t
      else
      let clientNonce = client_session_id handshake in
      if length clientNonce \<noteq> AUTH_NONCE_LENGTH then
        refuse bforce clientAddress (clk 1) EcArgumentInvalid ''client_session_id''
          ''Invalid client session ID length.'' u d t
      else
      case uLookup u of
        None \<Rightarrow> NullDeref
      | Some _ \<Rightarrow>
      case ValidatorLookup_getValidator clientAddress d of (info, d) \<Rightarrow>
      if \<not> isOk d then Done (None, u, d, t)
      else if \<not> isActive info then
        refuse bforce clientAddress (clk 1) EcNotAuthorized ''auth_address''
          (''Validator '' @ quote @ clientAddress @ quote @ '' is not currently active.'') u d t
      else
      case Prng_rand AUTH_NONCE_LENGTH t of
        None \<Rightarrow> OutOfTape
      | Some (serverNonce, t) \<Rightarrow>
      case uStakeKey u of
        None \<Rightarrow> NullDeref
      | Some stake \<Rightarrow>
      case skKey stake of
        None \<Rightarrow> NullDeref
      | Some key \<Rightarrow>
      let hmac = createMessageAuthKey os A key (getPubKey info) clientNonce serverNonce in
      if hmac = [] then
        Done (None, u, setError EcInternalError ''derive'' ''Failed to derive message authentication key.'' d, t)
      else
      let sid = createSessionId os clientNonce serverNonce in
      case uSessions u of
        None \<Rightarrow> NullDeref
      | Some ps \<Rightarrow>
        Done (Some \<lparr>rspVersion = uint PROTOCOL_VERSION, server_session_id = serverNonce\<rparr>,
          u\<lparr>uSessions := Some (PeerSessions_addSession (word_of_int version) clientAddress sid hmac (clk 1) (clk 2) ps)\<rparr>,
          d, t))"

subsection \<open>P2pServiceParams\<close>

record 'k P2pServiceParams =
  ppStakeKey :: "'k StakeKey"
  ppBruteForce :: BruteForce
  ppWalletFile :: string
  ppWalletPassword :: bytes
  ppStakeAddress :: string

definition P2pServiceParams_new :: "'k P2pServiceParams" where
  "P2pServiceParams_new = \<lparr>ppStakeKey = StakeKey_new, ppBruteForce = BruteForce_new,
     ppWalletFile = ''~/.fluffycoin/wallet.json'', ppWalletPassword = [], ppStakeAddress = []\<rparr>"

definition P2p_getLogFile :: string where
  "P2p_getLogFile = ''/var/log/fluffycoin/p2p.log''"

definition P2p_setupScene :: "'k P2pServiceParams \<Rightarrow> 'k utils" where
  "P2p_setupScene x =
     \<lparr>uBruteForce = Some (ppBruteForce x), uStakeKey = Some (ppStakeKey x), uLookup = None, uSessions = None\<rparr>"

definition P2p_initCmdLineParams :: "ArgParser \<Rightarrow> ArgParser" where
  "P2p_initCmdLineParams x =
     (let x = ArgParser_addParam CHR ''w'' ''wallet'' ''Wallet containing stake key'' x;
          x = ArgParser_addParam CHR ''p'' ''wallet-password''
                (''Wallet password'' @ [CHR 0x0A] @ ''Default: Use FLUFFYCOIN_WALLET_PASSWORD env var'') x
      in ArgParser_addParam CHR ''a'' ''stake-address''
           (''Address from wallet matching stake key'' @ [CHR 0x0A] @ ''Default: Newest key in wallet'') x)"

text \<open>\<open>env\<close> is the value of the environment variable with the password.  The result has the new
  command line and environment; \<open>None\<close> is the write to a string literal.\<close>

definition P2p_setCmdLineArgs ::
  "Args \<Rightarrow> string list \<Rightarrow> string option \<Rightarrow> 'k P2pServiceParams \<Rightarrow>
    ('k P2pServiceParams \<times> string list \<times> string option) option"
where
  "P2p_setCmdLineArgs a argv env x =
     (let x = (if Args_hasArg ''wallet'' a then x\<lparr>ppWalletFile := Args_getArg ''wallet'' a\<rparr> else x);
          x = (if Args_hasArg ''stake-address'' a then x\<lparr>ppStakeAddress := Args_getArg ''stake-address'' a\<rparr> else x)
      in if Args_hasArg ''wallet-password'' a then
           map_option (\<lambda>argv'. (x\<lparr>ppWalletPassword := string_bytes (Args_getArg ''wallet-password'' a)\<rparr>, argv', env))
             (Args_maskArg ''wallet-address'' a argv)
         else
           case env of
             Some pw \<Rightarrow> Some (x\<lparr>ppWalletPassword := string_bytes pw\<rparr>, argv, Some [])
           | None \<Rightarrow> Some (x, argv, env))"

definition P2p_getServerKey :: "'k P2pServiceParams \<Rightarrow> BinData" where
  "P2p_getServerKey x = skPriv (ppStakeKey x)"

definition P2p_preInit ::
  "(string \<Rightarrow> json option) \<Rightarrow> 'k keylib \<Rightarrow> disk \<Rightarrow> bool \<Rightarrow> 'k P2pServiceParams \<Rightarrow> (bool \<times> 'k P2pServiceParams) option"
where
  "P2p_preInit json_parse K k paused x =
     (if paused then Some (True, x)
      else
        case FileTools_read k (ppWalletFile x) of
          None \<Rightarrow> Some (False, x)
        | Some walletContents \<Rightarrow>
            do { (opened, stakeWallet) \<leftarrow>
                   Wallet_setString json_parse K (bytes_string walletContents) (ppWalletPassword x) Wallet_new;
                 if \<not> opened then Some (False, x)
                 else
                   let (key, x) =
                     (if ppStakeAddress x \<noteq> [] then (Wallet_getKey K (ppStakeAddress x) stakeWallet, x)
                      else (Wallet_getLatestKey K KuValidator stakeWallet,
                            x\<lparr>ppStakeAddress := Wallet_getLatestAddress KuValidator stakeWallet\<rparr>))
                   in if ppStakeAddress x = [] \<or> key = None then Some (False, x)
                      else Some (True, x\<lparr>ppStakeKey := StakeKey_setKey (kl_os K) (ppStakeAddress x) key (ppStakeKey x),
                                         ppStakeAddress := []\<rparr>) })"

section \<open>Brute force table\<close>

text \<open>The calls on the table, with the clock reading of each.\<close>

datatype bf_event = BfCheck string timept | BfOffend string timept

fun bf_time :: "bf_event \<Rightarrow> timept" where
  "bf_time (BfCheck a t) = t"
| "bf_time (BfOffend a t) = t"

fun bf_step :: "bf_event \<Rightarrow> BruteForce \<Rightarrow> BruteForce" where
  "bf_step (BfCheck a t) x = snd (BruteForce_checkAddress a t x)"
| "bf_step (BfOffend a t) x = BruteForce_addOffense a t x"

text \<open>The reference: offenses are only counted.\<close>

fun bf_count :: "string \<Rightarrow> bf_event list \<Rightarrow> nat" where
  "bf_count a [] = 0"
| "bf_count a (BfOffend b t # es) = (if a = b then 1 else 0) + bf_count a es"
| "bf_count a (BfCheck b t # es) = bf_count a es"

definition bf_level :: "(string, BruteForceOffender) omap \<Rightarrow> string \<Rightarrow> u32 option" where
  "bf_level m a = map_option offenses (om_find m a)"

lemma bf_level_simps [simp]:
  "bf_level om_empty a = None"
  "bf_level (om_put b v m) a = (if a = b then Some (offenses v) else bf_level m a)"
  "bf_level (om_erase b m) a = (if a = b then None else bf_level m a)"
  by (simp_all add: bf_level_def om_map_simps)

definition bf_counts :: "(string \<Rightarrow> nat) \<Rightarrow> BruteForce \<Rightarrow> bool" where
  "bf_counts n x \<longleftrightarrow> bfNextCleanup x = 0 \<and>
     (\<forall>a. (om_find (mapAddressToForgiveness x) a \<noteq> None \<longleftrightarrow> 3 \<le> n a) \<and>
          bf_level (offenders x) a =
            (if n a = 0 \<or> 3 \<le> n a then None else Some (of_nat (n a))))"

lemma bf_counts_new: "bf_counts (\<lambda>_. 0) BruteForce_new"
  by (simp add: bf_counts_def BruteForce_new_def om.find_empty)

lemma bf_countsD:
  assumes "bf_counts n x"
  shows "bfNextCleanup x = 0"
    and "om_find (mapAddressToForgiveness x) a = None \<longleftrightarrow> n a < 3"
    and "bf_level (offenders x) a =
      (if n a = 0 \<or> 3 \<le> n a then None else Some (of_nat (n a)))"
  using assms unfolding bf_counts_def by (metis, metis not_less, metis)

lemma bf_countsI:
  assumes "bfNextCleanup x = 0"
    and "\<And>a. om_find (mapAddressToForgiveness x) a = None \<longleftrightarrow> n a < 3"
    and "\<And>a. bf_level (offenders x) a =
      (if n a = 0 \<or> 3 \<le> n a then None else Some (of_nat (n a)))"
  shows "bf_counts n x"
  using assms by (simp add: bf_counts_def not_less [symmetric])

lemma bf_counts_check:
  assumes "bf_counts n x" and "0 < t"
  shows "BruteForce_checkAddress a t x = (n a < 3, x)"
  using assms(2) bf_countsD [OF assms(1)]
  by (simp add: BruteForce_checkAddress_def BruteForce_cleanup_def)

lemma bf_counts_offend:
  assumes "bf_counts n x"
  shows "bf_counts (n(a := n a + 1)) (BruteForce_addOffense a t x)"
proof -
  note c = bf_countsD [OF assms]
  consider "3 \<le> n a" | "n a = 0" | "n a = 1" | "n a = 2" by linarith
  then show ?thesis
  proof cases
    case 1
    then have "om_find (mapAddressToForgiveness x) a \<noteq> None"
      using c(2) [of a] by simp
    then have "BruteForce_addOffense a t x = x"
      by (simp add: BruteForce_addOffense_def)
    with 1 c show ?thesis by (intro bf_countsI) auto
  next
    case 2
    then have "om_find (mapAddressToForgiveness x) a = None" "om_find (offenders x) a = None"
      using c(2,3) [of a] by (simp_all add: bf_level_def)
    with 2 c show ?thesis
      by (intro bf_countsI) (auto simp: BruteForce_addOffense_def om.find_put)
  next
    case 3
    then obtain off where "om_find (mapAddressToForgiveness x) a = None" "om_find (offenders x) a = Some off"
      "offenses off = 1"
      using c(2,3) [of a] by (auto simp: bf_level_def)
    with 3 c show ?thesis
      by (intro bf_countsI) (auto simp: BruteForce_addOffense_def om.find_put MAX_OFFENSES_def)
  next
    case 4
    then obtain off where "om_find (mapAddressToForgiveness x) a = None" "om_find (offenders x) a = Some off"
      "offenses off = 2"
      using c(2,3) [of a] by (auto simp: bf_level_def)
    with 4 c show ?thesis
      by (intro bf_countsI)
        (auto simp: BruteForce_addOffense_def om.find_put om.find_erase MAX_OFFENSES_def)
  qed
qed

lemma bf_counts_run:
  assumes "bf_counts n x" and "\<forall>e \<in> set es. 0 < bf_time e"
  shows "bf_counts (\<lambda>a. n a + bf_count a es) (fold bf_step es x)"
  using assms
proof (induction es arbitrary: n x)
  case (Cons e es)
  show ?case
  proof (cases e)
    case (BfCheck b t)
    then show ?thesis
      using Cons.IH [OF Cons.prems(1)] Cons.prems bf_counts_check [OF Cons.prems(1), of t b] by simp
  next
    case (BfOffend b t)
    have "(\<lambda>a. (n(b := n b + 1)) a + bf_count a es) = (\<lambda>a. n a + bf_count a (e # es))"
      by (auto simp: BfOffend)
    with Cons.IH [OF bf_counts_offend [OF Cons.prems(1), of b t]] Cons.prems(2) BfOffend show ?thesis
      by simp
  qed
qed simp

section \<open>Sessions\<close>

datatype ps_event = PsAdd u32 string string bytes timept timept | PsGet string timept

fun ps_step :: "ps_event \<Rightarrow> PeerSessions \<Rightarrow> PeerSessions" where
  "ps_step (PsAdd v a i key t1 t2) x = PeerSessions_addSession v a i key t1 t2 x"
| "ps_step (PsGet i t) x = snd (PeerSessions_getSession i t x)"

fun ps_adds :: "string \<Rightarrow> ps_event \<Rightarrow> bool" where
  "ps_adds i (PsAdd v a j key t1 t2) = (j = i)"
| "ps_adds i (PsGet j t) = False"

text \<open>The reference for one session: no other session is added more than 300 seconds after its
  last use.\<close>

fun ps_alive :: "string \<Rightarrow> timept \<Rightarrow> ps_event list \<Rightarrow> bool" where
  "ps_alive i used [] = True"
| "ps_alive i used (PsAdd v a j key t1 t2 # es) = (t1 \<le> used + chrono_seconds 300 \<and> ps_alive i used es)"
| "ps_alive i used (PsGet j t # es) = ps_alive i (if j = i then t else used) es"

lemma om_find_filter:
  assumes "om_ok m"
  shows "om_find (filter (\<lambda>(i, s). P s) m) i = (case om_find m i of Some s \<Rightarrow> if P s then Some s else None | None \<Rightarrow> None)"
  using assms
proof (induction m)
  case (Cons p m)
  obtain k v where p: "p = (k, v)" by (cases p)
  have "om_find m k = None"
    using Cons.prems p om_ok_distinct [OF Cons.prems] by (auto simp: om_find_None_iff om_keys_def)
  moreover have "om_ok m"
    using Cons.prems by (simp add: om_ok_Cons)
  ultimately show ?case
    using Cons.IH p by (auto simp: om_find_Cons split: option.splits)
qed simp

lemma om_ok_filter: "om_ok m \<Longrightarrow> om_ok (filter P m)"
  by (induction m) (auto simp: om_ok_Cons om_keys_def om_ok_Nil)

definition ps_ok :: "PeerSessions \<Rightarrow> bool" where
  "ps_ok x \<longleftrightarrow> psNextCleanup x = 0 \<and> om_ok (sessions x)"

lemma ps_ok_step [keeps]: "ps_ok x \<Longrightarrow> ps_ok (ps_step e x)"
  by (cases e)
    (auto simp: ps_ok_def PeerSessions_addSession_def PeerSessions_getSession_def PeerSessions_cleanup_def
      Let_def om_ok_filter om.ok_put split: option.splits)

lemma ps_find_step:
  assumes "ps_ok x" and "\<not> ps_adds i e"
  shows "om_find (sessions (ps_step e x)) i =
    (case om_find (sessions x) i of None \<Rightarrow> None
     | Some s \<Rightarrow> (case e of PsAdd v a j key t1 t2 \<Rightarrow> if t1 \<le> lastUse s + chrono_seconds 300 then Some s else None
                | PsGet j t \<Rightarrow> Some (if j = i then s\<lparr>lastUse := t\<rparr> else s)))"
  using assms
  by (cases e)
    (auto simp: ps_ok_def PeerSessions_addSession_def PeerSessions_getSession_def PeerSessions_cleanup_def
      SESSION_TIMEOUT_SECONDS_def om_find_filter om.find_put Let_def not_less split: option.splits)

lemma ps_find_run:
  assumes "ps_ok x" and "\<forall>e \<in> set es. \<not> ps_adds i e" and "om_find (sessions x) i = Some s"
  shows "\<exists>t. om_find (sessions (fold ps_step es x)) i =
    (if ps_alive i (lastUse s) es then Some (s\<lparr>lastUse := t\<rparr>) else None)"
  using assms
proof (induction es arbitrary: x s)
  case Nil
  then show ?case by (intro exI [of _ "lastUse s"]) simp
next
  case (Cons e es)
  have gone: "om_find (sessions (fold ps_step es y)) i = None"
    if "ps_ok y" "om_find (sessions y) i = None" for y
    using that Cons.prems(2)
    by (induction es arbitrary: y) (simp_all add: ps_find_step ps_ok_step)
  note ok = ps_ok_step [OF Cons.prems(1), of e]
  note step = ps_find_step [OF Cons.prems(1), of i e]
  have na: "\<not> ps_adds i e" and rest: "\<forall>e \<in> set es. \<not> ps_adds i e"
    using Cons.prems(2) by simp_all
  show ?case
  proof (cases e)
    case (PsAdd v a j key t1 t2)
    show ?thesis
    proof (cases "t1 \<le> lastUse s + chrono_seconds 300")
      case True
      then have "om_find (sessions (ps_step e x)) i = Some s"
        using step [OF na] PsAdd Cons.prems(3) by simp
      from Cons.IH [OF ok rest this] True PsAdd show ?thesis by simp
    next
      case False
      then have "om_find (sessions (ps_step e x)) i = None"
        using step [OF na] PsAdd Cons.prems(3) by simp
      from gone [OF ok this] False PsAdd show ?thesis by simp
    qed
  next
    case (PsGet j t)
    then have "om_find (sessions (ps_step e x)) i = Some (if j = i then s\<lparr>lastUse := t\<rparr> else s)"
      using step [OF na] Cons.prems(3) by simp
    from Cons.IH [OF ok rest this] PsGet show ?thesis by (auto split: if_splits)
  qed
qed

section \<open>Handshake\<close>

text \<open>The message key: the nonce of the client has no part in it, and there is no key for a private key that cannot
  be used for key agreement, as is the case for the Ed25519 keys of the wallet.\<close>

lemma authKey_ignores_client_nonce: "createMessageAuthKey os A k p c s = createMessageAuthKey os A k p c' s"
  by (simp add: createMessageAuthKey_def Let_def split: option.split)

lemma authKey_needs_derive: "EVP_PKEY_derive_init A k \<noteq> 1 \<Longrightarrow> createMessageAuthKey os A k p c s = []"
  by (simp add: createMessageAuthKey_def sharedSecret_def split: option.split)

lemma setError_not_ok: "msg \<noteq> [] \<Longrightarrow> \<not> isOk (setError code field msg d)"
  by (simp add: isOk_def setError_def ErrorStatus_set_def)

section \<open>Command line\<close>

lemma addArg_originals:
  "om_find (originals (Args_addArg b v q a)) k = None \<longleftrightarrow> k \<noteq> b \<and> om_find (originals a) k = None"
  by (simp add: Args_addArg_def om.find_put)

lemma ArgParser_loop_originals:
  assumes "om_find (descriptions x) k = None" and "om_find (originals a) k = None"
  shows "om_find (originals (ArgParser_loop x pos ts a)) k = None"
  using assms(2)
proof (induction "length ts" arbitrary: ts pos a rule: less_induct)
  case less
  show ?case
  proof (cases ts)
    case (Cons t rest)
    show ?thesis
    proof (cases "ArgParser_flag x t")
      case None
      with less Cons show ?thesis by simp
    next
      case (Some tk)
      have "om_find (descriptions x) tk \<noteq> None \<Longrightarrow> k \<noteq> tk"
        using assms(1) by auto
      with less Cons Some show ?thesis
        by (auto simp: Args_setError_def addArg_originals split: list.splits)
    qed
  qed (use less.prems in simp)
qed

lemma ArgParser_parse_originals:
  assumes "ArgParser_parse x (Some argv) = Some a" and "om_find (descriptions x) k = None"
  shows "om_find (originals a) k = None"
proof -
  have "a = ArgParser_loop x 1 (tl argv) Args_new"
    using assms(1) by (auto simp: ArgParser_parse_def Let_def split: if_splits)
  with ArgParser_loop_originals [OF assms(2), of Args_new 1 "tl argv"] show ?thesis
    by (simp add: Args_new_def om.find_empty)
qed

lemma P2p_descriptions:
  assumes "om_find (descriptions q) ''wallet-address'' = None"
  shows "om_find (descriptions (P2p_initCmdLineParams q)) ''wallet-address'' = None"
  using assms by (simp add: P2p_initCmdLineParams_def ArgParser_addParam_def om.find_put Let_def)

section \<open>Properties\<close>

text \<open>Claim C19.  The lockout is permanent: after any sequence of checks and offenses, at any later
  time, an address is let through exactly if fewer than three offenses were ever recorded for
  it.  The table is never cleaned, since the time of the next cleanup stays at the epoch.\<close>

theorem BruteForce_refuses_iff:
  assumes "\<forall>e \<in> set es. 0 < bf_time e" and "0 < now"
  shows "fst (BruteForce_checkAddress a now (fold bf_step es BruteForce_new)) \<longleftrightarrow> bf_count a es < 3"
  using bf_counts_check [OF bf_counts_run [OF bf_counts_new assms(1)] assms(2), of a] by simp

theorem BruteForce_refuses_iff_witness:
  "\<not> fst (BruteForce_checkAddress ''p'' (chrono_seconds 1000000)
       (fold bf_step [BfOffend ''p'' 5, BfOffend ''p'' 6, BfOffend ''p'' 7] BruteForce_new))"
  using BruteForce_refuses_iff
    [of "[BfOffend ''p'' 5, BfOffend ''p'' 6, BfOffend ''p'' 7]" "chrono_seconds 1000000" "''p''"]
  by (simp add: chrono_seconds_def)

text \<open>Claim C20.  How long a session lives: after it was added, and whatever is done with other
  sessions, it is returned with its key exactly if no other session was added more than 300
  seconds after its last use.  In particular an idle session stays valid for as long as no
  other session is added.\<close>

theorem PeerSessions_returned_iff:
  assumes "ps_ok x" and "\<forall>e \<in> set es. \<not> ps_adds i e"
  shows "fst (PeerSessions_getSession i now (fold ps_step es (PeerSessions_addSession v a i key t1 t2 x))) =
    (if ps_alive i t2 es
     then \<lparr>protocolVersion = v, psAddress = a, sessionId = i, hmacKey = key, lastUse = now\<rparr>
     else PeerSession_new)"
proof -
  let ?s = "\<lparr>protocolVersion = v, psAddress = a, sessionId = i, hmacKey = key, lastUse = t2\<rparr>"
  let ?x = "PeerSessions_addSession v a i key t1 t2 x"
  have "ps_ok ?x"
    using ps_ok_step [OF assms(1), of "PsAdd v a i key t1 t2"] by simp
  moreover have "om_find (sessions ?x) i = Some ?s"
    by (simp add: PeerSessions_addSession_def om.find_put Let_def)
  ultimately obtain t where "om_find (sessions (fold ps_step es ?x)) i =
      (if ps_alive i t2 es then Some (?s\<lparr>lastUse := t\<rparr>) else None)"
    using ps_find_run [OF _ assms(2)] by fastforce
  then show ?thesis
    by (simp add: PeerSessions_getSession_def Let_def split: if_splits)
qed

theorem PeerSessions_returned_iff_witness:
  "fst (PeerSessions_getSession ''s'' (chrono_seconds 9999) (fold ps_step [PsGet ''s'' (chrono_seconds 5000)]
     (PeerSessions_addSession 1 ''p'' ''s'' [7] 1 2 PeerSessions_new))) =
   \<lparr>protocolVersion = 1, psAddress = ''p'', sessionId = ''s'', hmacKey = [7], lastUse = chrono_seconds 9999\<rparr>"
proof -
  have "ps_ok PeerSessions_new"
    by (simp add: ps_ok_def PeerSessions_new_def om.ok_empty)
  from PeerSessions_returned_iff [OF this, of "[PsGet ''s'' (chrono_seconds 5000)]" "''s''"]
  show ?thesis by simp
qed

text \<open>No handshake ever succeeds, in whatever scene the handler runs: the validator lookup is not implemented, so
  that a call that comes to an end gives no response, sets an error, draws no random bytes and leaves the table of
  sessions as it was; it does not come to an end only if the brute force table or the validator lookup was never
  registered.\<close>

lemma Handshake_never_answers:
  "case Handshake_process os A hs clk u d t of
     NullDeref \<Rightarrow> uBruteForce u = None \<or> uLookup u = None
   | OutOfTape \<Rightarrow> False
   | Done (rsp, u', d', t') \<Rightarrow> rsp = None \<and> \<not> isOk d' \<and> uSessions u' = uSessions u \<and> uStakeKey u' = uStakeKey u \<and> t' = t"
  by (auto simp: Handshake_process_def refuse_def ValidatorLookup_getValidator_def Let_def setError_not_ok
      split: option.splits prod.splits)

text \<open>Claim C38.  In the scene that the service sets up no handshake is answered: a client that is
  not locked out and sends a valid version and nonce makes the handler dereference the null
  pointer of the validator lookup, which was never registered; every other request ends in an
  error.\<close>

theorem Handshake_in_service:
  "if fst (BruteForce_checkAddress (auth_address hs) (clk 0) (ppBruteForce x)) \<and>
      0 < hsVersion hs \<and> length (client_session_id hs) = 8
   then Handshake_process os A hs clk (P2p_setupScene x) d t = NullDeref
   else (\<exists>u d'. Handshake_process os A hs clk (P2p_setupScene x) d t = Done (None, u, d', t) \<and> \<not> isOk d')"
  by (auto simp: Handshake_process_def P2p_setupScene_def refuse_def Let_def AUTH_NONCE_LENGTH_def
      setError_not_ok split: prod.splits)

text \<open>A wallet password given on the command line stays readable there: the handler masks
  a parameter that does not exist, so that the argument vector is left as it was.\<close>

theorem P2p_password_not_masked:
  assumes "om_find (descriptions q) ''wallet-address'' = None"
    and "ArgParser_parse (P2p_initCmdLineParams q) (Some argv) = Some a"
    and "Args_hasArg ''wallet-password'' a"
  shows "\<exists>x'. P2p_setCmdLineArgs a argv env x = Some (x', argv, env) \<and>
              ppWalletPassword x' = string_bytes (Args_getArg ''wallet-password'' a)"
  using assms(3) ArgParser_parse_originals [OF assms(2) P2p_descriptions [OF assms(1)]]
  by (simp add: P2p_setCmdLineArgs_def Args_maskArg_def Let_def)

theorem P2p_password_not_masked_witness:
  "\<exists>a x'. ArgParser_parse (P2p_initCmdLineParams ArgParser_new)
        (Some [''p2p'', ''--wallet-password'', ''secret'']) = Some a \<and>
     P2p_setCmdLineArgs a [''p2p'', ''--wallet-password'', ''secret''] None P2pServiceParams_new =
       Some (x', [''p2p'', ''--wallet-password'', ''secret''], None) \<and>
     ppWalletPassword x' = string_bytes ''secret''"
proof -
  let ?argv = "[''p2p'', ''--wallet-password'', ''secret'']"
  have none: "om_find (descriptions ArgParser_new) ''wallet-address'' = None"
    by (simp add: ArgParser_new_def om.find_empty)
  have parse: "ArgParser_parse (P2p_initCmdLineParams ArgParser_new) (Some ?argv)
      = Some (Args_addArg ''wallet-password'' ''secret'' (ArgvAt 2) Args_new)"
    by (simp add: ArgParser_parse_def P2p_initCmdLineParams_def ArgParser_addParam_def ArgParser_new_def
        ArgParser_flag_def om.find_put Let_def Args_hasError_def Args_addArg_def Args_new_def numeral_2_eq_2)
  have arg: "Args_hasArg ''wallet-password'' (Args_addArg ''wallet-password'' ''secret'' (ArgvAt 2) Args_new)"
    "Args_getArg ''wallet-password'' (Args_addArg ''wallet-password'' ''secret'' (ArgvAt 2) Args_new) = ''secret''"
    by (simp_all add: Args_hasArg_def Args_getArg_def Args_addArg_def Args_getArgs_def om.find_put Args_new_def om.find_empty)
  from P2p_password_not_masked [OF none parse arg(1), of None P2pServiceParams_new] arg(2) parse
  show ?thesis by auto
qed

text \<open>Claim C21.  A node loads the stake key it was given: with the exported wallet in the wallet file
  and the password it was exported under, initialization succeeds and installs the newest
  validator key with its address, its public point and its private point.\<close>

theorem P2p_preInit_loads_stake:
  assumes parse: "\<And>j s. json_dump j = Some s \<Longrightarrow> json_parse s = Some j"
    and out: "Wallet_getString json_dump K pw w t = Some (s, t')" "s \<noteq> []"
    and keys: "\<forall>e \<in> set (wKeys w). \<exists>key. wallet_decrypt K (eFormat e) (ePrivKey e) (wPassword w) = Some key
           \<and> format_ok K (wDefaultFormat w) key"
    and onDisk: "FileTools_read k (ppWalletFile x) = Some (string_bytes s)"
    and conf: "ppWalletPassword x = (if pw = [] then wPassword w else pw)" "ppStakeAddress x = []"
    and stake: "Wallet_getLatestKey K KuValidator w = Some key" "Wallet_getLatestAddress KuValidator w \<noteq> []"
  shows "\<exists>x'. P2p_preInit json_parse K k False x = Some (True, x') \<and>
              ppStakeKey x' = \<lparr>skAddress = Wallet_getLatestAddress KuValidator w, skKey = Some key,
                skPub = toPublic (kl_os K) key, skPriv = toPrivate (kl_os K) key\<rparr> \<and>
              P2p_getServerKey x' = toPrivate (kl_os K) key"
proof -
  obtain w' where
    "Wallet_setString json_parse K s (if pw = [] then wPassword w else pw) Wallet_new = Some (True, w')"
    "Wallet_getLatestKey K KuValidator w' = Wallet_getLatestKey K KuValidator w"
    "Wallet_getLatestAddress KuValidator w' = Wallet_getLatestAddress KuValidator w"
    using Wallet_read_back [where json_parse = json_parse, OF parse out keys, where ?w0.0 = Wallet_new] by blast
  with onDisk conf stake show ?thesis
    by (cases "ppStakeKey x") (simp add: P2p_preInit_def StakeKey_setKey_def P2p_getServerKey_def Let_def)
qed

theorem P2p_preInit_loads_stake_witness:
  "\<exists>dump parse s t' k x'. Wallet_getString dump plain_keylib [112] demo_wallet (replicate 24 5) = Some (s, t') \<and>
     FileTools_read k ''w'' = Some (string_bytes s) \<and>
     P2p_preInit parse plain_keylib k False
       (P2pServiceParams_new\<lparr>ppWalletFile := ''w'', ppWalletPassword := [112]\<rparr>) = Some (True, x') \<and>
     skKey (ppStakeKey x') = Some (take 12 pubinfo @ replicate 32 7)"
proof -
  obtain js t' where js:
    "getString_entries plain_keylib [112] demo_wallet (wKeys demo_wallet) (replicate 24 5) = Some (Some js, t')"
    using demo_export by blast
  let ?J = "wallet_json demo_wallet js"
  let ?dump = "\<lambda>j. if j = ?J then Some ''{}'' else None" and ?parse = "\<lambda>s. if s = ''{}'' then Some ?J else None"
  let ?k = "\<lparr>dirs = [], files = [(''w'', string_bytes ''{}'')], home = None, quota = (\<lambda>_. None), io = plain_io\<rparr>"
  let ?x = "P2pServiceParams_new\<lparr>ppWalletFile := ''w'', ppWalletPassword := [112]\<rparr> :: bytes P2pServiceParams"
  have parse: "\<And>j s. ?dump j = Some s \<Longrightarrow> ?parse s = Some j"
    by (auto split: if_splits)
  have out: "Wallet_getString ?dump plain_keylib [112] demo_wallet (replicate 24 5) = Some (''{}'', t')"
    using js by (simp add: Wallet_getString_def)
  have onDisk: "FileTools_read ?k (ppWalletFile ?x) = Some (string_bytes ''{}'')"
    by (simp add: FileTools_read_def expandTilde_def om_find_def)
  have stake: "Wallet_getLatestKey plain_keylib KuValidator demo_wallet = Some (take 12 pubinfo @ replicate 32 7)"
    "Wallet_getLatestAddress KuValidator demo_wallet \<noteq> []"
    by (simp_all add: Wallet_getLatestKey_def Wallet_getLatestAddress_def getTopKey_def demo_wallet_def
        demo_entry_def demo_decrypt)
  have "\<exists>x'. P2p_preInit ?parse plain_keylib ?k False ?x = Some (True, x') \<and>
      skKey (ppStakeKey x') = Some (take 12 pubinfo @ replicate 32 7)"
    using P2p_preInit_loads_stake [where json_parse = ?parse, OF parse out _ demo_keys onDisk _ _ stake]
    by (auto simp: P2pServiceParams_new_def)
  with out onDisk show ?thesis
    by (intro exI [of _ ?dump] exI [of _ ?parse] exI [of _ "''{}''"] exI [of _ t'] exI [of _ ?k]) auto
qed

text \<open>A disk and a password with which the initialization succeeds.\<close>

lemma demo_stake_loads:
  "\<exists>parse k x'. P2p_preInit parse plain_keylib k False
     (P2pServiceParams_new\<lparr>ppWalletFile := ''w'', ppWalletPassword := [112]\<rparr>) = Some (True, x')"
proof -
  obtain js t' where js:
    "getString_entries plain_keylib [112] demo_wallet (wKeys demo_wallet) (replicate 24 5) = Some (Some js, t')"
    using demo_export by blast
  let ?J = "wallet_json demo_wallet js"
  let ?dump = "\<lambda>j. if j = ?J then Some ''{}'' else None" and ?parse = "\<lambda>s. if s = ''{}'' then Some ?J else None"
  let ?k = "\<lparr>dirs = [], files = [(''w'', string_bytes ''{}'')], home = None, quota = (\<lambda>_. None), io = plain_io\<rparr>"
  have parse: "\<And>j s. ?dump j = Some s \<Longrightarrow> ?parse s = Some j" by (auto split: if_splits)
  have out: "Wallet_getString ?dump plain_keylib [112] demo_wallet (replicate 24 5) = Some (''{}'', t')"
    using js by (simp add: Wallet_getString_def)
  obtain w' where w': "Wallet_setString ?parse plain_keylib ''{}'' [112] Wallet_new = Some (True, w')"
    "Wallet_getLatestKey plain_keylib KuValidator w' = Wallet_getLatestKey plain_keylib KuValidator demo_wallet"
    "Wallet_getLatestAddress KuValidator w' = Wallet_getLatestAddress KuValidator demo_wallet"
    using Wallet_read_back [where json_parse = ?parse, OF parse out _ demo_keys, where ?w0.0 = Wallet_new] by auto
  have "Wallet_getLatestKey plain_keylib KuValidator demo_wallet \<noteq> None" "Wallet_getLatestAddress KuValidator demo_wallet \<noteq> []"
    by (simp_all add: Wallet_getLatestKey_def Wallet_getLatestAddress_def getTopKey_def demo_wallet_def
        demo_entry_def demo_decrypt)
  with w' show ?thesis
    by (intro exI [of _ ?parse] exI [of _ ?k])
      (simp add: P2p_preInit_def P2pServiceParams_new_def FileTools_read_def expandTilde_def om_find_def Let_def)
qed

end
