(* ===== verification/FC_Log.thy ===== *)
theory FC_Log
  imports FC_Utils FC_Files FC_Json "HOL-Library.Sublist"
begin

text \<open>
  The log: \<^verbatim>\<open>log/Log\<close> (settings, the console and the log file with its rotation), \<^verbatim>\<open>log/Logger\<close>
  (messages with context), \<^verbatim>\<open>log/Category\<close>, \<^verbatim>\<open>log/LogTime\<close> and \<^verbatim>\<open>svc/service/LogArgs\<close>.

  The file-scope variables of these files are one record, with the console output and the disk
  they write to.  The JSON printer is the parameter \<open>dump\<close>, where \<open>None\<close> is an exception; the broken-down
  time of the C library, in universal and in local time, is the parameter \<open>tm\<close>.  A category is a
  number, the hash of its type plus its value.
\<close>

section \<open>Model\<close>

subsection \<open>Categories and time\<close>

type_synonym type_hash = "string \<Rightarrow> u64"

definition catToInt :: "type_hash \<Rightarrow> string \<Rightarrow> nat \<Rightarrow> u64" where
  "catToInt hash ty v = hash ty + of_nat v"

definition Category_addInternal :: "u64 \<Rightarrow> string \<Rightarrow> (u64, string) omap \<Rightarrow> (u64, string) omap" where
  "Category_addInternal cat name cats = om_put cat name cats"

definition Category_init :: "type_hash \<Rightarrow> (u64, string) omap \<Rightarrow> (u64, string) omap" where
  "Category_init hash cats =
     (let add = (\<lambda>v. Category_addInternal (catToInt hash ''BasicCategory'' v))
      in add 4 ''INIT'' (add 3 ''AUTH'' (add 2 ''DATABASE'' (add 1 ''COMM'' (add 0 ''GENERAL'' cats)))))"

definition Category_get :: "type_hash \<Rightarrow> (u64, string) omap \<Rightarrow> u64 \<Rightarrow> string" where
  "Category_get hash cats cat =
     (let cat = (if cat = 0 then catToInt hash ''BasicCategory'' 0 else cat)
      in case om_find cats cat of None \<Rightarrow> ''UNKNOWN'' | Some name \<Rightarrow> name)"

text \<open>Year, month, day, hour, minute and second.\<close>

type_synonym tm = "nat \<times> nat \<times> nat \<times> nat \<times> nat \<times> nat"

definition LogTime_get :: "(bool \<Rightarrow> int \<Rightarrow> tm) \<Rightarrow> bool \<Rightarrow> int \<Rightarrow> string" where
  "LogTime_get tm bUtc now =
     (case tm bUtc now of (y, mo, d, h, mi, s) \<Rightarrow>
        take 31 (dec y @ ''-'' @ pad0 2 mo @ ''-'' @ pad0 2 d @ '' '' @ pad0 2 h @ '':'' @ pad0 2 mi @ '':'' @ pad0 2 s))"

subsection \<open>Settings and output\<close>

record log_state =
  bConsole :: bool
  logFile :: string
  logLevel :: Level
  maxFileSizeKB :: u64
  logUtc :: bool
  categories :: "(u64, string) omap"
  console :: "string list"
  logDisk :: disk

definition log_init :: "disk \<Rightarrow> log_state" where
  "log_init k = \<lparr>bConsole = False, logFile = [], logLevel = LvInfo, maxFileSizeKB = 1024 * 1024, logUtc = True,
     categories = om_empty, console = [], logDisk = k\<rparr>"

definition log_setConsole :: "bool \<Rightarrow> log_state \<Rightarrow> log_state" where
  "log_setConsole b l = l\<lparr>bConsole := b\<rparr>"

definition log_setFile :: "string \<Rightarrow> log_state \<Rightarrow> log_state" where
  "log_setFile path l = l\<lparr>logFile := path\<rparr>"

definition log_setFileSize :: "u64 \<Rightarrow> log_state \<Rightarrow> log_state" where
  "log_setFileSize uiMaxSizeKb l = l\<lparr>maxFileSizeKB := uiMaxSizeKb\<rparr>"

definition log_setLevel :: "Level \<Rightarrow> log_state \<Rightarrow> log_state" where
  "log_setLevel eLevel l = l\<lparr>logLevel := eLevel\<rparr>"

fun Level_value :: "Level \<Rightarrow> nat" where
  "Level_value LvNone = 0"
| "Level_value LvError = 1"
| "Level_value LvWarn = 2"
| "Level_value LvNotice = 3"
| "Level_value LvInfo = 4"
| "Level_value LvDebug = 5"
| "Level_value LvTraffic = 6"

definition log_check :: "Level \<Rightarrow> log_state \<Rightarrow> bool" where
  "log_check eLevel l =
     ((bConsole l \<or> (logFile l \<noteq> [] \<and> maxFileSizeKB l > 0)) \<and> Level_value (logLevel l) \<ge> Level_value eLevel)"

text \<open>A line appended to a file of the disk, with the position that \<^verbatim>\<open>ftell\<close> reports after the write (-1 if it fails);
  the operating system cuts the file at what it accepts and may lose the end of the line when the file is
  closed.  Moving a file fails if a directory is in the way.\<close>

definition append_line :: "string \<Rightarrow> string \<Rightarrow> disk \<Rightarrow> (int \<times> disk) option" where
  "append_line path str k =
     (case quota k path of
        None \<Rightarrow> None
      | Some n \<Rightarrow>
          let old = (case om_find (files k) path of None \<Rightarrow> [] | Some d \<Rightarrow> d);
              new = take (max n (length old)) (old @ string_bytes (str @ [CHR 0x0A]));
              kept = take (max (length old) (length new - lost (io k) path)) new
          in Some (if noSize (io k) path then - 1 else int (length new), k\<lparr>files := om_put path kept (files k)\<rparr>))"

definition fs_rename :: "string \<Rightarrow> string \<Rightarrow> disk \<Rightarrow> disk option" where
  "fs_rename a b k =
     (if b \<in> set (dirs k) then None
      else case om_find (files k) a of
          None \<Rightarrow> None
        | Some d \<Rightarrow> Some (k\<lparr>files := om_put b d (om_erase a (files k))\<rparr>))"

definition log_rotate :: "string \<Rightarrow> disk \<Rightarrow> disk" where
  "log_rotate path k =
     (case fs_rename path (path @ ''.bak'') k of
        Some k' \<Rightarrow> k'
      | None \<Rightarrow> k\<lparr>files := om_erase path (files k)\<rparr>)"

text \<open>Text is printed up to its first null character.\<close>

definition c_str :: "string \<Rightarrow> string" where
  "c_str s = takeWhile (\<lambda>c. c \<noteq> CHR 0x00) s"

definition log_write :: "string \<Rightarrow> log_state \<Rightarrow> log_state" where
  "log_write str l =
     (if \<not> bConsole l \<and> (logFile l = [] \<or> maxFileSizeKB l = 0) then l
      else
        let l = (if bConsole l then l\<lparr>console := console l @ [c_str str]\<rparr> else l)
        in if logFile l \<noteq> [] \<and> maxFileSizeKB l > 0 then
             (case append_line (logFile l) (c_str str) (logDisk l) of
                None \<Rightarrow> l
              | Some (lFileSize, k) \<Rightarrow>
                  if lFileSize > 0 \<and> nat (lFileSize div 1024) \<ge> unat (maxFileSizeKB l)
                  then l\<lparr>logDisk := log_rotate (logFile l) k\<rparr>
                  else l\<lparr>logDisk := k\<rparr>)
           else l)"

text \<open>The overload that formats.  An exception of the printer leaves the function.\<close>

definition log_msg ::
  "(json \<Rightarrow> string option) \<Rightarrow> type_hash \<Rightarrow> (bool \<Rightarrow> int \<Rightarrow> tm) \<Rightarrow> int \<Rightarrow> u64 \<Rightarrow> Level \<Rightarrow> string \<Rightarrow> log_state \<Rightarrow> log_state option"
where
  "log_msg dump hash tm now category eLevel str l =
     (if \<not> log_check eLevel l then Some l
      else map_option (\<lambda>line. log_write line l)
        (dump (JObj [(''time'', JStr (LogTime_get tm (logUtc l) now)), (''level'', JStr (Level_to_string eLevel)),
           (''category'', JStr (Category_get hash (categories l) category)), (''msg'', JStr str)])))"

subsection \<open>Logger\<close>

type_synonym Logger = "(string, json) omap"

definition Logger_new :: Logger where
  "Logger_new = om_empty"

definition Logger_addContext_string :: "string \<Rightarrow> string \<Rightarrow> Logger \<Rightarrow> Logger" where
  "Logger_addContext_string attr value x = om_put attr (JStr value) x"

definition Logger_addContext_int64 :: "string \<Rightarrow> int \<Rightarrow> Logger \<Rightarrow> Logger" where
  "Logger_addContext_int64 attr value x = om_put attr (JInt value) x"

definition Logger_addContext_uint64 :: "string \<Rightarrow> u64 \<Rightarrow> Logger \<Rightarrow> Logger" where
  "Logger_addContext_uint64 attr value x = om_put attr (JInt (uint value)) x"

definition Logger_addContext_bool :: "string \<Rightarrow> bool \<Rightarrow> Logger \<Rightarrow> Logger" where
  "Logger_addContext_bool attr value x = om_put attr (JBool value) x"

definition Logger_addListContext :: "string \<Rightarrow> string \<Rightarrow> Logger \<Rightarrow> Logger" where
  "Logger_addListContext attr value x =
     (case om_find x attr of
        None \<Rightarrow> om_put attr (JArr [JStr value]) x
      | Some (JArr es) \<Rightarrow> om_put attr (JArr (es @ [JStr value])) x
      | Some existing \<Rightarrow> om_put attr (JArr [existing, JStr value]) x)"

definition Logger_data ::
  "type_hash \<Rightarrow> (bool \<Rightarrow> int \<Rightarrow> tm) \<Rightarrow> int \<Rightarrow> u64 \<Rightarrow> Level \<Rightarrow> string \<Rightarrow> int \<Rightarrow> string option \<Rightarrow> Logger \<Rightarrow> log_state \<Rightarrow>
    (string \<times> json) list"
where
  "Logger_data hash tm now cat eLevel str code error x l =
     (let data = [(''time'', JStr (LogTime_get tm (logUtc l) now)), (''level'', JStr (Level_to_string eLevel)),
                  (''category'', JStr (Category_get hash (categories l) cat))];
          data = (if code \<noteq> 0 then oj_put ''code'' (JInt code) data else data);
          data = (case error of Some e \<Rightarrow> if e \<noteq> [] then oj_put ''error'' (JStr e) data else data | None \<Rightarrow> data);
          data = fold (\<lambda>(k, v). oj_put k v) x data
      in oj_put ''msg'' (JStr str) data)"

definition Logger_msg ::
  "(json \<Rightarrow> string option) \<Rightarrow> type_hash \<Rightarrow> (bool \<Rightarrow> int \<Rightarrow> tm) \<Rightarrow> int \<Rightarrow> u64 \<Rightarrow> Level \<Rightarrow> string \<Rightarrow> int \<Rightarrow> string option \<Rightarrow>
    Logger \<Rightarrow> log_state \<Rightarrow> log_state"
where
  "Logger_msg dump hash tm now cat eLevel str code error x l =
     (if \<not> log_check eLevel l then l
      else case dump (JObj (Logger_data hash tm now cat eLevel str code error x l)) of
             None \<Rightarrow> l
           | Some line \<Rightarrow> log_write line l)"

subsection \<open>LogArgs\<close>

definition LogArgs_setCmdLineArgs :: "Args \<Rightarrow> log_state \<Rightarrow> log_state" where
  "LogArgs_setCmdLineArgs a l =
     (let l = (if Args_hasArg ''log-console'' a then log_setConsole True l else l);
          l = (if Args_hasArg ''log-file'' a then log_setFile (Args_getArg ''log-file'' a) l else l);
          l = (if Args_hasArg ''log-file-size'' a then log_setFileSize (Args_getSizeT ''log-file-size'' a) l else l);
          l = (if Args_hasArg ''log-verbose'' a then log_setLevel LvTraffic l
               else if Args_hasArg ''log-debug'' a then log_setLevel LvDebug l
               else log_setLevel LvInfo l)
      in if Args_hasArg ''log-localtime'' a then l\<lparr>logUtc := False\<rparr> else l)"

definition LogArgs_logFile :: "Args \<Rightarrow> string" where
  "LogArgs_logFile a = Args_getArg ''log-file'' a"

section \<open>The log file\<close>

definition file_bytes :: "disk \<Rightarrow> string \<Rightarrow> bytes" where
  "file_bytes k path = (case om_find (files k) path of None \<Rightarrow> [] | Some d \<Rightarrow> d)"

definition log_line :: "string \<Rightarrow> bytes" where
  "log_line str = string_bytes (c_str str @ [CHR 0x0A])"

text \<open>A disk that accepts \<open>n\<close> bytes in the log file and has no fault there.\<close>

definition log_disk_ok :: "nat \<Rightarrow> log_state \<Rightarrow> bool" where
  "log_disk_ok n l \<longleftrightarrow> quota (logDisk l) (logFile l) = Some n \<and> lost (io (logDisk l)) (logFile l) = 0 \<and>
     \<not> noSize (io (logDisk l)) (logFile l) \<and> logFile l @ ''.bak'' \<notin> set (dirs (logDisk l))"

text \<open>What one message does to the two files, when the disk takes it: the line is appended, or the
  file with the line becomes the backup.\<close>

lemma log_write_files:
  assumes "logFile l \<noteq> []" and "0 < maxFileSizeKB l"
    and "log_disk_ok n l" and "length (file_bytes (logDisk l) (logFile l) @ log_line str) \<le> n"
  defines "new \<equiv> file_bytes (logDisk l) (logFile l) @ log_line str"
  defines "k \<equiv> logDisk (log_write str l)"
  shows "file_bytes k (logFile l) = (if length new div 1024 \<ge> unat (maxFileSizeKB l) then [] else new)"
    and "file_bytes k (logFile l @ ''.bak'') =
      (if length new div 1024 \<ge> unat (maxFileSizeKB l) then new else file_bytes (logDisk l) (logFile l @ ''.bak''))"
proof -
  have app: "append_line (logFile l) (c_str str) (logDisk l) =
      Some (int (length new), (logDisk l)\<lparr>files := om_put (logFile l) new (files (logDisk l))\<rparr>)"
    using assms(3,4) by (simp add: log_disk_ok_def append_line_def new_def file_bytes_def log_line_def Let_def)
  have "maxFileSizeKB l \<noteq> 0"
    using assms(2) by auto
  moreover have "0 < length new"
    by (simp add: new_def log_line_def string_bytes_def)
  moreover have "nat (int (length new) div 1024) = length new div 1024"
    by (simp add: nat_div_distrib)
  moreover have "logFile l @ ''.bak'' \<notin> set (dirs (logDisk l))"
    using assms(3) by (simp add: log_disk_ok_def)
  ultimately show "file_bytes k (logFile l) = (if length new div 1024 \<ge> unat (maxFileSizeKB l) then [] else new)"
    and "file_bytes k (logFile l @ ''.bak'') =
      (if length new div 1024 \<ge> unat (maxFileSizeKB l) then new else file_bytes (logDisk l) (logFile l @ ''.bak''))"
    using assms(1,2) app
    by (simp_all add: k_def log_write_def log_rotate_def fs_rename_def file_bytes_def om_map_simps)
qed

lemma append_line_keeps:
  "append_line path str k = Some (n, k') \<Longrightarrow> quota k' = quota k \<and> dirs k' = dirs k \<and> io k' = io k"
  by (auto simp: append_line_def Let_def split: option.splits)

lemma log_rotate_keeps:
  "quota (log_rotate path k) = quota k" "dirs (log_rotate path k) = dirs k" "io (log_rotate path k) = io k"
  by (auto simp: log_rotate_def fs_rename_def split: option.splits)

lemma log_write_keeps:
  "logFile (log_write str l) = logFile l" "maxFileSizeKB (log_write str l) = maxFileSizeKB l"
  "log_disk_ok n (log_write str l) = log_disk_ok n l"
proof -
  show same: "logFile (log_write str l) = logFile l" "maxFileSizeKB (log_write str l) = maxFileSizeKB l"
    by (cases "append_line (logFile l) (c_str str) (logDisk l)"; auto simp: log_write_def Let_def)+
  have "quota (logDisk (log_write str l)) = quota (logDisk l)" "dirs (logDisk (log_write str l)) = dirs (logDisk l)"
    "io (logDisk (log_write str l)) = io (logDisk l)"
    by (cases "append_line (logFile l) (c_str str) (logDisk l)";
        auto simp: log_write_def Let_def log_rotate_keeps dest: append_line_keeps)+
  then show "log_disk_ok n (log_write str l) = log_disk_ok n l" by (simp add: log_disk_ok_def same)
qed

lemma log_file_small: "\<not> m \<le> n div 1024 \<Longrightarrow> n < 1024 * m" for m n :: nat
  by (simp add: not_le div_less_iff_less_mult mult.commute)

lemma log_full_size: "m \<le> n div 1024 \<Longrightarrow> 1024 * m \<le> n" for m n :: nat
  by (metis div_times_less_eq_dividend le_trans mult.commute mult_le_mono1)

text \<open>The two files as byte strings: what a sequence of lines makes of the backup and the log.\<close>

fun rotate_lines :: "nat \<Rightarrow> bytes list \<Rightarrow> bytes \<times> bytes \<Rightarrow> bytes \<times> bytes" where
  "rotate_lines m [] (bak, cur) = (bak, cur)"
| "rotate_lines m (line # rest) (bak, cur) =
     (if m \<le> length (cur @ line) div 1024 then rotate_lines m rest (cur @ line, []) else rotate_lines m rest (bak, cur @ line))"

lemma log_write_rotates:
  assumes "logFile l \<noteq> []" and "0 < maxFileSizeKB l" and "log_disk_ok n l"
    and "length (file_bytes (logDisk l) (logFile l)) + length (concat (map log_line strs)) \<le> n"
  shows "(file_bytes (logDisk (fold log_write strs l)) (logFile l @ ''.bak''), file_bytes (logDisk (fold log_write strs l)) (logFile l))
    = rotate_lines (unat (maxFileSizeKB l)) (map log_line strs)
        (file_bytes (logDisk l) (logFile l @ ''.bak''), file_bytes (logDisk l) (logFile l))"
  using assms
proof (induction strs arbitrary: l)
  case (Cons str strs)
  let ?l = "log_write str l"
  have "length (file_bytes (logDisk l) (logFile l) @ log_line str) \<le> n" using Cons.prems(4) by simp
  note step = log_write_files [OF Cons.prems(1-3) this]
  have "length (file_bytes (logDisk ?l) (logFile ?l)) + length (concat (map log_line strs)) \<le> n"
    using step(1) Cons.prems(4) by (simp add: log_write_keeps)
  with Cons.IH [of ?l] Cons.prems step show ?case by (simp add: log_write_keeps)
qed simp

lemma rotate_lines_bounds:
  assumes "rotate_lines m lines (bak, cur) = (bak', cur')" and "length cur < 1024 * m" and "0 < m"
  shows "length cur' < 1024 * m \<and> (bak' = bak \<or> (\<exists>line\<in>set lines. length bak' < 1024 * m + length line))"
  using assms
proof (induction m lines "(bak, cur)" arbitrary: bak cur rule: rotate_lines.induct)
  case (2 m line rest bak cur)
  show ?case
  proof (cases "m \<le> length (cur @ line) div 1024")
    case True
    with 2 have "length cur' < 1024 * m \<and> (bak' = cur @ line \<or> (\<exists>line\<in>set rest. length bak' < 1024 * m + length line))" by simp
    with 2(4) show ?thesis by auto
  next
    case False
    with 2 log_file_small [OF False] show ?thesis by auto
  qed
qed auto

lemma rotate_lines_grows:
  assumes "rotate_lines m lines (bak, cur) = (bak', cur')" and "1024 * m \<le> length bak"
  shows "1024 * m \<le> length bak'"
  using assms
proof (induction m lines "(bak, cur)" arbitrary: bak cur rule: rotate_lines.induct)
  case (2 m line rest bak cur)
  then show ?case using log_full_size [of m "length (cur @ line)"] by (auto split: if_splits)
qed auto

lemma rotate_lines_tail:
  assumes "rotate_lines m lines (bak, cur) = (bak', cur')"
  shows "\<exists>gone. gone @ bak' @ cur' = bak @ cur @ concat lines \<and> (gone = [] \<or> 1024 * m \<le> length bak')"
  using assms
proof (induction m lines "(bak, cur)" arbitrary: bak cur rule: rotate_lines.induct)
  case (2 m line rest bak cur)
  show ?case
  proof (cases "m \<le> length (cur @ line) div 1024")
    case True
    with 2 obtain gone where gone: "gone @ bak' @ cur' = cur @ line @ concat rest" "gone = [] \<or> 1024 * m \<le> length bak'" by auto
    have "1024 * m \<le> length bak'"
      using rotate_lines_grows [of m rest "cur @ line" "[]" bak' cur'] 2(3) True log_full_size [OF True] by simp
    with gone(1) show ?thesis by (intro exI [of _ "bak @ gone"]) simp
  next
    case False
    with 2 show ?thesis by auto
  qed
qed auto

section \<open>Logger\<close>

lemma map_of_fold_oj_put:
  "om_ok x \<Longrightarrow> map_of (fold (\<lambda>(k, v). oj_put k v) x data) = map_of data ++ om_find x"
proof (induction x arbitrary: data)
  case (Cons p x)
  obtain k v where p: "p = (k, v)" by (cases p)
  have "om_find x k = None"
    using om_ok_distinct [OF Cons.prems] p by (auto simp: om_find_None_iff om_keys_def)
  then have "(map_of data)(k \<mapsto> v) ++ om_find x = map_of data ++ om_find (p # x)"
    by (auto simp: p map_add_def om_find_Cons fun_eq_iff split: option.splits)
  with Cons p show ?case by (simp add: om_ok_Cons)
qed (simp add: fun_eq_iff map_add_def)

text \<open>A record that is logged has its keys once; the message is always there, and the context
  replaces every standard field of the same name.\<close>

lemma Logger_data_fields:
  assumes "om_ok x"
  shows "distinct (map fst (Logger_data hash tm now cat eLevel str code error x l))"
    and "map_of (Logger_data hash tm now cat eLevel str code error x l) ''msg'' = Some (JStr str)"
    and "a \<noteq> ''msg'' \<Longrightarrow> om_find x a = Some v \<Longrightarrow>
      map_of (Logger_data hash tm now cat eLevel str code error x l) a = Some v"
proof -
  have "distinct (map fst data) \<Longrightarrow> distinct (map fst (fold (\<lambda>(k, v). oj_put k v) x data))" for data
    by (induction x arbitrary: data) (auto simp: distinct_oj_put)
  then show "distinct (map fst (Logger_data hash tm now cat eLevel str code error x l))"
    by (simp add: Logger_data_def Let_def distinct_oj_put split: option.splits)
  show "map_of (Logger_data hash tm now cat eLevel str code error x l) ''msg'' = Some (JStr str)"
    by (simp add: Logger_data_def Let_def)
  show "map_of (Logger_data hash tm now cat eLevel str code error x l) a = Some v"
    if "a \<noteq> ''msg''" "om_find x a = Some v"
    using that by (simp add: Logger_data_def Let_def map_of_fold_oj_put [OF assms] map_add_def)
qed

lemma addListContext_append:
  "om_find x attr = Some (JArr es) \<Longrightarrow>
     om_find (fold (Logger_addListContext attr) vs x) attr = Some (JArr (es @ map JStr vs))"
  by (induction vs arbitrary: x es) (simp_all add: Logger_addListContext_def om.find_put)

lemma Logger_addListContext_collects:
  assumes "om_find x attr = None" and "vs \<noteq> []"
  shows "om_find (fold (Logger_addListContext attr) vs x) attr = Some (JArr (map JStr vs))"
  using assms addListContext_append [of "Logger_addListContext attr (hd vs) x" attr "[JStr (hd vs)]" "tl vs"]
  by (cases vs) (simp_all add: Logger_addListContext_def om.find_put)

section \<open>Properties\<close>

text \<open>Claim C28.  The log is rotated without losing its end.  On a disk that takes the lines without a fault, and with a
  log file that was below its maximum at first, however many lines are written: the log file is below the maximum, the
  backup is the old backup or less than one line longer than the maximum, and the backup followed by the log file
  holds everything that was logged, or at least its last \<open>1024\<close> times \<^verbatim>\<open>maxFileSizeKB\<close> bytes.\<close>

theorem log_files_hold_tail:
  assumes "logFile l \<noteq> []" and "0 < maxFileSizeKB l" and "log_disk_ok n l"
    and "length (file_bytes (logDisk l) (logFile l)) + length (concat (map log_line strs)) \<le> n"
    and "length (file_bytes (logDisk l) (logFile l)) < 1024 * unat (maxFileSizeKB l)"
  shows "\<exists>gone bak cur. file_bytes (logDisk (fold log_write strs l)) (logFile l @ ''.bak'') = bak \<and>
     file_bytes (logDisk (fold log_write strs l)) (logFile l) = cur \<and>
     length cur < 1024 * unat (maxFileSizeKB l) \<and>
     (bak = file_bytes (logDisk l) (logFile l @ ''.bak'') \<or>
       (\<exists>str\<in>set strs. length bak < 1024 * unat (maxFileSizeKB l) + length (log_line str))) \<and>
     gone @ bak @ cur = file_bytes (logDisk l) (logFile l @ ''.bak'') @ file_bytes (logDisk l) (logFile l) @
       concat (map log_line strs) \<and>
     (gone = [] \<or> 1024 * unat (maxFileSizeKB l) \<le> length bak)"
proof -
  let ?m = "unat (maxFileSizeKB l)"
  obtain bak cur where rot: "rotate_lines ?m (map log_line strs)
      (file_bytes (logDisk l) (logFile l @ ''.bak''), file_bytes (logDisk l) (logFile l)) = (bak, cur)" by fastforce
  have "0 < ?m" using assms(2) by (simp add: unat_gt_0 word_gt_0)
  from rotate_lines_bounds [OF rot assms(5) this] rotate_lines_tail [OF rot] log_write_rotates [OF assms(1-4)] rot
  show ?thesis by auto
qed

text \<open>A maximum of one kilobyte: the first line fills the file, the second one starts a new file.\<close>

theorem log_files_hold_tail_witness:
  "\<exists>gone bak cur l. l = (log_init \<lparr>dirs = [], files = [], home = None, quota = (\<lambda>_. Some 5000), io = plain_io\<rparr>)
       \<lparr>logFile := ''f'', maxFileSizeKB := 1\<rparr> \<and>
     file_bytes (logDisk (fold log_write [replicate 1100 CHR ''a'', ''b''] l)) ''f.bak'' = bak \<and>
     file_bytes (logDisk (fold log_write [replicate 1100 CHR ''a'', ''b''] l)) ''f'' = cur \<and>
     length cur < 1024 \<and> gone @ bak @ cur = log_line (replicate 1100 CHR ''a'') @ log_line ''b'' \<and> (gone = [] \<or> 1024 \<le> length bak)"
proof -
  let ?l = "(log_init \<lparr>dirs = [], files = [], home = None, quota = (\<lambda>_. Some 5000), io = plain_io\<rparr>)\<lparr>logFile := ''f'', maxFileSizeKB := 1\<rparr>"
  let ?s = "[replicate 1100 CHR ''a'', ''b'']"
  have "file_bytes (logDisk ?l) ''f'' = []" "file_bytes (logDisk ?l) ''f.bak'' = []" "log_disk_ok 5000 ?l"
    by (simp_all add: log_init_def file_bytes_def log_disk_ok_def)
  moreover have "length (concat (map log_line ?s)) \<le> 5000"
    by (simp add: log_line_def c_str_def string_bytes_def takeWhile_replicate)
  ultimately have "\<exists>gone bak cur. file_bytes (logDisk (fold log_write ?s ?l)) ''f.bak'' = bak \<and>
      file_bytes (logDisk (fold log_write ?s ?l)) ''f'' = cur \<and> length cur < 1024 \<and>
      gone @ bak @ cur = log_line (replicate 1100 CHR ''a'') @ log_line ''b'' \<and> (gone = [] \<or> 1024 \<le> length bak)"
    using log_files_hold_tail [of ?l 5000 ?s] by (auto simp del: fold_simps)
  then show ?thesis by blast
qed

end
