(* ===== verification/FC_Async.thy ===== *)
theory FC_Async
  imports FC_Utils
begin

text \<open>
  The asynchronous layer: \<^verbatim>\<open>async/TreasureTrove\<close> and \<^verbatim>\<open>async/BuriedTreasure\<close> (memory of running
  tasks), \<^verbatim>\<open>async/Scheduler\<close>, \<^verbatim>\<open>async/Socket\<close>, \<^verbatim>\<open>async/UncontrolledSocket\<close> and
  \<^verbatim>\<open>async/CallbackAwaiter\<close>.

  The event loop of the library runs handlers one after the other, never inside the call that
  registers them; a registered handler is a field of the state, and its run is an operation of
  its own.  A callback that is invoked is an output.  Locks are held for the whole of each
  operation and left out.
\<close>

section \<open>Model\<close>

subsection \<open>TreasureTrove\<close>

text \<open>Objects are their addresses.  The iterator of the loop is never advanced; a loop that never
  ends is \<open>None\<close>.\<close>

type_synonym TreasureTrove = "nat list"

definition TreasureTrove_add :: "nat \<Rightarrow> TreasureTrove \<Rightarrow> TreasureTrove" where
  "TreasureTrove_add mem memory = memory @ [mem]"

partial_function (option) cleanup_loop :: "nat \<Rightarrow> TreasureTrove \<Rightarrow> TreasureTrove option" where
  "cleanup_loop item memory =
     (case memory of
        [] \<Rightarrow> Some memory
      | p # rest \<Rightarrow> if p = item then Some rest else cleanup_loop item memory)"

definition TreasureTrove_cleanup :: "nat \<Rightarrow> TreasureTrove \<Rightarrow> TreasureTrove option" where
  "TreasureTrove_cleanup item memory = cleanup_loop item memory"

subsection \<open>BuriedTreasure\<close>

record BuriedTreasure =
  ptrove :: bool
  ptreasure :: "nat option"

definition BuriedTreasure_new :: "nat \<Rightarrow> TreasureTrove \<Rightarrow> BuriedTreasure \<times> TreasureTrove" where
  "BuriedTreasure_new p memory = (\<lparr>ptrove = True, ptreasure = Some p\<rparr>, TreasureTrove_add p memory)"

definition BuriedTreasure_cleanup :: "BuriedTreasure \<Rightarrow> TreasureTrove \<Rightarrow> (BuriedTreasure \<times> TreasureTrove) option" where
  "BuriedTreasure_cleanup x memory =
     map_option (\<lambda>memory. (x\<lparr>ptreasure := None\<rparr>, memory))
       (case ptreasure x of
          Some p \<Rightarrow> if ptrove x then TreasureTrove_cleanup p memory else Some memory
        | None \<Rightarrow> Some memory)"

definition BuriedTreasure_assign ::
  "BuriedTreasure \<Rightarrow> BuriedTreasure \<Rightarrow> TreasureTrove \<Rightarrow> (BuriedTreasure \<times> BuriedTreasure \<times> TreasureTrove) option"
where
  "BuriedTreasure_assign rhs x memory =
     map_option (\<lambda>(x, memory). (x\<lparr>ptrove := ptrove rhs, ptreasure := ptreasure rhs\<rparr>, rhs, memory))
       (BuriedTreasure_cleanup x memory)"

definition BuriedTreasure_move ::
  "BuriedTreasure \<Rightarrow> TreasureTrove \<Rightarrow> (BuriedTreasure \<times> BuriedTreasure \<times> TreasureTrove) option"
where
  "BuriedTreasure_move rhs memory =
     BuriedTreasure_assign rhs \<lparr>ptrove = False, ptreasure = None\<rparr> memory"

definition BuriedTreasure_destroy :: "BuriedTreasure \<Rightarrow> TreasureTrove \<Rightarrow> TreasureTrove option" where
  "BuriedTreasure_destroy x memory = map_option snd (BuriedTreasure_cleanup x memory)"

subsection \<open>Scheduler\<close>

text \<open>The timer has its expiry in minutes; the event loop of the library, once stopped, returns at
  once from every run until it is restarted, which the code never does.\<close>

record Scheduler =
  running :: bool
  numThreads :: nat
  threads :: nat
  timer :: "nat option"
  loopStopped :: bool

definition Scheduler_new :: Scheduler where
  "Scheduler_new = \<lparr>running = False, numThreads = 1, threads = 0, timer = None, loopStopped = False\<rparr>"

definition Scheduler_start :: "nat \<Rightarrow> Scheduler \<Rightarrow> Scheduler" where
  "Scheduler_start now x =
     x\<lparr>running := True,
       timer := (case timer x of None \<Rightarrow> Some (now + 60) | Some t \<Rightarrow> Some t),
       threads := max (threads x) (numThreads x)\<rparr>"

definition Scheduler_setThreads :: "nat \<Rightarrow> nat \<Rightarrow> Scheduler \<Rightarrow> Scheduler" where
  "Scheduler_setThreads now n x =
     (let x = x\<lparr>numThreads := n\<rparr> in
      if running x \<and> n \<noteq> threads x then
        if n < threads x then Scheduler_start now x else x
      else x)"

definition Scheduler_stop :: "Scheduler \<Rightarrow> Scheduler" where
  "Scheduler_stop x = x\<lparr>running := False, timer := None, loopStopped := True, threads := 0\<rparr>"

text \<open>The handler of the timer, run at a time when its wait is complete: the wait is registered
  again, for the same expiry.  The result tells whether the new wait is complete at once.\<close>

definition Scheduler_execTimer :: "bool \<Rightarrow> nat \<Rightarrow> Scheduler \<Rightarrow> bool" where
  "Scheduler_execTimer aborted now x =
     (if aborted then False else case timer x of None \<Rightarrow> False | Some t \<Rightarrow> t \<le> now)"

subsection \<open>Socket\<close>

datatype asio_error = AsioOk | AsioAborted | AsioError string

record 'c PendingWrite =
  pwDetails :: Details
  pwData :: bytes
  pwTimeout :: nat
  pwCallback :: "'c option"

text \<open>The strings of a status that was moved from are empty.\<close>

definition Details_moved :: "Details \<Rightarrow> Details" where
  "Details_moved d = d\<lparr>errorStr := [], errorField := []\<rparr>"

text \<open>\<open>writing\<close> is the write the library is working on, \<open>wire\<close> what it was given to write so far.\<close>

record 'c Socket =
  sOpen :: bool
  writes :: "'c PendingWrite list"
  writing :: bool
  wire :: "bytes list"

definition Socket_new :: "bool \<Rightarrow> 'c Socket" where
  "Socket_new opened = \<lparr>sOpen = opened, writes = [], writing = False, wire = []\<rparr>"

definition queueWrite :: "'c Socket \<Rightarrow> 'c Socket" where
  "queueWrite x =
     (case writes x of
        [] \<Rightarrow> x
      | pending # _ \<Rightarrow> x\<lparr>writing := True, wire := wire x @ [pwData pending]\<rparr>)"

definition Socket_write :: "Details \<Rightarrow> bytes \<Rightarrow> 'c option \<Rightarrow> nat \<Rightarrow> 'c Socket \<Rightarrow> Details \<times> 'c Socket" where
  "Socket_write details data callback timeout x =
     (if \<not> sOpen x then (setError EcNotConnected ''socket_write'' ''Not connected.'' details, x)
      else
        let x = x\<lparr>writes := writes x @ [\<lparr>pwDetails = details, pwData = data, pwTimeout = timeout, pwCallback = callback\<rparr>]\<rparr>
        in (Details_moved details, if length (writes x) > 1 then x else queueWrite x))"

text \<open>The completion of a write: the callback to invoke, if any, and the details it ends with.\<close>

definition Socket_written :: "asio_error \<Rightarrow> 'c Socket \<Rightarrow> 'c option \<times> Details \<times> 'c Socket" where
  "Socket_written error x =
     (let (pending, ws) =
        (case writes x of
           [] \<Rightarrow> (\<lparr>pwDetails = Details_new, pwData = [], pwTimeout = 0, pwCallback = None\<rparr>, [])
         | w # ws \<Rightarrow> (w, ws));
        x = x\<lparr>writes := ws, writing := False\<rparr>;
        d = pwDetails pending
      in case error of
           AsioAborted \<Rightarrow> (None, setError EcSocketTimeout ''socket_write'' ''Timeout trying to write.'' d, x)
         | AsioError e \<Rightarrow>
             (None, setError EcSocketError ''socket_write'' (''Error writing to socket: '' @ e) d, x)
         | AsioOk \<Rightarrow>
             (case pwCallback pending of
                None \<Rightarrow> (None, setError EcInternalError ''write_callback'' ''No write callback to trigger.'' d, x)
              | Some cb \<Rightarrow> (Some cb, d, x)))"

text \<open>Waiting for the socket to be readable or, while connecting, writable: the call that registers the
  wait (\<open>Inr\<close>, the details it captures) and the handler.  The callback runs only without an error.\<close>

definition Socket_read :: "Details \<Rightarrow> 'c Socket \<Rightarrow> Details + Details" where
  "Socket_read details x =
     (if \<not> sOpen x then Inl (setError EcNotConnected ''socket_read'' ''Not connected.'' details) else Inr details)"

definition Socket_read_handler :: "asio_error \<Rightarrow> Details \<Rightarrow> 'c \<Rightarrow> 'c option \<times> Details" where
  "Socket_read_handler error details callback =
     (case error of
        AsioAborted \<Rightarrow> (None, setError EcSocketTimeout ''socket_read'' ''Timeout waiting to read.'' details)
      | AsioError e \<Rightarrow> (None, setError EcSocketError ''socket_read'' (''Error reading from socket: '' @ e) details)
      | AsioOk \<Rightarrow> (Some callback, details))"

definition Socket_wait :: "Details \<Rightarrow> 'c Socket \<Rightarrow> Details + Details" where
  "Socket_wait details x =
     (if \<not> sOpen x then Inl (setError EcNotConnected ''socket_connect'' ''Not connected.'' details) else Inr details)"

definition Socket_wait_handler :: "asio_error \<Rightarrow> Details \<Rightarrow> 'c \<Rightarrow> 'c option \<times> Details" where
  "Socket_wait_handler error details callback =
     (case error of
        AsioAborted \<Rightarrow> (None, setError EcSocketTimeout ''socket_connect'' ''Timeout waiting to connect.'' details)
      | AsioError e \<Rightarrow> (None, setError EcSocketError ''socket_connect'' (''Error connecting: '' @ e) details)
      | AsioOk \<Rightarrow> (Some callback, details))"

subsection \<open>UncontrolledSocket\<close>

text \<open>\<open>uWatch\<close> is the outstanding wait for readability of the socket, with the details it captured.
  Adding \<^verbatim>\<open>pendingDetails\<close> to the details of the reader moves typed extras only and is left out.\<close>

record 'c UncontrolledSocket =
  uOpen :: bool
  wantRead :: bool
  queued :: bool
  uCallback :: "'c option"
  pendingDetails :: Details
  uWatch :: "Details option"

definition UncontrolledSocket_new :: "bool \<Rightarrow> 'c UncontrolledSocket" where
  "UncontrolledSocket_new opened =
     \<lparr>uOpen = opened, wantRead = opened, queued = False, uCallback = None, pendingDetails = Details_new, uWatch = None\<rparr>"

definition queueRead :: "'c UncontrolledSocket \<Rightarrow> 'c UncontrolledSocket" where
  "queueRead x =
     (let x = x\<lparr>queued := True\<rparr> in
      if uOpen x then x\<lparr>uWatch := Some (pendingDetails x)\<rparr>
      else x\<lparr>pendingDetails := setError EcNotConnected ''socket_read'' ''Not connected.'' (pendingDetails x)\<rparr>)"

definition UncontrolledSocket_ready ::
  "Details \<Rightarrow> 'c UncontrolledSocket \<Rightarrow> ('c \<times> Details) option \<times> 'c UncontrolledSocket"
where
  "UncontrolledSocket_ready details x =
     (let x = x\<lparr>queued := False, uWatch := None\<rparr>;
          x = (if isOk details \<and> uOpen x then queueRead x else x)
      in case uCallback x of
           Some localCB \<Rightarrow> (Some (localCB, details), x\<lparr>uCallback := None, wantRead := False\<rparr>)
         | None \<Rightarrow> (None, x\<lparr>wantRead := True, pendingDetails := details\<rparr>))"

definition UncontrolledSocket_event ::
  "asio_error \<Rightarrow> 'c UncontrolledSocket \<Rightarrow> ('c \<times> Details) option \<times> 'c UncontrolledSocket"
where
  "UncontrolledSocket_event error x =
     (case uWatch x of
        None \<Rightarrow> (None, x)
      | Some details \<Rightarrow>
          (case Socket_read_handler error details UncontrolledSocket_ready of
             (Some callback, details) \<Rightarrow> callback details x
           | (None, _) \<Rightarrow> (None, x\<lparr>uWatch := None\<rparr>)))"

definition UncontrolledSocket_read ::
  "Details \<Rightarrow> 'c \<Rightarrow> 'c UncontrolledSocket \<Rightarrow> ('c \<times> Details) option \<times> 'c UncontrolledSocket"
where
  "UncontrolledSocket_read details callback x =
     (if queued x \<and> wantRead x then (Some (callback, details), x\<lparr>wantRead := False\<rparr>)
      else if \<not> queued x \<and> wantRead x \<and> uOpen x then
        (Some (callback, details), queueRead (x\<lparr>wantRead := False\<rparr>))
      else if \<not> uOpen x then
        (Some (callback, setError EcConnectionError ''read'' ''Connection is not open.'' details), x)
      else (None, x\<lparr>pendingDetails := details, uCallback := Some callback\<rparr>))"

subsection \<open>CallbackAwaiter\<close>

text \<open>The results start as default values; the coroutine returned by \<^verbatim>\<open>run\<close> gives them as they are.\<close>

record 'r CallbackAwaiter =
  results :: 'r
  isComplete :: bool
  isWaiting :: bool

definition CallbackAwaiter_new :: "'r \<Rightarrow> 'r CallbackAwaiter" where
  "CallbackAwaiter_new dflt = \<lparr>results = dflt, isComplete = False, isWaiting = False\<rparr>"

definition CallbackAwaiter_f :: "'r \<Rightarrow> 'r CallbackAwaiter \<Rightarrow> 'r CallbackAwaiter" where
  "CallbackAwaiter_f r x = x\<lparr>results := r, isComplete := True\<rparr>"

definition CallbackAwaiter_run :: "'r CallbackAwaiter \<Rightarrow> 'r" where
  "CallbackAwaiter_run x = results x"

text \<open>A function is given by the value it passes to its callback before it returns, if it does.\<close>

definition waitOnCallback :: "'r \<Rightarrow> 'r option \<Rightarrow> 'r" where
  "waitOnCallback dflt called =
     (let t = CallbackAwaiter_new dflt;
          t = (case called of Some r \<Rightarrow> CallbackAwaiter_f r t | None \<Rightarrow> t)
      in CallbackAwaiter_run t)"

section \<open>Memory of running tasks\<close>

lemma cleanup_loop_Some:
  assumes "cleanup_loop item memory = Some r"
  shows "memory = [] \<and> r = [] \<or> memory \<noteq> [] \<and> hd memory = item \<and> r = tl memory"
proof (rule cleanup_loop.raw_induct [OF _ assms])
  fix loop :: "nat \<Rightarrow> nat list \<Rightarrow> nat list option" and i m y
  assume IH: "\<And>i m y. loop i m = Some y \<Longrightarrow> m = [] \<and> y = [] \<or> m \<noteq> [] \<and> hd m = i \<and> y = tl m"
    and eq: "(case m of [] \<Rightarrow> Some m | p # rest \<Rightarrow> if p = i then Some rest else loop i m) = Some y"
  show "m = [] \<and> y = [] \<or> m \<noteq> [] \<and> hd m = i \<and> y = tl m"
    using eq IH [of i m y] by (auto split: list.splits if_splits)
qed

lemma TreasureTrove_cleanup_eq:
  "TreasureTrove_cleanup item memory =
     (if memory = [] then Some [] else if hd memory = item then Some (tl memory) else None)"
proof (cases "memory = [] \<or> hd memory = item")
  case True
  then show ?thesis
    by (cases memory) (auto simp: TreasureTrove_cleanup_def cleanup_loop.simps)
next
  case False
  then have "cleanup_loop item memory = None"
    using cleanup_loop_Some [of item memory] by (cases "cleanup_loop item memory") auto
  with False show ?thesis by (simp add: TreasureTrove_cleanup_def)
qed

text \<open>A treasure that was moved is freed with the object it was moved from, while the new owner
  still points to it.\<close>

lemma BuriedTreasure_moved_is_freed:
  assumes "BuriedTreasure_new p [] = (b, m)" and "BuriedTreasure_move b m = Some (c, b', m')"
  shows "BuriedTreasure_destroy b' m' = Some [] \<and> ptreasure c = Some p"
  using assms
  by (auto simp: BuriedTreasure_new_def BuriedTreasure_move_def BuriedTreasure_assign_def
      BuriedTreasure_cleanup_def BuriedTreasure_destroy_def TreasureTrove_add_def TreasureTrove_cleanup_eq)

text \<open>Waiting for a callback that comes later gives the default values.\<close>

lemma waitOnCallback_does_not_wait: "waitOnCallback dflt None = dflt"
  by (simp add: waitOnCallback_def CallbackAwaiter_new_def CallbackAwaiter_run_def)

section \<open>Scheduler\<close>

definition Scheduler_inv :: "Scheduler \<Rightarrow> bool" where
  "Scheduler_inv x \<longleftrightarrow> (running x \<longleftrightarrow> timer x \<noteq> None) \<and> (\<not> running x \<longrightarrow> threads x = 0)"

lemma Scheduler_inv_ops [keeps]:
  "Scheduler_inv Scheduler_new"
  "Scheduler_inv x \<Longrightarrow> Scheduler_inv (Scheduler_start now x)"
  "Scheduler_inv x \<Longrightarrow> Scheduler_inv (Scheduler_setThreads now n x)"
  "Scheduler_inv (Scheduler_stop x)"
  by (auto simp: Scheduler_inv_def Scheduler_new_def Scheduler_start_def Scheduler_setThreads_def
      Scheduler_stop_def Let_def split: option.splits)

text \<open>Once the hour of the timer is over its handler is ready again as soon as it has run, and a
  scheduler that was stopped and started again runs its threads on a stopped loop.\<close>

lemma Scheduler_timer_spins:
  assumes "timer x = None" and "now + 60 \<le> later"
  shows "Scheduler_execTimer False later (Scheduler_start now x)"
  using assms by (simp add: Scheduler_execTimer_def Scheduler_start_def)

lemma Scheduler_restart_is_stopped: "loopStopped (Scheduler_start now (Scheduler_stop x))"
  by (simp add: Scheduler_start_def Scheduler_stop_def)

section \<open>Writes of a socket\<close>

datatype 'c socket_event = SeWrite Details bytes "'c option" nat | SeWritten asio_error

text \<open>A completion is an event of a socket only while a write is under way.\<close>

fun socket_step :: "'c Socket \<Rightarrow> 'c socket_event \<Rightarrow> 'c Socket" where
  "socket_step x (SeWrite d data cb t) = snd (Socket_write d data cb t x)"
| "socket_step x (SeWritten e) = (if writing x then snd (snd (Socket_written e x)) else x)"

definition Socket_inv :: "'c Socket \<Rightarrow> bool" where
  "Socket_inv x \<longleftrightarrow> (writing x \<longrightarrow> writes x \<noteq> [])"

lemma Socket_written_state: "snd (snd (Socket_written e x)) = x\<lparr>writes := tl (writes x), writing := False\<rparr>"
  by (auto simp: Socket_written_def Let_def split: list.splits asio_error.splits option.splits)

lemma Socket_inv_step [keeps]: "Socket_inv x \<Longrightarrow> Socket_inv (socket_step x e)"
  by (cases e) (auto simp: Socket_inv_def Socket_write_def Socket_written_state queueWrite_def Let_def)

lemma socket_stuck_step:
  assumes "writes x \<noteq> []" and "\<not> writing x"
  shows "writes (socket_step x e) \<noteq> [] \<and> \<not> writing (socket_step x e) \<and> wire (socket_step x e) = wire x"
  using assms by (cases e) (auto simp: Socket_write_def Let_def)

lemma socket_stuck_steps:
  assumes "writes x \<noteq> []" and "\<not> writing x"
  shows "wire (foldl socket_step x es) = wire x"
  using assms
proof (induction es arbitrary: x)
  case (Cons e es)
  then show ?case using socket_stuck_step [of x e] by simp
qed simp

text \<open>The queue of writes is not drained: when a second write is issued before the first one is
  complete, the completion of the first starts nothing, and whatever is written to the socket
  afterwards, nothing more is ever given to the descriptor.\<close>

theorem Socket_overlapping_write_stalls:
  assumes "sOpen x" and "writes x = []" and "\<not> writing x"
  shows "wire (foldl socket_step x (SeWrite d1 a cb1 t1 # SeWrite d2 b cb2 t2 # SeWritten e # es)) = wire x @ [a]"
proof -
  let ?y = "foldl socket_step x [SeWrite d1 a cb1 t1, SeWrite d2 b cb2 t2, SeWritten e]"
  have "writes ?y \<noteq> []" "\<not> writing ?y" "wire ?y = wire x @ [a]"
    using assms by (auto simp: Socket_write_def Let_def queueWrite_def Socket_written_state)
  with socket_stuck_steps [of ?y es] show ?thesis by simp
qed

theorem Socket_overlapping_write_stalls_witness:
  "wire (foldl socket_step (Socket_new True)
     [SeWrite Details_new [1] (Some ()) 0, SeWrite Details_new [2] (Some ()) 0, SeWritten AsioOk, SeWrite Details_new [3] None 0])
   = [[1]]"
  using Socket_overlapping_write_stalls [of "Socket_new True" Details_new "[1]" "Some ()" 0 Details_new "[2]"
      "Some ()" 0 AsioOk "[SeWrite Details_new [3] None 0]"]
  by (simp add: Socket_new_def)

section \<open>Readiness of an uncontrolled socket\<close>

text \<open>What \<^verbatim>\<open>UncontrolledSocket.h\<close> promises: a readiness event goes to the reader that waits, and is kept
  for the next reader when nobody does.  The state is the waiting reader and the kept event.\<close>

datatype 'c read_event = ReRead Details 'c | ReReady

fun latch_step :: "'c option \<times> bool \<Rightarrow> 'c read_event \<Rightarrow> 'c option \<times> 'c option \<times> bool" where
  "latch_step (w, kept) (ReRead d cb) = (if kept then (Some cb, w, False) else (None, Some cb, False))"
| "latch_step (w, kept) ReReady = (case w of Some cb \<Rightarrow> (Some cb, None, False) | None \<Rightarrow> (None, None, True))"

fun latch_run :: "'c option \<times> bool \<Rightarrow> 'c read_event list \<Rightarrow> 'c list" where
  "latch_run s [] = []"
| "latch_run s (e # es) =
     (let (called, s') = latch_step s e in (case called of Some cb \<Rightarrow> [cb] | None \<Rightarrow> []) @ latch_run s' es)"

fun usock_step :: "'c UncontrolledSocket \<Rightarrow> 'c read_event \<Rightarrow> ('c \<times> Details) option \<times> 'c UncontrolledSocket" where
  "usock_step x (ReRead d cb) = UncontrolledSocket_read d cb x"
| "usock_step x ReReady = UncontrolledSocket_event AsioOk x"

fun usock_run :: "'c UncontrolledSocket \<Rightarrow> 'c read_event list \<Rightarrow> 'c list" where
  "usock_run x [] = []"
| "usock_run x (e # es) =
     (let (called, x') = usock_step x e in (case called of Some (cb, _) \<Rightarrow> [cb] | None \<Rightarrow> []) @ usock_run x' es)"

definition usock_abs :: "'c UncontrolledSocket \<Rightarrow> 'c option \<times> bool" where
  "usock_abs x = (uCallback x, wantRead x)"

definition usock_inv :: "'c UncontrolledSocket \<Rightarrow> bool" where
  "usock_inv x \<longleftrightarrow>
     uOpen x \<and> isOk (pendingDetails x) \<and> (wantRead x \<longrightarrow> uCallback x = None) \<and>
     (if queued x then (\<exists>d. uWatch x = Some d \<and> isOk d) else wantRead x \<and> uWatch x = None)"

fun event_ok :: "'c read_event \<Rightarrow> bool" where
  "event_ok (ReRead d cb) = isOk d"
| "event_ok ReReady = True"

lemmas usock_defs = UncontrolledSocket_read_def UncontrolledSocket_event_def UncontrolledSocket_ready_def
  queueRead_def Socket_read_handler_def usock_abs_def usock_inv_def Let_def

lemma usock_step_sim [refine]:
  assumes "usock_inv x" and "event_ok e" and "usock_step x e = (c, x')"
  shows "latch_step (usock_abs x) e = (map_option fst c, usock_abs x') \<and> usock_inv x'"
proof (cases e)
  case (ReRead d cb)
  with assms show ?thesis by (auto simp: usock_defs split: if_splits)
next
  case ReReady
  with assms show ?thesis by (cases "uCallback x") (auto simp: usock_defs split: if_splits)
qed



text \<open>After an error of the descriptor the wait is gone but still marked as queued, so that a reader
  waits for ever.\<close>

lemma UncontrolledSocket_error_mutes:
  assumes "usock_inv x" and "queued x" and "\<not> wantRead x" and "UncontrolledSocket_event (AsioError e) x = (c, x')"
  shows "c = None \<and> usock_run x' (replicate n ReReady) = []"
proof -
  have x': "c = None" "uWatch x' = None" using assms by (auto simp: usock_defs)
  then have "usock_run x' (replicate n ReReady) = []"
    by (induction n) (simp_all add: UncontrolledSocket_event_def)
  with x' show ?thesis by simp
qed

text \<open>Removing a task from the trove ends exactly when the trove is empty or the task is its oldest one;
  in every other case the loop never moves past the first element.\<close>

theorem TreasureTrove_cleanup_returns_iff:
  "(\<exists>r. TreasureTrove_cleanup item memory = Some r) \<longleftrightarrow> memory = [] \<or> hd memory = item"
  by (simp add: TreasureTrove_cleanup_eq)

end
