(* ===== verification/FC_Zmq.thy ===== *)
theory FC_Zmq
  imports FC_Crypto FC_Utils "HOL-Library.Sublist"
begin

text \<open>
  The message sockets: \<^verbatim>\<open>zmq/Utils\<close>, \<^verbatim>\<open>zmq/Context\<close>, \<^verbatim>\<open>zmq/Server\<close>, \<^verbatim>\<open>zmq/Client\<close>, \<^verbatim>\<open>zmq/Publisher\<close>
  and \<^verbatim>\<open>zmq/Subscriber\<close>.

  The message library and the curve library are parameters: a record of functions over the state of
  one socket of the library.  What the properties rely on are the hypotheses \<open>zmq_sends\<close>,
  \<open>zmq_delivers\<close> and \<open>curve_maps_agree\<close>.  The number of sockets of the library that are open
  is threaded through every operation that opens or closes one.  Log lines are left out.
\<close>

section \<open>Model\<close>

subsection \<open>The libraries\<close>

datatype zmq_type = ZMQ_ROUTER | ZMQ_REQ | ZMQ_PUB | ZMQ_SUB

datatype zmq_opt = CURVE_PUBLICKEY | CURVE_SECRETKEY | CURVE_SERVER | CURVE_SERVERKEY | SUBSCRIBE

text \<open>A frame, or an error with whether it means that no message is there yet, and its text.\<close>

datatype zmq_recv = RecvFrame bytes | RecvError bool string

record 's zmqlib =
  zl_socket :: "zmq_type \<Rightarrow> 's option"
  zl_setsockopt :: "zmq_opt \<Rightarrow> bytes \<Rightarrow> 's \<Rightarrow> bool \<times> 's"
  zl_bind :: "string \<Rightarrow> 's \<Rightarrow> string option \<times> 's"
  zl_connect :: "string \<Rightarrow> 's \<Rightarrow> string option \<times> 's"
  zl_send :: "bytes \<Rightarrow> bool \<Rightarrow> 's \<Rightarrow> (string + nat) \<times> 's"
  zl_recv :: "'s \<Rightarrow> zmq_recv \<times> 's"
  zl_fd :: "'s \<Rightarrow> int option"

record curvelib =
  sk_to_curve25519 :: "bytes \<Rightarrow> bytes option"
  pk_to_curve25519 :: "bytes \<Rightarrow> bytes option"
  scalarmult_base :: "bytes \<Rightarrow> bytes option"
  curve_keypair :: "(string \<times> string) option"

subsection \<open>Context\<close>

text \<open>The handle of a context, null when the library gave none, and the number of contexts that are
  not destroyed.\<close>

definition Context_new :: "nat option \<Rightarrow> nat \<Rightarrow> nat option \<times> nat" where
  "Context_new created n = (created, if created = None then n else n + 1)"

definition Context_cleanup :: "nat option \<Rightarrow> nat \<Rightarrow> nat option \<times> nat" where
  "Context_cleanup ctx n = (case ctx of None \<Rightarrow> (None, n) | Some c \<Rightarrow> (None, n - 1))"

definition Context_assign :: "nat option \<Rightarrow> nat option \<Rightarrow> nat \<Rightarrow> nat option \<times> nat option \<times> nat" where
  "Context_assign rhs ctx n = (let (_, n) = Context_cleanup ctx n in (rhs, None, n))"

subsection \<open>Utilities\<close>

definition zmq_getFd :: "'s zmqlib \<Rightarrow> 's option \<Rightarrow> int" where
  "zmq_getFd z socket =
     (case socket of None \<Rightarrow> -1 | Some s \<Rightarrow> (case zl_fd z s of Some fd \<Rightarrow> fd | None \<Rightarrow> -1))"

text \<open>The keys a server socket is given: the public and the secret one.\<close>

definition serverCurve :: "'k openssl \<Rightarrow> curvelib \<Rightarrow> string \<Rightarrow> bytes \<Rightarrow> Details \<Rightarrow> Details + bytes \<times> bytes" where
  "serverCurve os c pop serverKey d =
     (if length serverKey \<noteq> 32 then
        Inl (setError EcInternalError ''zmq_curve'' (''Invalid server key length '' @ dec (length serverKey) @ ''.'') d)
      else
        let pubKey = privateToPublic os serverKey in
        if length pubKey \<noteq> 32 then
          Inl (setError EcInternalError ''zmq_curve''
                 (''Failed to convert ED25519 private key to public key: '' @ pop @ ''.'') d)
        else
          case sk_to_curve25519 c (serverKey @ pubKey) of
            None \<Rightarrow> Inl (setError EcInternalError ''zmq_curve'' ''Failed to convert ED25519 to X25519 with -1.'' d)
          | Some curveKey \<Rightarrow>
              (case scalarmult_base c curveKey of
                 None \<Rightarrow>
                   Inl (setError EcInternalError ''zmq_curve''
                          ''Failed to convert X25519 private key to public key with -1.'' d)
               | Some curvePub \<Rightarrow> Inr (curvePub, curveKey)))"

definition int_bytes :: "int \<Rightarrow> bytes" where
  "int_bytes i = map (\<lambda>j. word_of_int (i div 256 ^ j)) [0, 1, 2, 3]"

definition setupServerCurve ::
  "'s zmqlib \<Rightarrow> 'k openssl \<Rightarrow> curvelib \<Rightarrow> string \<Rightarrow> bytes \<Rightarrow> Details \<Rightarrow> 's \<Rightarrow> Details \<times> 's"
where
  "setupServerCurve z os c pop serverKey d s =
     (case serverCurve os c pop serverKey d of
        Inl d \<Rightarrow> (d, s)
      | Inr (curvePub, curveKey) \<Rightarrow>
          let (ok1, s) = zl_setsockopt z CURVE_PUBLICKEY curvePub s;
              (ok2, s) = zl_setsockopt z CURVE_SECRETKEY curveKey s;
              (ok3, s) = zl_setsockopt z CURVE_SERVER (int_bytes 1) s
          in (if ok1 \<and> ok2 \<and> ok3 then d
              else setError EcInternalError ''zmq_curve'' ''Failed to set CurveMQ parameters on server socket.'' d, s))"

definition bindSocket ::
  "'s zmqlib \<Rightarrow> 'k openssl \<Rightarrow> curvelib \<Rightarrow> string \<Rightarrow> bool \<Rightarrow> zmq_type \<Rightarrow> string \<Rightarrow> u16 \<Rightarrow> bytes \<Rightarrow> Details \<Rightarrow> nat
   \<Rightarrow> 's option \<times> Details \<times> nat"
where
  "bindSocket z os c pop ctx socketType host port serverKey d live =
     (let d = (if ctx then d else setError EcInternalError ''zmq_ctx'' ''No server comm context.'' d) in
      if \<not> isOk d then (None, d, live)
      else
        case zl_socket z socketType of
          None \<Rightarrow> (None, setError EcSocketError ''zmq_socket'' ''Failed to create server socket.'' d, live)
        | Some s \<Rightarrow>
            let live = live + 1;
                (d, s) = (if serverKey = [] then (d, s) else setupServerCurve z os c pop serverKey d s)
            in if \<not> isOk d then (None, d, live - 1)
               else
                 let address = ''tcp://'' @ (if host = [] then ''*'' else host) @ '':'' @ dec (unat port)
                 in case zl_bind z address s of
                      (None, s) \<Rightarrow> (Some s, d, live)
                    | (Some e, s) \<Rightarrow>
                        (None, setError EcConnectError ''zmq_bind''
                                 (''Failed to bind to '' @ [CHR 39] @ address @ [CHR 39] @ '': '' @ e @ ''.'') d, live - 1))"

definition setupClientCurve :: "'s zmqlib \<Rightarrow> curvelib \<Rightarrow> string \<Rightarrow> bytes \<Rightarrow> Details \<Rightarrow> 's \<Rightarrow> Details \<times> 's" where
  "setupClientCurve z c err serverKey d s =
     (if length serverKey \<noteq> 32 then
        (setError EcInternalError ''zmq_curve'' (''Invalid server key length '' @ dec (length serverKey) @ ''.'') d, s)
      else
        case pk_to_curve25519 c serverKey of
          None \<Rightarrow> (setError EcInternalError ''zmq_curve'' ''Failed to convert ED25519 to X25519 with -1.'' d, s)
        | Some serverCurveKey \<Rightarrow>
            (case curve_keypair c of
               None \<Rightarrow>
                 (setError EcInternalError ''zmq_curve''
                    (''Failed to generate ephemeral X25519 keypair: '' @ err @ ''.'') d, s)
             | Some (pub, priv) \<Rightarrow>
                 let (ok1, s) = zl_setsockopt z CURVE_PUBLICKEY (string_bytes pub) s;
                     (ok2, s) = zl_setsockopt z CURVE_SECRETKEY (string_bytes priv) s;
                     (ok3, s) = zl_setsockopt z CURVE_SERVERKEY serverCurveKey s
                 in (if ok1 \<and> ok2 \<and> ok3 then d
                     else setError EcInternalError ''zmq_curve''
                            ''Failed to set CurveMQ parameters on server socket.'' d, s)))"

definition connectSocket ::
  "'s zmqlib \<Rightarrow> curvelib \<Rightarrow> string \<Rightarrow> bool \<Rightarrow> zmq_type \<Rightarrow> string \<Rightarrow> u16 \<Rightarrow> bytes \<Rightarrow> Details \<Rightarrow> nat
   \<Rightarrow> 's option \<times> Details \<times> nat"
where
  "connectSocket z c err ctx socketType host port serverKey d live =
     (let d = (if ctx then d else setError EcInternalError ''zmq_ctx'' ''No client comm context.'' d) in
      if \<not> isOk d then (None, d, live)
      else
        case zl_socket z socketType of
          None \<Rightarrow> (None, setError EcSocketError ''zmq_socket'' ''Failed to create new client socket.'' d, live)
        | Some s \<Rightarrow>
            let live = live + 1;
                (d, s) = (if serverKey = [] then (d, s) else setupClientCurve z c err serverKey d s)
            in if \<not> isOk d then (None, d, live - 1)
               else
                 let address = ''tcp://'' @ host @ '':'' @ dec (unat port)
                 in case zl_connect z address s of
                      (None, s) \<Rightarrow> (Some s, d, live)
                    | (Some e, s) \<Rightarrow>
                        (None, setError EcConnectError ''zmq_socket''
                                 (''Failed to connect to '' @ [CHR 39] @ address @ [CHR 39] @ '': '' @ e @ ''.'') d, live - 1))"

subsection \<open>Server\<close>

text \<open>\<open>ctx\<close> tells whether the pointer to the context is set.\<close>

record 's Server =
  ctx :: bool
  socket :: "'s option"

definition Server_new :: "'s Server" where
  "Server_new = \<lparr>ctx = True, socket = None\<rparr>"

text \<open>\<open>live\<close> counts the sockets that were opened and not yet handed to \<^verbatim>\<open>zmq_close\<close>.  Its result is only logged; it
  fails for a pointer that is no socket, and the member holds only what \<^verbatim>\<open>zmq_socket\<close> gave.\<close>

definition Server_close :: "'s Server \<Rightarrow> nat \<Rightarrow> 's Server \<times> nat" where
  "Server_close x live = (case socket x of None \<Rightarrow> (x, live) | Some _ \<Rightarrow> (x\<lparr>socket := None\<rparr>, live - 1))"

definition Server_assign :: "'s Server \<Rightarrow> 's Server \<Rightarrow> nat \<Rightarrow> 's Server \<times> 's Server \<times> nat" where
  "Server_assign rhs x live =
     (let (x, live) = Server_close x live
      in (x\<lparr>ctx := ctx rhs, socket := socket rhs\<rparr>, rhs\<lparr>socket := None\<rparr>, live))"

definition Server_bind ::
  "'s zmqlib \<Rightarrow> 'k openssl \<Rightarrow> curvelib \<Rightarrow> string \<Rightarrow> string \<times> u16 \<times> bytes \<Rightarrow> Details \<Rightarrow> 's Server \<Rightarrow> nat
   \<Rightarrow> 's Server \<times> Details \<times> nat"
where
  "Server_bind z os c pop a d x live =
     (let (host, port, serverKey) = a;
          (x, live) = Server_close x live;
          (s, d, live) = bindSocket z os c pop (ctx x) ZMQ_ROUTER host port serverKey d live;
          x = x\<lparr>socket := s\<rparr>;
          (x, live) = (if isOk d then (x, live) else Server_close x live)
      in (x, d, live))"

text \<open>The three frames of a request: the client, an empty one and the data.  Each stage runs only while
  the details have no error.\<close>

definition recv_data :: "'s zmqlib \<Rightarrow> bytes \<Rightarrow> Details \<Rightarrow> 's \<Rightarrow> bytes \<times> Details \<times> 's" where
  "recv_data z data d s =
     (case zl_recv z s of
        (RecvError _ e, s) \<Rightarrow>
          (data, setError EcSocketError ''zmq_server'' (''Failed to read data frame: '' @ e @ ''.'') d, s)
      | (RecvFrame fr, s) \<Rightarrow> (fr, d, s))"

definition recv_delimiter :: "'s zmqlib \<Rightarrow> Details \<Rightarrow> 's \<Rightarrow> Details \<times> 's" where
  "recv_delimiter z d s =
     (case zl_recv z s of
        (RecvError _ e, s) \<Rightarrow>
          (setError EcSocketError ''zmq_server'' (''Failed to read delimiter frame: '' @ e @ ''.'') d, s)
      | (RecvFrame fr, s) \<Rightarrow>
          if fr \<noteq> [] then
            (setError EcProtocolError ''zmq_router''
               (''Expected null frame but received '' @ dec (length fr) @ '' bytes.'') d, snd (zl_recv z s))
          else (d, s))"

definition Server_recv ::
  "'s zmqlib \<Rightarrow> bytes \<Rightarrow> bytes \<Rightarrow> Details \<Rightarrow> 's Server \<Rightarrow> bool \<times> bytes \<times> bytes \<times> Details \<times> 's Server"
where
  "Server_recv z client data d x =
     (case socket x of
        None \<Rightarrow> (False, client, data, setError EcNotConnected ''zmq_server'' ''No server socket.'' d, x)
      | Some s \<Rightarrow>
          if \<not> isOk d then (False, client, data, d, x)
          else
            case zl_recv z s of
              (RecvError again e, s) \<Rightarrow>
                (False, client, data,
                 if again then d
                 else setError EcSocketError ''zmq_server'' (''Failed to read client ID: '' @ e @ ''.'') d,
                 x\<lparr>socket := Some s\<rparr>)
            | (RecvFrame client, s) \<Rightarrow>
                let (d, s) = recv_delimiter z d s;
                    (data, d, s) = (if isOk d then recv_data z data d s else (data, d, s));
                    d = (if isOk d \<and> client = []
                         then setError EcProtocolError ''zmq_clientid'' ''Empty ZMQ client ID.'' d else d)
                in (isOk d, client, data, d, x\<lparr>socket := Some s\<rparr>))"

text \<open>A reply: the frames that could not be sent are sent empty.\<close>

function reply_fill :: "'s zmqlib \<Rightarrow> nat \<Rightarrow> 's \<Rightarrow> 's" where
  "reply_fill z sent s =
     (if 0 < sent \<and> sent < 3 then reply_fill z (sent + 1) (snd (zl_send z [] (sent + 1 \<noteq> 3) s)) else s)"
  by pat_completeness auto
termination
  by (relation "measure (\<lambda>(z, sent, s). 3 - sent)") auto

definition reply_client :: "'s zmqlib \<Rightarrow> bytes \<Rightarrow> Details \<Rightarrow> 's \<Rightarrow> nat \<times> Details \<times> 's" where
  "reply_client z client d s =
     (case zl_send z client True s of
        (Inl e, s) \<Rightarrow>
          (0, setError EcWriteError ''zmq_reply'' (''Failed to send reply client ID: '' @ e @ ''.'') d, s)
      | (Inr n, s) \<Rightarrow>
          (1, if n \<noteq> length client then
                setError EcWriteError ''zmq_reply''
                  (''Failed to send full client ID ('' @ dec n @ ''/'' @ dec (length client) @ '' bytes sent).'') d
              else d, s))"

definition reply_delimiter :: "'s zmqlib \<Rightarrow> nat \<Rightarrow> Details \<Rightarrow> 's \<Rightarrow> nat \<times> Details \<times> 's" where
  "reply_delimiter z sent d s =
     (case zl_send z [] True s of
        (Inl e, s) \<Rightarrow>
          (sent, setError EcWriteError ''zmq_reply'' (''Failed to send delimiter frame: '' @ e @ ''.'') d, s)
      | (Inr n, s) \<Rightarrow> (sent + 1, d, s))"

definition reply_data :: "'s zmqlib \<Rightarrow> bytes \<Rightarrow> nat \<Rightarrow> Details \<Rightarrow> 's \<Rightarrow> nat \<times> Details \<times> 's" where
  "reply_data z data sent d s =
     (case zl_send z data False s of
        (Inl e, s) \<Rightarrow> (sent, setError EcWriteError ''zmq_reply'' (''Failed to send reply: '' @ e @ ''.'') d, s)
      | (Inr n, s) \<Rightarrow>
          (sent + 1, if n \<noteq> length data then
                setError EcWriteError ''zmq_reply''
                  (''Failed to send full reply ('' @ dec n @ ''/'' @ dec (length data) @ '' bytes sent).'') d
              else d, s))"

definition Server_reply :: "'s zmqlib \<Rightarrow> bytes \<Rightarrow> bytes \<Rightarrow> Details \<Rightarrow> 's Server \<Rightarrow> Details \<times> 's Server" where
  "Server_reply z client data d x =
     (case socket x of
        None \<Rightarrow> (setError EcNotConnected ''zmq_reply'' ''No server socket.'' d, x)
      | Some s \<Rightarrow>
          let d = (if isOk d \<and> client = []
                   then setError EcInternalError ''zmq_reply_clientid'' ''No client ID provided.'' d else d);
              (sent, d, s) = (if isOk d then reply_client z client d s else (0, d, s));
              (sent, d, s) = (if isOk d then reply_delimiter z sent d s else (sent, d, s));
              (sent, d, s) = (if isOk d then reply_data z data sent d s else (sent, d, s))
          in (d, x\<lparr>socket := Some (reply_fill z sent s)\<rparr>))"

definition Server_getFd :: "'s zmqlib \<Rightarrow> 's Server \<Rightarrow> int" where
  "Server_getFd z x = zmq_getFd z (socket x)"

subsection \<open>Client\<close>

record 's Client =
  cCtx :: bool
  cSocket :: "'s option"

definition Client_new :: "'s Client" where
  "Client_new = \<lparr>cCtx = True, cSocket = None\<rparr>"

definition Client_close :: "'s Client \<Rightarrow> nat \<Rightarrow> 's Client \<times> nat" where
  "Client_close x live = (case cSocket x of None \<Rightarrow> (x, live) | Some _ \<Rightarrow> (x\<lparr>cSocket := None\<rparr>, live - 1))"

definition Client_assign :: "'s Client \<Rightarrow> 's Client \<Rightarrow> nat \<Rightarrow> 's Client \<times> 's Client \<times> nat" where
  "Client_assign rhs x live =
     (let (x, live) = Client_close x live
      in (x\<lparr>cCtx := cCtx rhs, cSocket := cSocket rhs\<rparr>, rhs\<lparr>cSocket := None\<rparr>, live))"

definition Client_connect ::
  "'s zmqlib \<Rightarrow> curvelib \<Rightarrow> string \<Rightarrow> string \<times> u16 \<times> bytes \<Rightarrow> Details \<Rightarrow> 's Client \<Rightarrow> nat
   \<Rightarrow> 's Client \<times> Details \<times> nat"
where
  "Client_connect z c err a d x live =
     (let (host, port, serverKey) = a;
          (x, live) = Client_close x live;
          (s, d, live) = connectSocket z c err (cCtx x) ZMQ_REQ host port serverKey d live;
          x = x\<lparr>cSocket := s\<rparr>;
          (x, live) = (if isOk d then (x, live) else Client_close x live)
      in (x, d, live))"

definition Client_send :: "'s zmqlib \<Rightarrow> bytes \<Rightarrow> Details \<Rightarrow> 's Client \<Rightarrow> nat \<Rightarrow> Details \<times> 's Client \<times> nat" where
  "Client_send z data d x live =
     (let (d, x) =
        (case cSocket x of
           None \<Rightarrow> (setError EcNotConnected ''zmq_send'' ''Not connected to server.'' d, x)
         | Some s \<Rightarrow>
             if \<not> isOk d then (d, x)
             else
               case zl_send z data False s of
                 (Inl e, s) \<Rightarrow>
                   (setError EcWriteError ''zmq_send'' (''Failed to request to server: '' @ e @ ''.'') d,
                    x\<lparr>cSocket := Some s\<rparr>)
               | (Inr n, s) \<Rightarrow>
                   (if n \<noteq> length data then
                      setError EcWriteError ''zmq_send''
                        (''Failed to send full request ('' @ dec n @ ''/'' @ dec (length data) @ '' bytes sent).'') d
                    else d, x\<lparr>cSocket := Some s\<rparr>));
        (x, live) = (if isOk d then (x, live) else Client_close x live)
      in (d, x, live))"

definition Client_recv ::
  "'s zmqlib \<Rightarrow> bytes \<Rightarrow> Details \<Rightarrow> 's Client \<Rightarrow> nat \<Rightarrow> bool \<times> bytes \<times> Details \<times> 's Client \<times> nat"
where
  "Client_recv z data d x live =
     (let (bHasMessage, data, d, x) =
        (case cSocket x of
           None \<Rightarrow> (False, data, setError EcNotConnected ''zmq_recv'' ''Not connected to server.'' d, x)
         | Some s \<Rightarrow>
             if \<not> isOk d then (False, data, d, x)
             else
               case zl_recv z s of
                 (RecvError again e, s) \<Rightarrow>
                   (False, data,
                    if again then d
                    else setError EcReadError ''zmq_recv'' (''Error while reading response from server: '' @ e @ ''.'') d,
                    x\<lparr>cSocket := Some s\<rparr>)
               | (RecvFrame fr, s) \<Rightarrow> (True, fr, d, x\<lparr>cSocket := Some s\<rparr>));
        (x, live) = (if isOk d then (x, live) else Client_close x live)
      in (bHasMessage \<and> isOk d, data, d, x, live))"

subsection \<open>Publisher\<close>

record 's Publisher =
  pCtx :: bool
  pSocket :: "'s option"

definition Publisher_new :: "'s Publisher" where
  "Publisher_new = \<lparr>pCtx = True, pSocket = None\<rparr>"

definition Publisher_close :: "'s Publisher \<Rightarrow> nat \<Rightarrow> 's Publisher \<times> nat" where
  "Publisher_close x live = (case pSocket x of None \<Rightarrow> (x, live) | Some _ \<Rightarrow> (x\<lparr>pSocket := None\<rparr>, live - 1))"

definition Publisher_assign :: "'s Publisher \<Rightarrow> 's Publisher \<Rightarrow> nat \<Rightarrow> 's Publisher \<times> 's Publisher \<times> nat" where
  "Publisher_assign rhs x live =
     (let (x, live) = Publisher_close x live
      in (x\<lparr>pSocket := pSocket rhs, pCtx := pCtx rhs\<rparr>, rhs\<lparr>pSocket := None\<rparr>, live))"

definition Publisher_bind ::
  "'s zmqlib \<Rightarrow> 'k openssl \<Rightarrow> curvelib \<Rightarrow> string \<Rightarrow> string \<times> u16 \<times> bytes \<Rightarrow> Details \<Rightarrow> 's Publisher \<Rightarrow> nat
   \<Rightarrow> 's Publisher \<times> Details \<times> nat"
where
  "Publisher_bind z os c pop a d x live =
     (let (host, port, serverKey) = a;
          (x, live) = Publisher_close x live;
          (s, d, live) = bindSocket z os c pop (pCtx x) ZMQ_PUB host port serverKey d live;
          x = x\<lparr>pSocket := s\<rparr>;
          (x, live) = (if isOk d then (x, live) else Publisher_close x live)
      in (x, d, live))"

definition quoted :: "string \<Rightarrow> string" where
  "quoted t = [CHR 39] @ t @ [CHR 39]"

definition publish_topic :: "'s zmqlib \<Rightarrow> string \<Rightarrow> Details \<Rightarrow> 's \<Rightarrow> nat \<times> Details \<times> 's" where
  "publish_topic z topic d s =
     (case zl_send z (string_bytes topic) True s of
        (Inl e, s) \<Rightarrow>
          (0, setError EcWriteError ''zmq_publish''
                (''Failed to publish topic '' @ quoted topic @ '': '' @ e @ ''.'') d, s)
      | (Inr n, s) \<Rightarrow>
          (1, if n \<noteq> length topic then
                setError EcWriteError ''zmq_topic''
                  (''Failed to send full topic '' @ quoted topic @ '' ('' @ dec n @ ''/'' @ dec (length topic)
                   @ '' bytes sent).'') d
              else d, s))"

definition publish_data :: "'s zmqlib \<Rightarrow> string \<Rightarrow> bytes \<Rightarrow> nat \<Rightarrow> Details \<Rightarrow> 's \<Rightarrow> nat \<times> Details \<times> 's" where
  "publish_data z topic data sent d s =
     (case zl_send z data False s of
        (Inl e, s) \<Rightarrow>
          (sent, setError EcWriteError ''zmq_publish''
                   (''Failed to send event '' @ quoted topic @ '': '' @ e @ ''.'') d, s)
      | (Inr n, s) \<Rightarrow>
          (sent + 1, if n \<noteq> length data then
                setError EcWriteError ''zmq_publish''
                  (''Failed to send full event '' @ quoted topic @ '' ('' @ dec n @ ''/'' @ dec (length data)
                   @ '' bytes sent).'') d
              else d, s))"

definition Publisher_publish ::
  "'s zmqlib \<Rightarrow> string \<Rightarrow> bytes \<Rightarrow> Details \<Rightarrow> 's Publisher \<Rightarrow> Details \<times> 's Publisher"
where
  "Publisher_publish z topic data d x =
     (case pSocket x of
        None \<Rightarrow> (setError EcNotConnected ''zmq_publish'' ''No event socket.'' d, x)
      | Some s \<Rightarrow>
          let d = (if isOk d \<and> topic = [] then setError EcInternalError ''zmq_publish'' ''Empty topic.'' d else d);
              d = (if isOk d \<and> data = [] then setError EcInternalError ''zmq_publish'' ''No event data.'' d else d);
              (sent, d, s) = (if isOk d then publish_topic z topic d s else (0, d, s));
              (sent, d, s) = (if isOk d then publish_data z topic data sent d s else (sent, d, s));
              s = (if sent = 1 then snd (zl_send z [] False s) else s)
          in (d, x\<lparr>pSocket := Some s\<rparr>))"

subsection \<open>Subscriber\<close>

record 's Subscriber =
  sCtx :: bool
  sSocket :: "'s option"
  subscribed :: bool

definition Subscriber_new :: "'s Subscriber" where
  "Subscriber_new = \<lparr>sCtx = True, sSocket = None, subscribed = False\<rparr>"

definition Subscriber_close :: "'s Subscriber \<Rightarrow> nat \<Rightarrow> 's Subscriber \<times> nat" where
  "Subscriber_close x live =
     (case sSocket x of None \<Rightarrow> (x, live) | Some _ \<Rightarrow> (x\<lparr>sSocket := None, subscribed := False\<rparr>, live - 1))"

definition Subscriber_assign :: "'s Subscriber \<Rightarrow> 's Subscriber \<Rightarrow> nat \<Rightarrow> 's Subscriber \<times> 's Subscriber \<times> nat" where
  "Subscriber_assign rhs x live =
     (let (x, live) = Subscriber_close x live
      in (x\<lparr>sCtx := sCtx rhs, sSocket := sSocket rhs, subscribed := subscribed rhs\<rparr>, rhs\<lparr>sSocket := None\<rparr>, live))"

definition Subscriber_connect ::
  "'s zmqlib \<Rightarrow> curvelib \<Rightarrow> string \<Rightarrow> string \<times> u16 \<times> bytes \<Rightarrow> Details \<Rightarrow> 's Subscriber \<Rightarrow> nat
   \<Rightarrow> 's Subscriber \<times> Details \<times> nat"
where
  "Subscriber_connect z c err a d x live =
     (let (host, port, serverKey) = a;
          (x, live) = Subscriber_close x live;
          (s, d, live) = connectSocket z c err (sCtx x) ZMQ_SUB host port serverKey d live;
          x = x\<lparr>sSocket := s\<rparr>;
          (x, live) = (if isOk d then (x, live) else Subscriber_close x live)
      in (x, d, live))"

definition Subscriber_subscribe ::
  "'s zmqlib \<Rightarrow> string \<Rightarrow> string \<Rightarrow> Details \<Rightarrow> 's Subscriber \<Rightarrow> Details \<times> 's Subscriber"
where
  "Subscriber_subscribe z err topic d x =
     (case sSocket x of
        None \<Rightarrow> (setError EcNotConnected ''zmq_subscribe'' ''Not connected.'' d, x)
      | Some s \<Rightarrow>
          if \<not> isOk d then (d, x)
          else
            let (ok, s) = zl_setsockopt z SUBSCRIBE (string_bytes topic) s; x = x\<lparr>sSocket := Some s\<rparr>
            in if ok then (d, x\<lparr>subscribed := True\<rparr>)
               else (setError EcWriteError ''zmq_subscribe''
                       (''Failed to subscribe to topic '' @ quoted topic @ '': '' @ err @ ''.'') d, x))"

definition Subscriber_subscribeAll :: "'s zmqlib \<Rightarrow> string \<Rightarrow> Details \<Rightarrow> 's Subscriber \<Rightarrow> Details \<times> 's Subscriber" where
  "Subscriber_subscribeAll z err d x = Subscriber_subscribe z err [] d x"

definition Subscriber_recv ::
  "'s zmqlib \<Rightarrow> string \<Rightarrow> bytes \<Rightarrow> Details \<Rightarrow> 's Subscriber \<Rightarrow> bool \<times> string \<times> bytes \<times> Details \<times> 's Subscriber"
where
  "Subscriber_recv z topic data d x =
     (let d = (if sSocket x = None then setError EcNotConnected ''zmq_event'' ''Not connected.'' d else d);
          d = (if subscribed x then d else setError EcInternalError ''zmq_event'' ''Not subscribed.'' d)
      in case sSocket x of
           None \<Rightarrow> (False, topic, data, d, x)
         | Some s \<Rightarrow>
             if \<not> isOk d then (False, topic, data, d, x)
             else
               case zl_recv z s of
                 (RecvError again e, s) \<Rightarrow>
                   (False, topic, data,
                    if again then d
                    else setError EcReadError ''zmq_event''
                           (''Error while reading subscription topic from server: '' @ e @ ''.'') d,
                    x\<lparr>sSocket := Some s\<rparr>)
               | (RecvFrame fr, s) \<Rightarrow>
                   (case zl_recv z s of
                      (RecvError _ e, s) \<Rightarrow>
                        (False, bytes_string fr, data,
                         setError EcReadError ''zmq_event''
                           (''Error while reading subscription from server: '' @ e @ ''.'') d,
                         x\<lparr>sSocket := Some s\<rparr>)
                    | (RecvFrame data, s) \<Rightarrow> (True, bytes_string fr, data, d, x\<lparr>sSocket := Some s\<rparr>)))"

section \<open>Endpoints do not leak\<close>

text \<open>The contract the four classes share: closing gives up the socket, opening first closes, and a socket
  is held exactly when opening reported no error.\<close>

definition used :: "'s option \<Rightarrow> nat" where
  "used s = (if s = None then 0 else 1)"

datatype 'a endpoint_op = EpOpen 'a Details | EpClose

fun endpoint_step ::
  "('e \<Rightarrow> nat \<Rightarrow> 'e \<times> nat) \<Rightarrow> ('a \<Rightarrow> Details \<Rightarrow> 'e \<Rightarrow> nat \<Rightarrow> 'e \<times> Details \<times> nat) \<Rightarrow> 'e \<times> nat \<Rightarrow> 'a endpoint_op \<Rightarrow> 'e \<times> nat"
where
  "endpoint_step cl op (x, n) EpClose = cl x n"
| "endpoint_step cl op (x, n) (EpOpen a d) = (let (x, _, n) = op a d x n in (x, n))"

locale endpoint =
  fixes sock :: "'e \<Rightarrow> 's option"
    and close :: "'e \<Rightarrow> nat \<Rightarrow> 'e \<times> nat"
    and establish :: "'a \<Rightarrow> Details \<Rightarrow> 'e \<Rightarrow> nat \<Rightarrow> 'e \<times> Details \<times> nat"
  assumes close_law: "close e n = (e', n') \<Longrightarrow> sock e' = None \<and> n' = n - used (sock e)"
    and open_law: "establish a d e n = (e', d', n') \<Longrightarrow>
      n' = n - used (sock e) + used (sock e') \<and> (isOk d' \<longleftrightarrow> sock e' \<noteq> None)"
begin

lemma ep_step_live:
  assumes "used (sock (fst st)) \<le> snd st"
  shows "snd (endpoint_step close establish st e) - used (sock (fst (endpoint_step close establish st e))) = snd st - used (sock (fst st))
    \<and> used (sock (fst (endpoint_step close establish st e))) \<le> snd (endpoint_step close establish st e)"
proof (cases e)
  case (EpOpen a d)
  obtain x d' n where "establish a d (fst st) (snd st) = (x, d', n)" by (cases "establish a d (fst st) (snd st)")
  with open_law [OF this] EpOpen assms show ?thesis by (cases st; simp)
next
  case EpClose
  obtain x n where "close (fst st) (snd st) = (x, n)" by fastforce
  with close_law [OF this] EpClose assms show ?thesis by (cases st; simp add: used_def)
qed

lemma ep_run_live:
  assumes "used (sock (fst st)) \<le> snd st"
  shows "snd (foldl (endpoint_step close establish) st es) = snd st - used (sock (fst st)) + used (sock (fst (foldl (endpoint_step close establish) st es)))"
  using assms
proof (induction es arbitrary: st)
  case (Cons e es)
  have st: "snd (endpoint_step close establish st e) - used (sock (fst (endpoint_step close establish st e))) = snd st - used (sock (fst st))"
    "used (sock (fst (endpoint_step close establish st e))) \<le> snd (endpoint_step close establish st e)"
    using ep_step_live [OF Cons.prems, of e] by simp_all
  with Cons.IH [of "endpoint_step close establish st e"] show ?case by simp
qed simp

end

lemma bindSocket_live:
  assumes "bindSocket z os c pop cx t host port key d live = (s, d', live')"
  shows "live' = live + used s \<and> (isOk d' \<longleftrightarrow> s \<noteq> None)"
  using assms
  by (auto simp: bindSocket_def used_def Let_def split: if_splits option.splits prod.splits)

lemma connectSocket_live:
  assumes "connectSocket z c err cx t host port key d live = (s, d', live')"
  shows "live' = live + used s \<and> (isOk d' \<longleftrightarrow> s \<noteq> None)"
  using assms
  by (auto simp: connectSocket_def used_def Let_def split: if_splits option.splits prod.splits)

lemma Server_close_eq: "Server_close x n = (x\<lparr>socket := None\<rparr>, n - used (socket x))"
  by (cases x) (simp add: Server_close_def used_def split: option.splits)

lemma Client_close_eq: "Client_close x n = (x\<lparr>cSocket := None\<rparr>, n - used (cSocket x))"
  by (cases x) (simp add: Client_close_def used_def split: option.splits)

lemma Publisher_close_eq: "Publisher_close x n = (x\<lparr>pSocket := None\<rparr>, n - used (pSocket x))"
  by (cases x) (simp add: Publisher_close_def used_def split: option.splits)

lemma Subscriber_close_eq:
  "Subscriber_close x n =
     (x\<lparr>sSocket := None, subscribed := (if sSocket x = None then subscribed x else False)\<rparr>, n - used (sSocket x))"
  by (cases x) (simp add: Subscriber_close_def used_def split: option.splits)

interpretation srv: endpoint socket Server_close "Server_bind z os c pop"
  by unfold_locales
    (auto simp: Server_bind_def Server_close_eq used_def split: prod.splits if_splits dest!: bindSocket_live)

interpretation cli: endpoint cSocket Client_close "Client_connect z c err"
  by unfold_locales
    (auto simp: Client_connect_def Client_close_eq used_def split: prod.splits if_splits dest!: connectSocket_live)

interpretation pub: endpoint pSocket Publisher_close "Publisher_bind z os c pop"
  by unfold_locales
    (auto simp: Publisher_bind_def Publisher_close_eq used_def split: prod.splits if_splits dest!: bindSocket_live)

interpretation sub: endpoint sSocket Subscriber_close "Subscriber_connect z c err"
  by unfold_locales
    (auto simp: Subscriber_connect_def Subscriber_close_eq used_def split: prod.splits if_splits
      dest!: connectSocket_live)

lemma Server_recv_used: "used (socket (snd (snd (snd (snd (Server_recv z c0 b0 d x)))))) = used (socket x)"
  by (auto simp: Server_recv_def used_def Let_def split: option.splits if_splits prod.splits zmq_recv.splits)

lemma Server_reply_used: "used (socket (snd (Server_reply z client data d x))) = used (socket x)"
  by (auto simp: Server_reply_def used_def Let_def split: option.splits if_splits prod.splits)

text \<open>Claim C25.
  However often they are opened, reopened and closed, and whatever fails on the way, a server, a client, a
  publisher and a subscriber never leave a socket of the library open: as many are open as before,
  plus the one each object holds.\<close>

theorem endpoints_do_not_leak:
  "let (srv', n1) = foldl (endpoint_step Server_close (Server_bind z os c pop)) (Server_new, n) es;
       (cli', n2) = foldl (endpoint_step Client_close (Client_connect z c err)) (Client_new, n1) es;
       (pub', n3) = foldl (endpoint_step Publisher_close (Publisher_bind z os c pop)) (Publisher_new, n2) es;
       (sub', n4) = foldl (endpoint_step Subscriber_close (Subscriber_connect z c err)) (Subscriber_new, n3) es
   in n4 = n + used (socket srv') + used (cSocket cli') + used (pSocket pub') + used (sSocket sub')"
proof -
  have zero: "used (socket Server_new) = 0" "used (cSocket Client_new) = 0" "used (pSocket Publisher_new) = 0"
    "used (sSocket Subscriber_new) = 0"
    by (simp_all add: used_def Server_new_def Client_new_def Publisher_new_def Subscriber_new_def)
  show ?thesis
    using srv.ep_run_live [of "(Server_new, n)" z os c pop es]
      cli.ep_run_live [of "(Client_new, m)" z c err es for m]
      pub.ep_run_live [of "(Publisher_new, m)" z os c pop es for m]
      sub.ep_run_live [of "(Subscriber_new, m)" z c err es for m]
    by (simp add: zero case_prod_unfold Let_def)
qed

section \<open>Frames\<close>

text \<open>What the library documents of sending: a frame is taken whole or refused; a frame with more to
  come stays with the message under construction, and the last one completes it.  \<open>part\<close> is the message
  under construction and \<open>out\<close> the messages completed so far.\<close>

definition zmq_sends :: "'s zmqlib \<Rightarrow> ('s \<Rightarrow> bytes list) \<Rightarrow> ('s \<Rightarrow> bytes list list) \<Rightarrow> bool" where
  "zmq_sends z part out \<longleftrightarrow>
     (\<forall>s data more.
        case zl_send z data more s of
          (Inl e, s') \<Rightarrow> part s' = part s \<and> out s' = out s
        | (Inr n, s') \<Rightarrow>
            n = length data \<and>
            (if more then part s' = part s @ [data] \<and> out s' = out s
             else part s' = [] \<and> out s' = out s @ [part s @ [data]]))"

text \<open>An empty frame is never refused inside a message.\<close>

definition null_accepted :: "'s zmqlib \<Rightarrow> ('s \<Rightarrow> bytes list) \<Rightarrow> bool" where
  "null_accepted z part \<longleftrightarrow> (\<forall>s more. part s \<noteq> [] \<longrightarrow> isl (fst (zl_send z [] more s)) = False)"

text \<open>What it documents of receiving: the frames that arrived come one by one, the frames of a message
  next to each other.\<close>

definition zmq_delivers :: "'s zmqlib \<Rightarrow> ('s \<Rightarrow> bytes list) \<Rightarrow> bool" where
  "zmq_delivers z queue \<longleftrightarrow>
     (\<forall>s. case queue s of
            [] \<Rightarrow> (case zl_recv z s of (RecvError again e, s') \<Rightarrow> again \<and> queue s' = [] | _ \<Rightarrow> False)
          | fr # fs \<Rightarrow> (case zl_recv z s of (RecvFrame fr', s') \<Rightarrow> fr' = fr \<and> queue s' = fs | _ \<Rightarrow> False))"

lemma zmq_send_cases:
  assumes "zmq_sends z part out"
  obtains (refused) e s' where "zl_send z data mr s = (Inl e, s')" "part s' = part s" "out s' = out s"
  | (taken) s' where "zl_send z data mr s = (Inr (length data), s')"
      "part s' = (if mr then part s @ [data] else [])"
      "out s' = (if mr then out s else out s @ [part s @ [data]])"
proof -
  have law: "case zl_send z data mr s of
          (Inl e, s') \<Rightarrow> part s' = part s \<and> out s' = out s
        | (Inr n, s') \<Rightarrow>
            n = length data \<and>
            (if mr then part s' = part s @ [data] \<and> out s' = out s
             else part s' = [] \<and> out s' = out s @ [part s @ [data]])"
    using assms [unfolded zmq_sends_def, rule_format, of s data mr] .
  obtain r s' where r: "zl_send z data mr s = (r, s')" by fastforce
  show thesis
  proof (cases r)
    case (Inl e)
    with law r show thesis by (intro refused [of e s']) auto
  next
    case (Inr n)
    with law r show thesis by (intro taken [of s']) (auto split: if_splits)
  qed
qed

lemma zmq_null_taken:
  assumes "zmq_sends z part out" and "null_accepted z part" and "part s \<noteq> []"
  shows "\<exists>s'. zl_send z [] mr s = (Inr 0, s') \<and> part s' = (if mr then part s @ [[]] else [])
    \<and> out s' = (if mr then out s else out s @ [part s @ [[]]])"
proof (rule zmq_send_cases [OF assms(1), of "[]" mr s])
  fix e s' assume "zl_send z [] mr s = (Inl e, s')"
  moreover have "isl (fst (zl_send z [] mr s)) = False"
    using assms(2,3) unfolding null_accepted_def by blast
  ultimately show ?thesis by simp
qed auto

subsection \<open>Replies and events are whole messages\<close>

text \<open>A library over lists, which refuses long frames: an instance of the hypotheses.\<close>

type_synonym zmq_queues = "bytes list \<times> bytes list list \<times> bytes list"

definition plain_zmq :: "zmq_queues zmqlib" where
  "plain_zmq =
     \<lparr>zl_socket = (\<lambda>_. Some ([], [], [])),
      zl_setsockopt = (\<lambda>_ _ s. (True, s)),
      zl_bind = (\<lambda>_ s. (None, s)),
      zl_connect = (\<lambda>_ s. (None, s)),
      zl_send = (\<lambda>data mr (part, out, inq).
        if length data > 4 then (Inl ''Message too long'', (part, out, inq))
        else if mr then (Inr (length data), (part @ [data], out, inq))
        else (Inr (length data), ([], out @ [part @ [data]], inq))),
      zl_recv = (\<lambda>(part, out, inq).
        case inq of
          [] \<Rightarrow> (RecvError True ''Resource temporarily unavailable'', (part, out, inq))
        | fr # inq \<Rightarrow> (RecvFrame fr, (part, out, inq))),
      zl_fd = (\<lambda>_. Some 3)\<rparr>"

lemma plain_zmq_laws:
  "zmq_sends plain_zmq fst (fst \<circ> snd)" "null_accepted plain_zmq fst" "zmq_delivers plain_zmq (snd \<circ> snd)"
  by (auto simp: zmq_sends_def null_accepted_def zmq_delivers_def plain_zmq_def split: list.splits)

lemma reply_fill_simps:
  "reply_fill z 0 s = s" "reply_fill z 3 s = s" "reply_fill z 2 s = snd (zl_send z [] False s)"
  "reply_fill z (Suc 0) s = snd (zl_send z [] False (snd (zl_send z [] True s)))"
  by (simp_all add: reply_fill.simps [of z 0] reply_fill.simps [of z 3] reply_fill.simps [of z 2] reply_fill.simps [of z "Suc 0"])

lemma Server_reply_frames:
  assumes "zmq_sends z part out" and "null_accepted z part"
    and "socket x = Some s" and "part s = []" and "Server_reply z client data d x = (d', x')"
  shows "\<exists>s'. socket x' = Some s' \<and> part s' = [] \<and>
    (if isOk d' then out s' = out s @ [[client, [], data]]
     else out s' = out s \<or> out s' = out s @ [[client, [], []]])"
proof (cases "isOk d \<and> client \<noteq> []")
  case False
  then show ?thesis using assms(3-5) by (auto simp: Server_reply_def Let_def reply_fill_simps split: if_splits)
next
  case ok: True
  show ?thesis
  proof (rule zmq_send_cases [OF assms(1), of client True s])
    fix e s1 assume "zl_send z client True s = (Inl e, s1)" "part s1 = part s" "out s1 = out s"
    then show ?thesis using assms(3-5) ok
      by (auto simp: Server_reply_def reply_client_def Let_def reply_fill_simps)
  next
    fix s1 assume s1: "zl_send z client True s = (Inr (length client), s1)"
      "part s1 = (if True then part s @ [client] else [])" "out s1 = (if True then out s else out s @ [part s @ [client]])"
    then obtain s2 where s2: "zl_send z [] True s1 = (Inr 0, s2)" "part s2 = [client, []]" "out s2 = out s"
      using zmq_null_taken [OF assms(1,2), of s1 True] assms(4) by auto
    show ?thesis
    proof (rule zmq_send_cases [OF assms(1), of data False s2])
      fix e s3 assume s3: "zl_send z data False s2 = (Inl e, s3)" "part s3 = part s2" "out s3 = out s2"
      obtain s4 where "zl_send z [] False s3 = (Inr 0, s4)" "part s4 = []" "out s4 = out s @ [[client, [], []]]"
        using zmq_null_taken [OF assms(1,2), of s3 False] s2 s3 by auto
      with s1(1) s2(1) s3(1) ok assms(3,5) show ?thesis
        by (auto simp: Server_reply_def reply_client_def reply_delimiter_def reply_data_def Let_def
            reply_fill_simps numeral_2_eq_2 [symmetric])
    next
      fix s3 assume "zl_send z data False s2 = (Inr (length data), s3)"
        "part s3 = (if False then part s2 @ [data] else [])"
        "out s3 = (if False then out s2 else out s2 @ [part s2 @ [data]])"
      with s1(1) s2 ok assms(3,5) show ?thesis
        by (auto simp: Server_reply_def reply_client_def reply_delimiter_def reply_data_def Let_def
            reply_fill_simps numeral_3_eq_3 [symmetric])
    qed
  qed
qed

text \<open>A library that takes every frame; then a reply succeeds.\<close>

definition zmq_accepts :: "'s zmqlib \<Rightarrow> bool" where
  "zmq_accepts z \<longleftrightarrow> (\<forall>data mr s. \<not> isl (fst (zl_send z data mr s)))"

lemma null_accepted_if_accepts: "zmq_accepts z \<Longrightarrow> null_accepted z part"
  by (simp add: zmq_accepts_def null_accepted_def)

lemma zmq_accepts_send:
  assumes "zmq_sends z part out" and "zmq_accepts z"
  shows "\<exists>s'. zl_send z data mr s = (Inr (length data), s')"
proof (rule zmq_send_cases [OF assms(1), of data mr s])
  fix e s' assume "zl_send z data mr s = (Inl e, s')"
  moreover have "\<not> isl (fst (zl_send z data mr s))" using assms(2) unfolding zmq_accepts_def by blast
  ultimately show ?thesis by simp
qed auto

lemma Server_reply_ok:
  assumes "zmq_sends z part out" and "zmq_accepts z" and "socket x = Some s" and "isOk d" and "client \<noteq> []"
  shows "fst (Server_reply z client data d x) = d"
proof -
  obtain s1 where s1: "zl_send z client True s = (Inr (length client), s1)"
    using zmq_accepts_send [OF assms(1,2)] by blast
  obtain s2 where s2: "zl_send z [] True s1 = (Inr 0, s2)"
    using zmq_accepts_send [OF assms(1,2), of "[]"] by auto
  obtain s3 where "zl_send z data False s2 = (Inr (length data), s3)"
    using zmq_accepts_send [OF assms(1,2)] by blast
  with s1 s2 assms(3-5) show ?thesis
    by (simp add: Server_reply_def reply_client_def reply_delimiter_def reply_data_def)
qed

text \<open>The closing empty frame: the message is complete, or the library refused the frame.\<close>

lemma zmq_close_message:
  assumes "zmq_sends z part out"
  obtains s' where "snd (zl_send z [] False s) = s'" "part s' = []" "out s' = out s @ [part s @ [[]]]"
  | s' e where "zl_send z [] False s = (Inl e, s')" "snd (zl_send z [] False s) = s'" "part s' = part s" "out s' = out s"
  by (rule zmq_send_cases [OF assms, of "[]" False s]) auto

definition reply_result ::
  "'s zmqlib \<Rightarrow> ('s \<Rightarrow> bytes list) \<Rightarrow> ('s \<Rightarrow> bytes list list) \<Rightarrow> bytes \<Rightarrow> bytes \<Rightarrow> bool \<Rightarrow> 's \<Rightarrow> 's \<Rightarrow> bool"
where
  "reply_result z part out client data ok s s' \<longleftrightarrow>
     (if ok then part s' = [] \<and> out s' = out s @ [[client, [], data]]
      else part s' = [] \<and> out s' \<in> {out s, out s @ [[client, []]], out s @ [[client, [], []]]} \<or>
        out s' = out s \<and> part s' \<in> {[client], [client, []]} \<and> (\<exists>s0 e. zl_send z [] False s0 = (Inl e, s')))"

lemma reply_result_filled:
  assumes "zmq_sends z part out" and "out s1 = out s" and "part s1 \<in> {[client], [client, []]}"
  shows "reply_result z part out client data False s (snd (zl_send z [] False s1))"
  using assms(2,3) by (rule_tac zmq_close_message [OF assms(1), of s1]) (auto simp: reply_result_def)

lemma Server_reply_result:
  assumes z: "zmq_sends z part out" and x: "socket x = Some s" "part s = []" and r: "Server_reply z client data d x = (d', x')"
  shows "\<exists>s'. socket x' = Some s' \<and> reply_result z part out client data (isOk d') s s'"
proof (cases "isOk d \<and> client \<noteq> []")
  case False
  then show ?thesis using x r by (auto simp: Server_reply_def Let_def reply_fill_simps reply_result_def split: if_splits)
next
  case ok: True
  note defs = Server_reply_def reply_client_def reply_delimiter_def reply_data_def Let_def
  show ?thesis
  proof (rule zmq_send_cases [OF z, of client True s])
    fix e s1 assume "zl_send z client True s = (Inl e, s1)" "part s1 = part s" "out s1 = out s"
    then show ?thesis using x r ok by (auto simp: defs reply_fill_simps reply_result_def)
  next
    fix s1 assume s1: "zl_send z client True s = (Inr (length client), s1)" "part s1 = (if True then part s @ [client] else [])"
      "out s1 = (if True then out s else out s @ [part s @ [client]])"
    show ?thesis
    proof (rule zmq_send_cases [OF z, of "[]" True s1])
      fix e s2 assume s2: "zl_send z [] True s1 = (Inl e, s2)" "part s2 = part s1" "out s2 = out s1"
      obtain r3 s3 where s3: "zl_send z [] True s2 = (r3, s3)" "out s3 = out s" "part s3 \<in> {[client], [client, []]}"
        using s1 s2 x(2) by (rule_tac zmq_send_cases [OF z, of "[]" True s2]) auto
      from reply_result_filled [OF z this(2,3), of data] s1(1) s2(1) s3(1) x(1) r ok show ?thesis
        by (auto simp: defs reply_fill_simps)
    next
      fix s2 assume s2: "zl_send z [] True s1 = (Inr (length []), s2)" "part s2 = (if True then part s1 @ [[]] else [])"
        "out s2 = (if True then out s1 else out s1 @ [part s1 @ [[]]])"
      show ?thesis
      proof (rule zmq_send_cases [OF z, of data False s2])
        fix e s3 assume s3: "zl_send z data False s2 = (Inl e, s3)" "part s3 = part s2" "out s3 = out s2"
        from reply_result_filled [OF z, of s3 s client data] s1 s2 s3 x r ok show ?thesis
          by (auto simp: defs reply_fill_simps numeral_2_eq_2 [symmetric])
      next
        fix s3 assume "zl_send z data False s2 = (Inr (length data), s3)" "part s3 = (if False then part s2 @ [data] else [])"
          "out s3 = (if False then out s2 else out s2 @ [part s2 @ [data]])"
        with s1 s2 x r ok show ?thesis
          by (auto simp: defs reply_fill_simps reply_result_def numeral_3_eq_3 [symmetric])
      qed
    qed
  qed
qed

text \<open>Claim C23.
  What a reply leaves on the socket, whichever frame the library refuses: a success has sent exactly the client, an
  empty frame and the data.  A failure has sent nothing, or a complete message for that client without data, or, only
  if the library refused the closing empty frame too, the beginning of a message for that client.\<close>

theorem Server_reply_whole_message:
  assumes "zmq_sends z part out" and "socket x = Some s" and "part s = []" and "Server_reply z client data d x = (d', x')"
  shows "\<exists>s'. socket x' = Some s' \<and>
    (if isOk d' then part s' = [] \<and> out s' = out s @ [[client, [], data]]
     else part s' = [] \<and> out s' \<in> {out s, out s @ [[client, []]], out s @ [[client, [], []]]} \<or>
       out s' = out s \<and> part s' \<in> {[client], [client, []]} \<and> (\<exists>s0 e. zl_send z [] False s0 = (Inl e, s')))"
  using Server_reply_result [OF assms] unfolding reply_result_def .

theorem Server_reply_whole_message_witness:
  "\<exists>s' d' x'. Server_reply plain_zmq [7] [1, 2, 3, 4, 5] Details_new \<lparr>ctx = True, socket = Some ([], [], [])\<rparr> = (d', x') \<and>
     \<not> isOk d' \<and> socket x' = Some s' \<and> fst s' = [] \<and> fst (snd s') \<in> {[], [[[7], []]], [[[7], [], []]]}"
proof -
  let ?r = "Server_reply plain_zmq [7] [1, 2, 3, 4, 5] Details_new \<lparr>ctx = True, socket = Some ([], [], [])\<rparr>"
  obtain d' x' where r: "?r = (d', x')" by fastforce
  have bad: "\<not> isOk (fst ?r)"
    by (simp add: Server_reply_def reply_client_def reply_delimiter_def reply_data_def plain_zmq_def
        isOk_def setError_def ErrorStatus_set_def Details_new_def ErrorStatus_new_def reply_fill_simps)
  have never: "zl_send plain_zmq [] False s0 \<noteq> (Inl e, s')" for s0 e s'
    by (cases s0) (simp add: plain_zmq_def)
  from Server_reply_whole_message [OF plain_zmq_laws(1) _ _ r, of "([], [], [])"] bad r never
  show ?thesis by auto
qed

text \<open>A message that was left open is continued by the next reply: the first client receives what was meant for the
  second one.  The library of this example refuses long frames and closing empty frames.\<close>

definition stuck_zmq :: "zmq_queues zmqlib" where
  "stuck_zmq = plain_zmq\<lparr>zl_send := (\<lambda>data mr (part, out, inq).
     if length data > 4 \<or> data = [] \<and> \<not> mr then (Inl ''Interrupted'', (part, out, inq))
     else if mr then (Inr (length data), (part @ [data], out, inq))
     else (Inr (length data), ([], out @ [part @ [data]], inq)))\<rparr>"

lemma Server_reply_continues_open_message:
  "socket (snd (Server_reply stuck_zmq [8] [1] Details_new
      (snd (Server_reply stuck_zmq [7] [1, 2, 3, 4, 5] Details_new \<lparr>ctx = True, socket = Some ([], [], [])\<rparr>))))
    = Some ([], [[[7], [], [8], [], [1]]], [])"
  by (simp add: Server_reply_def reply_client_def reply_delimiter_def reply_data_def stuck_zmq_def isOk_def setError_def
      ErrorStatus_set_def Details_new_def ErrorStatus_new_def reply_fill_simps numeral_2_eq_2 [symmetric] numeral_3_eq_3 [symmetric])

lemma Publisher_publish_ok:
  assumes "zmq_sends z part out" and "pSocket x = Some s" and "part s = []"
    and "Publisher_publish z topic data d x = (d', x')" and "isOk d'"
  shows "\<exists>s'. pSocket x' = Some s' \<and> part s' = [] \<and> out s' = out s @ [[string_bytes topic, data]]"
proof -
  have ok: "isOk d" "topic \<noteq> []" "data \<noteq> []"
    using assms(2,4,5) by (auto simp: Publisher_publish_def Let_def split: if_splits)
  show ?thesis
  proof (rule zmq_send_cases [OF assms(1), of "string_bytes topic" True s])
    fix e s1 assume "zl_send z (string_bytes topic) True s = (Inl e, s1)"
    then show ?thesis using assms(2,4,5) ok by (auto simp: Publisher_publish_def publish_topic_def Let_def)
  next
    fix s1 assume s1: "zl_send z (string_bytes topic) True s = (Inr (length (string_bytes topic)), s1)"
      "part s1 = (if True then part s @ [string_bytes topic] else [])"
      "out s1 = (if True then out s else out s @ [part s @ [string_bytes topic]])"
    show ?thesis
    proof (rule zmq_send_cases [OF assms(1), of data False s1])
      fix e s2 assume "zl_send z data False s1 = (Inl e, s2)"
      then show ?thesis using assms(2,4,5) ok s1(1)
        by (auto simp: Publisher_publish_def publish_topic_def publish_data_def Let_def split: prod.splits if_splits)
    next
      fix s2 assume "zl_send z data False s1 = (Inr (length data), s2)"
        "part s2 = (if False then part s1 @ [data] else [])"
        "out s2 = (if False then out s1 else out s1 @ [part s1 @ [data]])"
      with assms(2-5) ok s1 show ?thesis
        by (auto simp: Publisher_publish_def publish_topic_def publish_data_def Let_def split: if_splits)
    qed
  qed
qed

text \<open>Publishing a list of events, and receiving a number of times.\<close>

fun publish_all :: "'s zmqlib \<Rightarrow> (string \<times> bytes) list \<Rightarrow> Details \<Rightarrow> 's Publisher \<Rightarrow> Details \<times> 's Publisher" where
  "publish_all z [] d x = (d, x)"
| "publish_all z ((topic, data) # es) d x =
     (let (d, x) = Publisher_publish z topic data d x in publish_all z es d x)"

fun recv_all :: "'s zmqlib \<Rightarrow> nat \<Rightarrow> Details \<Rightarrow> 's Subscriber \<Rightarrow> (string \<times> bytes) list" where
  "recv_all z 0 d x = []"
| "recv_all z (Suc n) d x =
     (let (got, topic, data, d, x) = Subscriber_recv z [] [] d x
      in if got then (topic, data) # recv_all z n d x else [])"

definition event_frames :: "string \<times> bytes \<Rightarrow> bytes list" where
  "event_frames ev = [string_bytes (fst ev), snd ev]"

lemma event_frames_pair: "event_frames (t, b) = [string_bytes t, b]"
  by (simp add: event_frames_def)

lemma Publisher_publish_bad: "\<not> isOk d \<Longrightarrow> \<not> isOk (fst (Publisher_publish z topic data d x))"
  by (simp add: Publisher_publish_def Let_def split: option.splits)

lemma publish_all_bad: "\<not> isOk d \<Longrightarrow> \<not> isOk (fst (publish_all z es d x))"
proof (induction es arbitrary: d x)
  case (Cons e es)
  then show ?case using Publisher_publish_bad [of d z "fst e" "snd e" x]
    by (cases e) (auto simp: Let_def split: prod.splits)
qed simp

lemma publish_all_frames:
  assumes "zmq_sends z part out" and "pSocket x = Some s" and "part s = []"
    and "publish_all z es d x = (d', x')" and "isOk d'"
  shows "\<exists>s'. pSocket x' = Some s' \<and> part s' = [] \<and> out s' = out s @ map event_frames es"
  using assms(2-5)
proof (induction es arbitrary: d x s)
  case (Cons e es)
  obtain t b where e: "e = (t, b)" by fastforce
  obtain d1 x1 where p: "Publisher_publish z t b d x = (d1, x1)" by fastforce
  have ok: "isOk d1"
    using Cons.prems(3,4) e p publish_all_bad [of d1 z es x1] by auto
  obtain s1 where s1: "pSocket x1 = Some s1" "part s1 = []" "out s1 = out s @ [[string_bytes t, b]]"
    using Publisher_publish_ok [OF assms(1) Cons.prems(1,2) p ok] by blast
  show ?case
    using Cons.IH [OF s1(1,2), of d1] Cons.prems(3,4) e p s1 by (auto simp: event_frames_def)
qed simp

lemma zmq_recv_nil:
  assumes "zmq_delivers z queue" and "queue s = []"
  obtains e s' where "zl_recv z s = (RecvError True e, s')" "queue s' = []"
  using assms(1) [unfolded zmq_delivers_def, THEN spec [of _ s]] assms(2) that
  by (auto split: prod.splits zmq_recv.splits)

lemma zmq_recv_cons:
  assumes "zmq_delivers z queue" and "queue s = fr # fs"
  obtains s' where "zl_recv z s = (RecvFrame fr, s')" "queue s' = fs"
  using assms(1) [unfolded zmq_delivers_def, THEN spec [of _ s]] assms(2) that
  by (auto split: prod.splits zmq_recv.splits)

lemma Subscriber_recv_event:
  assumes "zmq_delivers z queue" and "sSocket x = Some s" and "subscribed x" and "isOk d"
    and "queue s = string_bytes t # b # fs"
  shows "\<exists>s'. Subscriber_recv z t0 b0 d x = (True, t, b, d, x\<lparr>sSocket := Some s'\<rparr>) \<and> queue s' = fs"
proof -
  obtain s1 where s1: "zl_recv z s = (RecvFrame (string_bytes t), s1)" "queue s1 = b # fs"
    using zmq_recv_cons [OF assms(1,5)] by blast
  obtain s2 where "zl_recv z s1 = (RecvFrame b, s2)" "queue s2 = fs" using zmq_recv_cons [OF assms(1) s1(2)] by blast
  with s1 assms(2-4) show ?thesis by (intro exI [of _ s2]) (simp add: Subscriber_recv_def)
qed

lemma Subscriber_recv_none:
  assumes "zmq_delivers z queue" and "sSocket x = Some s" and "subscribed x" and "isOk d" and "queue s = []"
  shows "fst (Subscriber_recv z t0 b0 d x) = False"
proof -
  obtain e s' where "zl_recv z s = (RecvError True e, s')" using zmq_recv_nil [OF assms(1,5)] by blast
  with assms(2-4) show ?thesis by (simp add: Subscriber_recv_def)
qed

lemma recv_all_events:
  assumes "zmq_delivers z queue" and "sSocket x = Some s" and "subscribed x" and "isOk d"
    and "queue s = concat (map event_frames es)" and "length es \<le> n"
  shows "recv_all z n d x = es"
  using assms(2-6)
proof (induction es arbitrary: x s n)
  case Nil
  then show ?case
    using Subscriber_recv_none [OF assms(1) Nil.prems(1-3), of "[]" "[]"] by (cases n) (auto split: prod.splits)
next
  case (Cons e es)
  obtain t b m where e: "e = (t, b)" and n: "n = Suc m" using Cons.prems(5) by (cases e; cases n) auto
  have q: "queue s = string_bytes t # b # concat (map event_frames es)"
    using Cons.prems(4) e by (simp add: event_frames_pair)
  obtain s' where "Subscriber_recv z [] [] d x = (True, t, b, d, x\<lparr>sSocket := Some s'\<rparr>)" "queue s' = concat (map event_frames es)"
    using Subscriber_recv_event [OF assms(1) Cons.prems(1-3) q] by blast
  with Cons.IH [of "x\<lparr>sSocket := Some s'\<rparr>" s' m] Cons.prems e n show ?case by simp
qed

lemma prefix_string_bytes [simp]: "prefix (string_bytes u) (string_bytes t) \<longleftrightarrow> prefix u t"
proof
  assume "prefix (string_bytes u) (string_bytes t)"
  then have "prefix (bytes_string (string_bytes u)) (bytes_string (string_bytes t))"
    unfolding bytes_string_def by (rule map_mono_prefix)
  then show "prefix u t" by simp
next
  assume "prefix u t"
  then show "prefix (string_bytes u) (string_bytes t)" unfolding string_bytes_def by (rule map_mono_prefix)
qed

lemma filter_event_frames:
  "filter (\<lambda>m. \<exists>t\<in>set topics. prefix (string_bytes t) (hd m)) (map event_frames es) =
   map event_frames (filter (\<lambda>(t, _). \<exists>u\<in>set topics. prefix u t) es)"
  by (induction es) (auto simp: event_frames_def)

text \<open>Claim C24.
  Events published without an error reach a subscriber unchanged and in order.  What it receives are the
  published events whose topic starts with one of the topics it subscribed to, that is how the library
  matches: the empty topic of \<^verbatim>\<open>subscribeAll\<close> gives all of them.\<close>

theorem publish_subscribe:
  assumes "zmq_sends z part out" and "zmq_delivers z queue"
    and "pSocket p = Some s" and "part s = []" and "out s = []"
    and "publish_all z es Details_new p = (d', p')" and "isOk d'"
    and "sSocket x = Some r" and "subscribed x"
    and "queue r = concat (filter (\<lambda>m. \<exists>t\<in>set topics. prefix (string_bytes t) (hd m)) (out (the (pSocket p'))))"
  shows "recv_all z (length es) Details_new x =
    filter (\<lambda>(t, _). \<exists>u\<in>set topics. prefix u t) es"
proof -
  have out: "out (the (pSocket p')) = map event_frames es"
    using publish_all_frames [OF assms(1,3,4,6,7)] assms(5) by auto
  show ?thesis
    by (rule recv_all_events [OF assms(2,8,9)])
      (simp_all add: assms(10) out filter_event_frames isOk_def Details_new_def ErrorStatus_new_def)
qed

theorem publish_subscribe_witness:
  "recv_all plain_zmq (length [''Bl'', ''Tx'']) Details_new
     \<lparr>sCtx = True, sSocket = Some ([], [], [string_bytes ''Bl'', [1]]), subscribed = True\<rparr> = [(''Bl'', [1])]"
proof -
  let ?es = "[(''Bl'', [1 :: byte]), (''Tx'', [2])]" and ?p = "\<lparr>pCtx = True, pSocket = Some ([], [], [])\<rparr>"
  let ?p' = "\<lparr>pCtx = True, pSocket = Some ([], map event_frames ?es, [])\<rparr>"
  have pub: "publish_all plain_zmq ?es Details_new ?p = (Details_new, ?p')"
    by (simp add: Publisher_publish_def publish_topic_def publish_data_def plain_zmq_def isOk_def Details_new_def
        ErrorStatus_new_def event_frames_def string_bytes_def)
  show ?thesis
    using publish_subscribe [OF plain_zmq_laws(1,3), of ?p "([], [], [])" ?es Details_new ?p'
        "\<lparr>sCtx = True, sSocket = Some ([], [], [string_bytes ''Bl'', [1]]), subscribed = True\<rparr>"
        "([], [], [string_bytes ''Bl'', [1]])" "[''B'']"] pub
    by (simp add: isOk_def Details_new_def ErrorStatus_new_def event_frames_pair del: recv_all.simps publish_all.simps)
qed

subsection \<open>Requests\<close>

text \<open>Receiving a number of times, each with fresh details.\<close>

fun serve :: "'s zmqlib \<Rightarrow> nat \<Rightarrow> 's Server \<Rightarrow> (bytes \<times> bytes) list \<times> 's Server" where
  "serve z 0 x = ([], x)"
| "serve z (Suc n) x =
     (let (got, client, data, _, x) = Server_recv z [] [] Details_new x;
          (rs, x) = serve z n x
      in ((if got then [(client, data)] else []) @ rs, x))"

definition request_frames :: "bytes \<times> bytes \<Rightarrow> bytes list" where
  "request_frames r = [fst r, [], snd r]"

lemma request_frames_pair: "request_frames (c, b) = [c, [], b]"
  by (simp add: request_frames_def)

lemma Server_recv_request:
  assumes "zmq_delivers z queue" and "socket x = Some s" and "queue s = c # [] # b # fs" and "c \<noteq> []" and "isOk d"
  shows "\<exists>s'. Server_recv z c0 b0 d x = (True, c, b, d, x\<lparr>socket := Some s'\<rparr>) \<and> queue s' = fs"
proof -
  obtain s1 where s1: "zl_recv z s = (RecvFrame c, s1)" "queue s1 = [] # b # fs"
    using zmq_recv_cons [OF assms(1,3)] by blast
  obtain s2 where s2: "zl_recv z s1 = (RecvFrame [], s2)" "queue s2 = b # fs"
    using zmq_recv_cons [OF assms(1) s1(2)] by blast
  obtain s3 where "zl_recv z s2 = (RecvFrame b, s3)" "queue s3 = fs"
    using zmq_recv_cons [OF assms(1) s2(2)] by blast
  with s1(1) s2(1) assms(2,4,5) show ?thesis
    by (intro exI [of _ s3]) (simp add: Server_recv_def recv_delimiter_def recv_data_def)
qed

text \<open>A message whose second frame is not empty is refused, and one more frame is taken.\<close>

lemma Server_recv_malformed:
  assumes "zmq_delivers z queue" and "socket x = Some s" and "queue s = c # y # fs" and "y \<noteq> []" and "isOk d"
  shows "\<exists>d' s'. Server_recv z c0 b0 d x = (False, c, b0, d', x\<lparr>socket := Some s'\<rparr>) \<and> \<not> isOk d' \<and> queue s' = tl fs"
proof -
  obtain s1 where s1: "zl_recv z s = (RecvFrame c, s1)" "queue s1 = y # fs"
    using zmq_recv_cons [OF assms(1,3)] by blast
  obtain s2 where s2: "zl_recv z s1 = (RecvFrame y, s2)" "queue s2 = fs"
    using zmq_recv_cons [OF assms(1) s1(2)] by blast
  have "queue (snd (zl_recv z s2)) = tl fs"
  proof (cases fs)
    case Nil
    then obtain e s3 where "zl_recv z s2 = (RecvError True e, s3)" "queue s3 = []"
      using zmq_recv_nil [OF assms(1), of s2] s2(2) by blast
    with Nil show ?thesis by simp
  next
    case (Cons fr fs')
    then obtain s3 where "zl_recv z s2 = (RecvFrame fr, s3)" "queue s3 = fs'"
      using zmq_recv_cons [OF assms(1), of s2] s2(2) by blast
    with Cons show ?thesis by simp
  qed
  moreover have "\<exists>d'. Server_recv z c0 b0 d x = (False, c, b0, d', x\<lparr>socket := Some (snd (zl_recv z s2))\<rparr>) \<and> \<not> isOk d'"
    using s1(1) s2(1) assms(2,4,5) by (simp add: Server_recv_def recv_delimiter_def)
  ultimately show ?thesis by blast
qed

lemma serve_requests:
  assumes "zmq_delivers z queue" and "socket x = Some s" and "queue s = concat (map request_frames rs) @ fs"
    and "\<forall>r\<in>set rs. fst r \<noteq> []"
  shows "\<exists>s'. serve z (length rs) x = (rs, x\<lparr>socket := Some s'\<rparr>) \<and> queue s' = fs"
  using assms(2-4)
proof (induction rs arbitrary: x s)
  case Nil
  then show ?case by (intro exI [of _ s]) (cases x, simp)
next
  case (Cons r rs)
  obtain c b where r: "r = (c, b)" by fastforce
  have q: "queue s = c # [] # b # (concat (map request_frames rs) @ fs)" "c \<noteq> []"
    using Cons.prems(2,3) r by (simp_all add: request_frames_pair)
  obtain s1 where s1: "Server_recv z [] [] Details_new x = (True, c, b, Details_new, x\<lparr>socket := Some s1\<rparr>)"
    "queue s1 = concat (map request_frames rs) @ fs"
    using Server_recv_request [OF assms(1) Cons.prems(1) q isOk_new] by blast
  obtain s2 where "serve z (length rs) (x\<lparr>socket := Some s1\<rparr>) = (rs, x\<lparr>socket := Some s2\<rparr>)" "queue s2 = fs"
    using Cons.IH [of "x\<lparr>socket := Some s1\<rparr>" s1] s1(2) Cons.prems(3) by auto
  with s1 r show ?case by (intro exI [of _ s2]) simp
qed

lemma serve_shifted:
  assumes "zmq_delivers z queue" and "socket x = Some s"
    and "queue s = tl (concat (map request_frames rs))" and "\<forall>r\<in>set rs. snd r \<noteq> []"
  shows "fst (serve z (length rs) x) = []"
  using assms(2-4)
proof (induction rs arbitrary: x s)
  case (Cons r rs)
  obtain c b where r: "r = (c, b)" by fastforce
  have q: "queue s = [] # b # concat (map request_frames rs)" "b \<noteq> []"
    using Cons.prems(2,3) r by (simp_all add: request_frames_pair)
  obtain d' s1 where s1: "Server_recv z [] [] Details_new x = (False, [], [], d', x\<lparr>socket := Some s1\<rparr>)"
    "queue s1 = tl (concat (map request_frames rs))"
    using Server_recv_malformed [OF assms(1) Cons.prems(1) q isOk_new] by blast
  have "fst (serve z (length rs) (x\<lparr>socket := Some s1\<rparr>)) = []"
    using Cons.IH [of "x\<lparr>socket := Some s1\<rparr>" s1] s1(2) Cons.prems(3) by simp
  with s1 show ?case by (simp add: case_prod_unfold)
qed simp

text \<open>Requests that arrived whole are received unchanged and in order, and what follows them is left in
  place.\<close>

theorem Server_recv_in_order:
  assumes "zmq_delivers z queue" and "socket x = Some s" and "queue s = concat (map request_frames rs) @ fs"
    and "\<forall>r\<in>set rs. fst r \<noteq> []"
  shows "fst (serve z (length rs) x) = rs \<and> queue (the (socket (snd (serve z (length rs) x)))) = fs"
  using serve_requests [OF assms] by auto

theorem Server_recv_in_order_witness:
  "fst (serve plain_zmq (length [1::nat, 2]) \<lparr>ctx = True, socket = Some ([], [], [[7], [], [1], [8], [], [2], [9]])\<rparr>)
   = [([7], [1]), ([8], [2])]"
  using Server_recv_in_order [OF plain_zmq_laws(3),
      of "\<lparr>ctx = True, socket = Some ([], [], [[7], [], [1], [8], [], [2], [9]])\<rparr>"
        "([], [], [[7], [], [1], [8], [], [2], [9]])" "[([7], [1]), ([8], [2])]" "[[9]]"]
  by (simp add: request_frames_pair del: serve.simps)

text \<open>A message of two frames, which a peer without the empty delimiter sends, puts the server out of step: the
  frame it drops is the client of the next message, and every request waiting behind it is refused, whoever
  sent it.\<close>

theorem Server_recv_out_of_step:
  assumes "zmq_delivers z queue" and "socket x = Some s"
    and "queue s = [c, y] @ concat (map request_frames rs)" and "y \<noteq> []" and "\<forall>r\<in>set rs. snd r \<noteq> []"
  shows "fst (serve z (Suc (length rs)) x) = []"
proof -
  obtain d' s1 where s1: "Server_recv z [] [] Details_new x = (False, c, [], d', x\<lparr>socket := Some s1\<rparr>)"
    "queue s1 = tl (concat (map request_frames rs))"
    using Server_recv_malformed [OF assms(1,2) _ assms(4) isOk_new, of c "concat (map request_frames rs)" "[]" "[]"] assms(3)
    by auto
  have "fst (serve z (length rs) (x\<lparr>socket := Some s1\<rparr>)) = []"
    using serve_shifted [OF assms(1), of "x\<lparr>socket := Some s1\<rparr>" s1 rs] s1(2) assms(5) by simp
  with s1 show ?thesis by (simp add: case_prod_unfold)
qed

theorem Server_recv_out_of_step_witness:
  "fst (serve plain_zmq (Suc (length [1::nat])) \<lparr>ctx = True, socket = Some ([], [], [[6], [0], [7], [], [1]])\<rparr>) = []"
  using Server_recv_out_of_step [OF plain_zmq_laws(3), of "\<lparr>ctx = True, socket = Some ([], [], [[6], [0], [7], [], [1]])\<rparr>"
      "([], [], [[6], [0], [7], [], [1]])" "[6]" "[0]" "[([7], [1])]"]
  by (simp add: request_frames_pair del: serve.simps)

section \<open>Encrypted connections\<close>

text \<open>What the curve library documents: the two conversions map a signing key pair to one pair of the
  other curve.\<close>

definition curve_maps_agree :: "'k openssl \<Rightarrow> curvelib \<Rightarrow> bool" where
  "curve_maps_agree os c \<longleftrightarrow>
     (\<forall>priv pub sk. length priv = 32 \<and> privateToPublic os priv = pub \<and> sk_to_curve25519 c (priv @ pub) = Some sk \<longrightarrow>
        pk_to_curve25519 c pub = scalarmult_base c sk)"

text \<open>Options that are set stay set; \<open>opts\<close> are the options of a socket.\<close>

definition zmq_keeps_options :: "'s zmqlib \<Rightarrow> ('s \<Rightarrow> zmq_opt \<rightharpoonup> bytes) \<Rightarrow> bool" where
  "zmq_keeps_options z opts \<longleftrightarrow>
     (\<forall>k v s. fst (zl_setsockopt z k v s) \<longrightarrow> opts (snd (zl_setsockopt z k v s)) = (opts s)(k \<mapsto> v))"

lemma setsockopt_opts:
  assumes "zmq_keeps_options z opts" and "zl_setsockopt z k v s = (True, s')"
  shows "opts s' = (opts s)(k \<mapsto> v)"
  using assms(1) [unfolded zmq_keeps_options_def, rule_format, of k v s] assms(2) by simp

lemma setupServerCurve_opts:
  assumes "zmq_keeps_options z opts" and "isOk d" and "setupServerCurve z os c pop key d s = (d', s')" and "isOk d'"
  shows "\<exists>pub sk. serverCurve os c pop key d = Inr (pub, sk) \<and>
    opts s' = (opts s)(CURVE_PUBLICKEY \<mapsto> pub, CURVE_SECRETKEY \<mapsto> sk, CURVE_SERVER \<mapsto> int_bytes 1)"
proof (cases "serverCurve os c pop key d")
  case (Inl e)
  have "\<not> isOk e" using Inl by (auto simp: serverCurve_def Let_def split: if_splits option.splits)
  with Inl assms(3,4) show ?thesis by (simp add: setupServerCurve_def)
next
  case (Inr k)
  obtain pub sk where k: "k = (pub, sk)" by fastforce
  obtain ok1 s1 where s1: "zl_setsockopt z CURVE_PUBLICKEY pub s = (ok1, s1)" by fastforce
  obtain ok2 s2 where s2: "zl_setsockopt z CURVE_SECRETKEY sk s1 = (ok2, s2)" by fastforce
  obtain ok3 s3 where s3: "zl_setsockopt z CURVE_SERVER (int_bytes 1) s2 = (ok3, s3)" by fastforce
  have "ok1" "ok2" "ok3" "s' = s3"
    using assms(3,4) Inr k s1 s2 s3 by (auto simp: setupServerCurve_def split: if_splits)
  with s1 s2 s3 have "opts s' = (opts s)(CURVE_PUBLICKEY \<mapsto> pub, CURVE_SECRETKEY \<mapsto> sk, CURVE_SERVER \<mapsto> int_bytes 1)"
    using setsockopt_opts [OF assms(1)] by (metis (full_types))
  with Inr k show ?thesis by blast
qed

lemma setupClientCurve_opts:
  assumes "zmq_keeps_options z opts" and "setupClientCurve z c err key d s = (d', s')" and "isOk d'"
  shows "opts s' CURVE_SERVERKEY = pk_to_curve25519 c key \<and> pk_to_curve25519 c key \<noteq> None"
proof -
  obtain sk pub priv where k: "length key = 32" "pk_to_curve25519 c key = Some sk" "curve_keypair c = Some (pub, priv)"
    using assms(2,3) by (auto simp: setupClientCurve_def split: if_splits option.splits)
  obtain ok1 s1 where s1: "zl_setsockopt z CURVE_PUBLICKEY (string_bytes pub) s = (ok1, s1)" by fastforce
  obtain ok2 s2 where s2: "zl_setsockopt z CURVE_SECRETKEY (string_bytes priv) s1 = (ok2, s2)" by fastforce
  obtain ok3 s3 where s3: "zl_setsockopt z CURVE_SERVERKEY sk s2 = (ok3, s3)" by fastforce
  have "ok3" "s' = s3" using assms(2,3) k s1 s2 s3 by (auto simp: setupClientCurve_def split: if_splits)
  with s3 setsockopt_opts [OF assms(1), of CURVE_SERVERKEY sk s2 s3] k show ?thesis by simp
qed

text \<open>Claim C22.
  A server set up with a private signing key and a client set up with the matching public key agree on the
  key of the server on the other curve, so that the encrypted handshake of the library is with that server.\<close>

theorem curve_keys_agree:
  assumes "curve_maps_agree os c" and "zmq_keeps_options z opts" and "isOk d1" and "isOk d2"
    and "setupServerCurve z os c pop priv d1 s = (d1', s')" and "isOk d1'"
    and "setupClientCurve z c err (privateToPublic os priv) d2 r = (d2', r')" and "isOk d2'"
  shows "opts r' CURVE_SERVERKEY = opts s' CURVE_PUBLICKEY \<and> opts s' CURVE_PUBLICKEY \<noteq> None"
proof -
  obtain pub sk where k: "serverCurve os c pop priv d1 = Inr (pub, sk)" "opts s' CURVE_PUBLICKEY = Some pub"
    using setupServerCurve_opts [OF assms(2,3,5,6)] by auto
  then have "length priv = 32" "sk_to_curve25519 c (priv @ privateToPublic os priv) = Some sk" "scalarmult_base c sk = Some pub"
    by (auto simp: serverCurve_def Let_def split: if_splits option.splits)
  then have "pk_to_curve25519 c (privateToPublic os priv) = Some pub"
    using assms(1) [unfolded curve_maps_agree_def, rule_format, of priv] by simp
  with k setupClientCurve_opts [OF assms(2,7,8)] show ?thesis by simp
qed

definition plain_curve :: curvelib where
  "plain_curve =
     \<lparr>sk_to_curve25519 = (\<lambda>k. if length k = 64 then Some (drop 32 k) else None), pk_to_curve25519 = Some,
      scalarmult_base = Some, curve_keypair = Some (replicate 40 CHR ''p'', replicate 40 CHR ''s'')\<rparr>"

text \<open>The options of a socket as its state.\<close>

definition opts_zmq :: "(zmq_opt \<rightharpoonup> bytes) zmqlib" where
  "opts_zmq =
     \<lparr>zl_socket = (\<lambda>_. Some Map.empty), zl_setsockopt = (\<lambda>k v s. (True, s(k \<mapsto> v))), zl_bind = (\<lambda>_ s. (None, s)),
      zl_connect = (\<lambda>_ s. (None, s)), zl_send = (\<lambda>data _ s. (Inr (length data), s)),
      zl_recv = (\<lambda>s. (RecvError True [], s)), zl_fd = (\<lambda>_. None)\<rparr>"

theorem curve_keys_agree_witness:
  "snd (setupClientCurve opts_zmq plain_curve [] (privateToPublic plain_openssl (replicate 32 7)) Details_new Map.empty) CURVE_SERVERKEY
   = snd (setupServerCurve opts_zmq plain_openssl plain_curve [] (replicate 32 7) Details_new Map.empty) CURVE_PUBLICKEY"
proof -
  have maps: "curve_maps_agree plain_openssl plain_curve"
    by (auto simp: curve_maps_agree_def plain_curve_def split: if_splits)
  have keeps: "zmq_keeps_options opts_zmq id" by (simp add: zmq_keeps_options_def opts_zmq_def)
  have pub: "privateToPublic plain_openssl (replicate 32 7) = replicate 32 7"
    by (simp add: privateToPublic_def fromPrivate_def ossl_decode_def toPublic_def ossl_encode_def plain_openssl_def)
  have ok: "isOk (fst (setupClientCurve opts_zmq plain_curve [] (replicate 32 7) Details_new Map.empty))"
    "isOk (fst (setupServerCurve opts_zmq plain_openssl plain_curve [] (replicate 32 7) Details_new Map.empty))"
    by (simp_all add: setupClientCurve_def setupServerCurve_def serverCurve_def pub opts_zmq_def plain_curve_def Let_def)
  show ?thesis
    using curve_keys_agree [OF maps keeps, of Details_new Details_new "[]" "replicate 32 7" Map.empty _ _ "[]" Map.empty] ok
    by (simp add: pub case_prod_unfold) (metis prod.collapse)
qed

end
