(* ===== verification/FC_Api.thy ===== *)
theory FC_Api
  imports FC_Async FC_Zmq
begin

text \<open>
  Messages and the request port: \<^verbatim>\<open>pb/Catalog\<close>, \<^verbatim>\<open>pb/AnyMessage\<close>, \<^verbatim>\<open>pb/Json\<close>, \<^verbatim>\<open>svc/api/RequestScene\<close>,
  \<^verbatim>\<open>svc/api/ApiHandlerMap\<close> and \<^verbatim>\<open>svc/api/ApiPort\<close>.

  The message library is a parameter, a record of functions over messages of a type \<open>'m\<close>.  A coroutine
  that \<^verbatim>\<open>co_spawn\<close> was given is a step of its own: it starts in the order of spawning, and the
  handler it awaits may complete at any later time with any result.
\<close>

section \<open>Model\<close>

subsection \<open>The message library\<close>

text \<open>The envelopes have the fields of \<^verbatim>\<open>proto/comm\<close>.\<close>

record any_msg =
  type_url :: string
  any_value :: bytes

record Request =
  rqBody :: any_msg
  rqAuth :: "any_msg option"

record Response =
  rsCode :: int
  error_field :: "string option"
  error_string :: "string option"
  rsBody :: "any_msg option"
  rsAuth :: "any_msg option"

record Event =
  evBody :: any_msg
  evAuth :: "any_msg option"

text \<open>\<open>pb_name\<close> is the full name of the type of a message, \<open>pb_pack\<close> and \<open>pb_unpack\<close> convert to and from a
  message of any type, the latter into a given message.  Parsers give the text of their error, printers
  the text of the message or of their error.\<close>

record 'm pblib =
  pb_name :: "'m \<Rightarrow> string"
  pb_pack :: "'m \<Rightarrow> any_msg"
  pb_unpack :: "any_msg \<Rightarrow> 'm \<Rightarrow> 'm option"
  pb_parse_request :: "bytes \<Rightarrow> string + Request"
  pb_print_response :: "Response \<Rightarrow> string + string"
  pb_parse_event :: "bytes \<Rightarrow> string + Event"
  pb_print_event :: "Event \<Rightarrow> string + string"

subsection \<open>Catalog\<close>

record 'm Catalog =
  mapDefaults :: "(string, 'm) omap"
  mapIds :: "(string, u64) omap"

definition getTypeFromUrl :: "string \<Rightarrow> string" where
  "getTypeFromUrl url = (if take 3 url = ''fc/'' then drop 3 url else url)"

definition Catalog_registerMsg :: "'m pblib \<Rightarrow> u64 \<Rightarrow> 'm \<Rightarrow> 'm Catalog \<Rightarrow> 'm Catalog" where
  "Catalog_registerMsg pb tid msg c =
     (let type = pb_name pb msg
      in c\<lparr>mapIds := om_put type tid (mapIds c), mapDefaults := om_put type msg (mapDefaults c)\<rparr>)"

definition Catalog_getTypeId :: "string \<Rightarrow> 'm Catalog \<Rightarrow> u64" where
  "Catalog_getTypeId type c = (case om_find (mapIds c) (getTypeFromUrl type) of None \<Rightarrow> 0 | Some tid \<Rightarrow> tid)"

definition Catalog_getMsgTypeId :: "'m pblib \<Rightarrow> 'm \<Rightarrow> 'm Catalog \<Rightarrow> u64" where
  "Catalog_getMsgTypeId pb msg c = Catalog_getTypeId (pb_name pb msg) c"

text \<open>A new message of a type is equal to the default instance of the type.\<close>

definition Catalog_newMsg :: "string \<Rightarrow> 'm Catalog \<Rightarrow> 'm option" where
  "Catalog_newMsg type c = om_find (mapDefaults c) (getTypeFromUrl type)"

definition Catalog_cleanup :: "'m Catalog \<Rightarrow> 'm Catalog" where
  "Catalog_cleanup c = c\<lparr>mapIds := om_empty, mapDefaults := om_empty\<rparr>"

subsection \<open>AnyMessage and Json\<close>

definition fromAny :: "'m pblib \<Rightarrow> 'm Catalog \<Rightarrow> any_msg \<Rightarrow> Details \<Rightarrow> 'm option \<times> Details" where
  "fromAny pb c input d =
     (let type = type_url input; output = Catalog_newMsg type c;
          d = (if output = None
               then setError EcInternalError ''from_any'' (''Unknown message type '' @ quoted type @ ''.'') d else d)
      in case output of
           None \<Rightarrow> (None, d)
         | Some m \<Rightarrow>
             if \<not> isOk d then (Some m, d)
             else
               case pb_unpack pb input m of
                 Some m' \<Rightarrow> (Some m', d)
               | None \<Rightarrow>
                   (Some m, setError EcInternalError ''from_any'' (''Failed to deserialize any '' @ quoted type @ ''.'') d))"

definition toAny :: "'m pblib \<Rightarrow> 'm \<Rightarrow> any_msg" where
  "toAny pb input = pb_pack pb input"

text \<open>What the caller passes as the message is what the parser leaves in it; a failed parse leaves the
  message given.\<close>

definition fromJson :: "(bytes \<Rightarrow> string + 'e) \<Rightarrow> bytes \<Rightarrow> 'e \<Rightarrow> Details \<Rightarrow> 'e \<times> Details" where
  "fromJson parse data msg d =
     (case parse data of
        Inr e \<Rightarrow> (e, d)
      | Inl err \<Rightarrow> (msg, setError EcInvalidMessageFormat ''json'' (''Failed to parse message: '' @ err) d))"

definition toJson :: "('e \<Rightarrow> string + string) \<Rightarrow> 'e \<Rightarrow> Details \<Rightarrow> string \<times> Details" where
  "toJson print msg d =
     (case print msg of
        Inl err \<Rightarrow> ([], setError EcInternalError ''json'' (''Failed to serialize message: '' @ err) d)
      | Inr data \<Rightarrow>
          (data, if data = [] then setError EcInternalError ''json'' ''Serialized empty JSON message.'' d else d))"

subsection \<open>ApiHandlerMap\<close>

text \<open>Handlers are their names; the table is keyed by the type id.\<close>

definition ApiHandlerMap_get :: "u64 \<Rightarrow> (u64, 'h) omap \<Rightarrow> 'h option" where
  "ApiHandlerMap_get reqType handlers = om_find handlers reqType"

definition ApiHandlerMap_addType :: "u64 \<Rightarrow> 'h \<Rightarrow> (u64, 'h) omap \<Rightarrow> (u64, 'h) omap" where
  "ApiHandlerMap_addType reqType handler handlers = om_put reqType handler handlers"

definition ApiHandlerMap_add ::
  "'m pblib \<Rightarrow> u64 \<Rightarrow> 'm \<Rightarrow> 'h \<Rightarrow> (u64, 'h) omap \<times> 'm Catalog \<Rightarrow> (u64, 'h) omap \<times> 'm Catalog"
where
  "ApiHandlerMap_add pb tid dflt handler s =
     (ApiHandlerMap_addType tid handler (fst s), Catalog_registerMsg pb tid dflt (snd s))"

subsection \<open>RequestScene and IAuthenticator\<close>

record 'm RequestScene =
  deets :: Details
  reqMsg :: "'m option"

definition RequestScene_new :: "'m RequestScene" where
  "RequestScene_new = \<lparr>deets = Details_new, reqMsg = None\<rparr>"

definition RequestScene_setRequest :: "'m option \<Rightarrow> 'm RequestScene \<Rightarrow> 'm RequestScene" where
  "RequestScene_setRequest m x = x\<lparr>reqMsg := m\<rparr>"

definition RequestScene_isOk :: "'m RequestScene \<Rightarrow> bool" where
  "RequestScene_isOk x = isOk (deets x)"

definition RequestScene_setError :: "ErrorCode \<Rightarrow> string \<Rightarrow> string \<Rightarrow> 'm RequestScene \<Rightarrow> 'm RequestScene" where
  "RequestScene_setError code field msg x = x\<lparr>deets := setError code field msg (deets x)\<rparr>"

record 'm IAuthenticator =
  authenticateScene :: "any_msg \<Rightarrow> 'm RequestScene \<Rightarrow> 'm RequestScene"
  noAuth :: "'m RequestScene \<Rightarrow> 'm RequestScene"
  setResponseAuth :: "'m RequestScene \<Rightarrow> 'm RequestScene \<times> any_msg"

subsection \<open>ApiPort\<close>

text \<open>\<open>spawned\<close> are the requests whose coroutine has not started, \<open>awaiting\<close> those that await their handler,
  with the address of their scene.  The trove is shared with the rest of the service.\<close>

record ('s, 'm, 'h) ApiPort =
  apServer :: "'s Server"
  apSocket :: "unit UncontrolledSocket"
  requestId :: u64
  apAuthenticator :: "'m IAuthenticator option"
  spawned :: "(bytes \<times> bytes) list"
  awaiting :: "(nat \<times> bytes \<times> 'm RequestScene \<times> 'h) list"
  trove :: TreasureTrove

definition ApiPort_new :: "('s, 'm, 'h) ApiPort" where
  "ApiPort_new =
     \<lparr>apServer = Server_new, apSocket = UncontrolledSocket_new False, requestId = 0, apAuthenticator = None,
      spawned = [], awaiting = [], trove = []\<rparr>"

definition ApiPort_setAuthenticator :: "'m IAuthenticator option \<Rightarrow> ('s, 'm, 'h) ApiPort \<Rightarrow> ('s, 'm, 'h) ApiPort" where
  "ApiPort_setAuthenticator a x = x\<lparr>apAuthenticator := a\<rparr>"

text \<open>Reading: the flag tells whether another read is to be queued.\<close>

definition ApiPort_receive ::
  "'s zmqlib \<Rightarrow> Details \<Rightarrow> ('s, 'm, 'h) ApiPort \<Rightarrow> bool \<times> Details \<times> ('s, 'm, 'h) ApiPort"
where
  "ApiPort_receive z d x =
     (if \<not> isOk d then
        (False, setError EcSocketError ''api_port_read'' ''Received error when reading on API port.'' d, x)
      else
        let (bHasMessage, clientId, message, d, server) = Server_recv z [] [] d (apServer x);
            x = x\<lparr>apServer := server\<rparr>
        in if \<not> isOk d then
             (False, setError EcReadError ''api_port_read'' ''Received error when reading message on API port.'' d, x)
           else (True, d, if bHasMessage then x\<lparr>spawned := spawned x @ [(clientId, message)]\<rparr> else x))"

text \<open>The details are passed on by reference; a socket that keeps the callback for later moves them out.\<close>

partial_function (option) ApiPort_read ::
  "'s zmqlib \<Rightarrow> Details \<Rightarrow> ('s, 'm, 'h) ApiPort \<Rightarrow> (Details \<times> ('s, 'm, 'h) ApiPort) option"
where
  "ApiPort_read z d x =
     (case ApiPort_receive z d x of (again, d, x) \<Rightarrow>
      if \<not> again then Some (d, x)
      else
        case UncontrolledSocket_read d () (apSocket x) of (called, sock) \<Rightarrow>
        (case called of
           None \<Rightarrow> Some (Details_moved d, x\<lparr>apSocket := sock\<rparr>)
         | Some (_, d) \<Rightarrow> ApiPort_read z d (x\<lparr>apSocket := sock\<rparr>)))"

text \<open>An event of the descriptor.\<close>

definition ApiPort_ready :: "'s zmqlib \<Rightarrow> asio_error \<Rightarrow> ('s, 'm, 'h) ApiPort \<Rightarrow> ('s, 'm, 'h) ApiPort option" where
  "ApiPort_ready z e x =
     (case UncontrolledSocket_event e (apSocket x) of (called, sock) \<Rightarrow>
      let x = x\<lparr>apSocket := sock\<rparr>
      in case called of None \<Rightarrow> Some x | Some (_, d) \<Rightarrow> map_option snd (ApiPort_read z d x))"

text \<open>A descriptor the library could not give is a socket that is not open.\<close>

definition ApiPort_openPort ::
  "'s zmqlib \<Rightarrow> 'k openssl \<Rightarrow> curvelib \<Rightarrow> string \<Rightarrow> u16 \<Rightarrow> bytes \<Rightarrow> ('s, 'm, 'h) ApiPort \<Rightarrow> nat
   \<Rightarrow> (bool \<times> ('s, 'm, 'h) ApiPort \<times> nat) option"
where
  "ApiPort_openPort z os c pop port serverKey x live =
     (let (server, d, live) = Server_bind z os c pop ([], port, serverKey) Details_new (apServer x) live;
          x = x\<lparr>apServer := server\<rparr>
      in if \<not> isOk d then Some (False, x, live)
         else
           let fd = Server_getFd z server;
               x = x\<lparr>apSocket := UncontrolledSocket_new (fd \<noteq> -1)\<rparr>
           in case UncontrolledSocket_read d () (apSocket x) of (called, sock) \<Rightarrow>
              let x = x\<lparr>apSocket := sock\<rparr>
              in (case called of
                    None \<Rightarrow> Some (isOk (Details_moved d), x, live)
                  | Some (_, d) \<Rightarrow> map_option (\<lambda>(d, x). (isOk d, x, live)) (ApiPort_read z d x)))"

text \<open>How a task ends: a reference to a null pointer, a loop that never ends, or normally.\<close>

datatype 'a task = TaskFault | TaskHang | TaskDone 'a

definition response_error :: "Details \<Rightarrow> Response \<Rightarrow> Response" where
  "response_error d rsp =
     rsp\<lparr>error_field := (if errorField d = [] then error_field rsp else Some (errorField d)),
         error_string := (if errorStr d = [] then error_string rsp else Some (errorStr d)),
         rsCode := ErrorCode_value (errorCode d)\<rparr>"

definition Response_new :: Response where
  "Response_new = \<lparr>rsCode = 0, error_field = None, error_string = None, rsBody = None, rsAuth = None\<rparr>"

definition Request_new :: Request where
  "Request_new = \<lparr>rqBody = \<lparr>type_url = [], any_value = []\<rparr>, rqAuth = None\<rparr>"

definition build_response ::
  "'m pblib \<Rightarrow> 'm IAuthenticator option \<Rightarrow> 'm RequestScene \<Rightarrow> 'm option \<Rightarrow> Response"
where
  "build_response pb a scene msg =
     (let rsp = Response_new;
          rsp = (case msg of
                   Some m \<Rightarrow> if RequestScene_isOk scene then rsp\<lparr>rsBody := Some (toAny pb m)\<rparr> else rsp
                 | None \<Rightarrow> rsp);
          (scene, rsp) =
            (case a of
               Some au \<Rightarrow> (let (scene, auth) = setResponseAuth au scene in (scene, rsp\<lparr>rsAuth := Some auth\<rparr>))
             | None \<Rightarrow> (scene, rsp))
      in if RequestScene_isOk scene then rsp\<lparr>rsCode := ErrorCode_value EcNone\<rparr>
         else response_error (deets scene) rsp)"

definition handleResponse ::
  "'s zmqlib \<Rightarrow> 'm pblib \<Rightarrow> nat \<Rightarrow> 'm RequestScene \<Rightarrow> bytes \<Rightarrow> 'm option \<Rightarrow> ('s, 'm, 'h) ApiPort
   \<Rightarrow> ('s, 'm, 'h) ApiPort task"
where
  "handleResponse z pb addr scene client msg x =
     (case reqMsg scene of
        None \<Rightarrow> TaskFault
      | Some _ \<Rightarrow>
          let rsp = build_response pb (apAuthenticator x) scene msg;
              (rspJson, d) = toJson (pb_print_response pb) rsp Details_new;
              (d, server) = Server_reply z client (string_bytes rspJson) d (apServer x)
          in case TreasureTrove_cleanup addr (trove x) of
               None \<Rightarrow> TaskHang
             | Some tr \<Rightarrow> TaskDone (x\<lparr>apServer := server, trove := tr\<rparr>))"

text \<open>The request in the envelope, if any, and the scene after authentication.\<close>

definition request_scene ::
  "'m pblib \<Rightarrow> 'm Catalog \<Rightarrow> 'm IAuthenticator option \<Rightarrow> bytes \<Rightarrow> 'm option \<times> 'm RequestScene"
where
  "request_scene pb c a msgData =
     (let (envelope, d) = fromJson (pb_parse_request pb) msgData Request_new Details_new;
          (request, d) = (if isOk d then fromAny pb c (rqBody envelope) d else (None, d));
          scene = RequestScene_new\<lparr>deets := d\<rparr>
      in (request,
          if \<not> RequestScene_isOk scene then scene
          else
            case (rqAuth envelope, a) of
              (Some auth, Some au) \<Rightarrow> authenticateScene au auth scene
            | (None, Some au) \<Rightarrow> noAuth au scene
            | _ \<Rightarrow> scene))"

definition handleRequest ::
  "'s zmqlib \<Rightarrow> 'm pblib \<Rightarrow> 'm Catalog \<Rightarrow> (u64, 'h) omap \<Rightarrow> nat \<Rightarrow> bytes \<Rightarrow> bytes \<Rightarrow> ('s, 'm, 'h) ApiPort
   \<Rightarrow> ('s, 'm, 'h) ApiPort task"
where
  "handleRequest z pb c handlers addr clientId msgData x =
     (let x = x\<lparr>requestId := requestId x + 1\<rparr>;
          (request, scene) = request_scene pb c (apAuthenticator x) msgData;
          (handler, scene) =
            (case request of
               Some m \<Rightarrow>
                 if \<not> RequestScene_isOk scene then (None, scene)
                 else
                   (case ApiHandlerMap_get (Catalog_getMsgTypeId pb m c) handlers of
                      Some h \<Rightarrow> (Some h, scene)
                    | None \<Rightarrow>
                        (None, RequestScene_setError EcUnknownCommand ''request_type''
                                 (''Unknown request type '' @ quoted ''%s'' @ ''.'') scene))
             | None \<Rightarrow> (None, scene));
          scene = RequestScene_setRequest request scene
      in case handler of
           None \<Rightarrow> handleResponse z pb addr scene clientId None x
         | Some h \<Rightarrow>
             TaskDone (x\<lparr>trove := TreasureTrove_add addr (trove x), awaiting := awaiting x @ [(addr, clientId, scene, h)]\<rparr>))"

subsection \<open>Events of the loop\<close>

text \<open>The descriptor is ready; the oldest spawned coroutine starts, with its scene at a new address; the
  handler of a running request completes with some details and a message.\<close>

datatype 'm api_event = ApReady | ApStart nat | ApFinish nat Details "'m option"

fun api_step ::
  "'s zmqlib \<Rightarrow> 'm pblib \<Rightarrow> 'm Catalog \<Rightarrow> (u64, 'h) omap \<Rightarrow> ('s, 'm, 'h) ApiPort \<Rightarrow> 'm api_event
   \<Rightarrow> ('s, 'm, 'h) ApiPort task"
where
  "api_step z pb c handlers x ApReady =
     (case ApiPort_ready z AsioOk x of None \<Rightarrow> TaskHang | Some x \<Rightarrow> TaskDone x)"
| "api_step z pb c handlers x (ApStart addr) =
     (case spawned x of
        [] \<Rightarrow> TaskDone x
      | (client, data) # rest \<Rightarrow> handleRequest z pb c handlers addr client data (x\<lparr>spawned := rest\<rparr>))"
| "api_step z pb c handlers x (ApFinish i d msg) =
     (if i < length (awaiting x) then
        case awaiting x ! i of (addr, client, scene, _) \<Rightarrow>
          handleResponse z pb addr (scene\<lparr>deets := d\<rparr>) client msg
            (x\<lparr>awaiting := take i (awaiting x) @ drop (Suc i) (awaiting x)\<rparr>)
      else TaskDone x)"

fun api_run ::
  "'s zmqlib \<Rightarrow> 'm pblib \<Rightarrow> 'm Catalog \<Rightarrow> (u64, 'h) omap \<Rightarrow> ('s, 'm, 'h) ApiPort \<Rightarrow> 'm api_event list
   \<Rightarrow> ('s, 'm, 'h) ApiPort task"
where
  "api_run z pb c handlers x [] = TaskDone x"
| "api_run z pb c handlers x (e # es) =
     (case api_step z pb c handlers x e of
        TaskDone x \<Rightarrow> api_run z pb c handlers x es
      | TaskFault \<Rightarrow> TaskFault
      | TaskHang \<Rightarrow> TaskHang)"

section \<open>Messages of any type\<close>

text \<open>What the message library promises: a packed message carries the name of its type behind the prefix of
  the build (\<^verbatim>\<open>cmake/patches/protobuf-uri-prefix.diff\<close>), and unpacks into a message of that type.\<close>

definition pb_packs :: "'m pblib \<Rightarrow> bool" where
  "pb_packs pb \<longleftrightarrow>
     (\<forall>m d. type_url (pb_pack pb m) = ''fc/'' @ pb_name pb m \<and>
            (pb_name pb d = pb_name pb m \<longrightarrow> pb_unpack pb (pb_pack pb m) d = Some m))"

definition catalog_ok :: "'m pblib \<Rightarrow> 'm Catalog \<Rightarrow> bool" where
  "catalog_ok pb c \<longleftrightarrow> (\<forall>t m. om_find (mapDefaults c) t = Some m \<longrightarrow> pb_name pb m = t)"

definition registered :: "'m pblib \<Rightarrow> 'm \<Rightarrow> 'm Catalog \<Rightarrow> bool" where
  "registered pb m c = (om_find (mapDefaults c) (pb_name pb m) \<noteq> None)"

definition Catalog_new :: "'m Catalog" where
  "Catalog_new = \<lparr>mapDefaults = om_empty, mapIds = om_empty\<rparr>"

lemma catalog_ok_ops [keeps]:
  "catalog_ok pb Catalog_new"
  "catalog_ok pb c \<Longrightarrow> catalog_ok pb (Catalog_registerMsg pb tid m c)"
  "catalog_ok pb (Catalog_cleanup c)"
  by (auto simp: catalog_ok_def Catalog_new_def Catalog_registerMsg_def Catalog_cleanup_def Let_def om_map_simps
      split: if_splits)

lemma fromAny_toAny [roundtrip]:
  assumes "pb_packs pb" and "catalog_ok pb c" and "registered pb m c" and "isOk d"
  shows "fromAny pb c (toAny pb m) d = (Some m, d)"
proof -
  obtain m0 where m0: "om_find (mapDefaults c) (pb_name pb m) = Some m0"
    using assms(3) by (auto simp: registered_def)
  then have "pb_name pb m0 = pb_name pb m" using assms(2) by (simp add: catalog_ok_def)
  then have "type_url (pb_pack pb m) = ''fc/'' @ pb_name pb m" "pb_unpack pb (pb_pack pb m) m0 = Some m"
    using assms(1) unfolding pb_packs_def by blast+
  with m0 assms(4) show ?thesis
    by (simp add: fromAny_def toAny_def Catalog_newMsg_def getTypeFromUrl_def)
qed

text \<open>Without registration nothing is created, so that the error leaves no message.\<close>

lemma fromAny_None_iff: "fst (fromAny pb c a d) = None \<longleftrightarrow> Catalog_newMsg (type_url a) c = None"
  by (auto simp: fromAny_def Let_def split: option.splits)

lemma fromAny_None_bad: "fst (fromAny pb c a d) = None \<Longrightarrow> \<not> isOk (snd (fromAny pb c a d))"
  by (auto simp: fromAny_def Let_def split: option.splits if_splits)

section \<open>Requests that fault\<close>

lemma request_scene_None:
  assumes "request_scene pb c a data = (request, scene)"
  shows "(request = None \<longleftrightarrow>
      (case pb_parse_request pb data of Inl _ \<Rightarrow> True | Inr r \<Rightarrow> Catalog_newMsg (type_url (rqBody r)) c = None))
    \<and> (request = None \<longrightarrow> \<not> RequestScene_isOk scene)"
proof (cases "pb_parse_request pb data")
  case (Inl e)
  with assms show ?thesis by (auto simp: request_scene_def fromJson_def RequestScene_isOk_def)
next
  case (Inr r)
  let ?f = "fromAny pb c (rqBody r) Details_new"
  have "request = fst ?f" using assms Inr by (simp add: request_scene_def fromJson_def case_prod_unfold Let_def)
  moreover have "\<not> RequestScene_isOk scene" if "fst ?f = None"
    using assms Inr fromAny_None_bad [OF that]
    by (auto simp: request_scene_def fromJson_def case_prod_unfold RequestScene_isOk_def Let_def split: if_splits)
  ultimately show ?thesis using Inr by (simp add: fromAny_None_iff)
qed

lemma handleResponse_fault_iff: "handleResponse z pb addr scene client msg x = TaskFault \<longleftrightarrow> reqMsg scene = None"
  by (auto simp: handleResponse_def Let_def split: option.splits prod.splits)

lemma handleRequest_fault_iff:
  "handleRequest z pb c handlers addr client data x = TaskFault \<longleftrightarrow>
   fst (request_scene pb c (apAuthenticator x) data) = None"
  by (auto simp: handleRequest_def Let_def handleResponse_fault_iff RequestScene_setRequest_def
      RequestScene_setError_def split: option.splits prod.splits if_splits)

text \<open>Claim C39.
  The coroutine of a request refers to a null pointer exactly when the bytes do not parse as a request, or name
  a type that is not registered: any client of the port can end the process.\<close>

theorem ApiPort_request_faults_iff:
  "handleRequest z pb c handlers addr client data x = TaskFault \<longleftrightarrow>
   (case pb_parse_request pb data of
      Inl _ \<Rightarrow> True
    | Inr r \<Rightarrow> om_find (mapDefaults c) (getTypeFromUrl (type_url (rqBody r))) = None)"
  using request_scene_None [of pb c "apAuthenticator x" data]
  by (cases "request_scene pb c (apAuthenticator x) data")
    (auto simp: handleRequest_fault_iff Catalog_newMsg_def split: sum.splits)

section \<open>Requests that hang\<close>

text \<open>The trove holds the scenes of the running requests, oldest first.\<close>

definition api_inv :: "('s, 'm, 'h) ApiPort \<Rightarrow> bool" where
  "api_inv x \<longleftrightarrow> trove x = map fst (awaiting x) \<and> distinct (map fst (awaiting x))
     \<and> (\<forall>r\<in>set (awaiting x). reqMsg (fst (snd (snd r))) \<noteq> None)"

text \<open>A new scene has an address of its own.\<close>

fun event_fresh :: "('s, 'm, 'h) ApiPort \<Rightarrow> 'm api_event \<Rightarrow> bool" where
  "event_fresh x (ApStart addr) = (addr \<notin> set (trove x))"
| "event_fresh x _ = True"

lemma handleResponse_done:
  assumes "handleResponse z pb addr scene client msg x = TaskDone x'"
  shows "awaiting x' = awaiting x \<and> TreasureTrove_cleanup addr (trove x) = Some (trove x')"
  using assms by (auto simp: handleResponse_def Let_def split: option.splits prod.splits)

lemma handleResponse_hang_iff:
  assumes "reqMsg scene \<noteq> None"
  shows "handleResponse z pb addr scene client msg x = TaskHang \<longleftrightarrow> trove x \<noteq> [] \<and> hd (trove x) \<noteq> addr"
  using assms
  by (auto simp: handleResponse_def Let_def TreasureTrove_cleanup_eq split: option.splits prod.splits)

lemma ApiPort_receive_keeps:
  assumes "ApiPort_receive z d x = (again, d', x')"
  shows "awaiting x' = awaiting x \<and> trove x' = trove x \<and> apSocket x' = apSocket x \<and>
    used (socket (apServer x')) = used (socket (apServer x))"
  using assms Server_recv_used [of z "[]" "[]" d "apServer x"]
  by (auto simp: ApiPort_receive_def Let_def split: if_splits prod.splits)

lemma ApiPort_read_keeps:
  assumes "ApiPort_read z d x = Some (d', x')"
  shows "awaiting x' = awaiting x \<and> trove x' = trove x \<and> used (socket (apServer x')) = used (socket (apServer x))"
proof -
  let ?P = "\<lambda>z d x r. awaiting (snd r) = awaiting x \<and> trove (snd r) = trove x \<and>
    used (socket (apServer (snd r))) = used (socket (apServer x))"
  have "?P z d x (d', x')"
  proof (rule ApiPort_read.raw_induct [where P = ?P and xa = "((z, d), x)" and y = "(d', x')", unfolded prod.case])
    fix f :: "'a zmqlib \<Rightarrow> Details \<Rightarrow> ('a, 'b, 'c) ApiPort \<Rightarrow> (Details \<times> ('a, 'b, 'c) ApiPort) option" and z d x r
    assume IH: "\<And>z d x r. f z d x = Some r \<Longrightarrow> ?P z d x r"
      and eq: "(case ApiPort_receive z d x of (again, d, x) \<Rightarrow>
        if \<not> again then Some (d, x)
        else
          case UncontrolledSocket_read d () (apSocket x) of (called, sock) \<Rightarrow>
          (case called of
             None \<Rightarrow> Some (Details_moved d, x\<lparr>apSocket := sock\<rparr>)
           | Some (_, d) \<Rightarrow> f z d (x\<lparr>apSocket := sock\<rparr>))) = Some r"
    obtain again d1 x1 where r: "ApiPort_receive z d x = (again, d1, x1)" by (cases "ApiPort_receive z d x")
    show "?P z d x r"
      using eq r ApiPort_receive_keeps [OF r] by (auto split: if_splits prod.splits option.splits dest!: IH)
  qed (rule assms)
  then show ?thesis by simp
qed

text \<open>Reading ends: a socket calls back at most once for an event it kept, and a closed one with an error.\<close>

lemma ApiPort_read_bad: "\<not> isOk d \<Longrightarrow> \<exists>r. ApiPort_read z d x = Some r"
  by (subst ApiPort_read.simps) (simp add: ApiPort_receive_def)

lemma ApiPort_read_calm:
  assumes "\<not> wantRead (apSocket x)"
  shows "\<exists>r. ApiPort_read z d x = Some r"
proof -
  obtain again d1 x1 where r: "ApiPort_receive z d x = (again, d1, x1)" by (cases "ApiPort_receive z d x")
  then have sock: "apSocket x1 = apSocket x" using ApiPort_receive_keeps by blast
  show ?thesis
  proof (cases "uOpen (apSocket x)")
    case True
    with assms r sock show ?thesis by (subst ApiPort_read.simps) (simp add: UncontrolledSocket_read_def)
  next
    case False
    let ?d = "setError EcConnectionError ''read'' ''Connection is not open.'' d1"
    have "\<exists>r. ApiPort_read z ?d (x1\<lparr>apSocket := apSocket x\<rparr>) = Some r" by (rule ApiPort_read_bad) simp
    then show ?thesis using assms r sock False
      by (subst ApiPort_read.simps) (simp add: UncontrolledSocket_read_def)
  qed
qed

lemma ApiPort_read_returns: "\<exists>r. ApiPort_read z d x = Some r"
proof -
  obtain again d1 x1 where r: "ApiPort_receive z d x = (again, d1, x1)" by (cases "ApiPort_receive z d x")
  obtain called sock where u: "UncontrolledSocket_read d1 () (apSocket x1) = (called, sock)" by fastforce
  have "called = None \<or> \<not> wantRead sock \<or> (\<exists>d2. called = Some ((), d2) \<and> \<not> isOk d2)"
    using u by (auto simp: UncontrolledSocket_read_def queueRead_def Let_def split: if_splits)
  then show ?thesis
    using r u ApiPort_read_bad [of _ z "x1\<lparr>apSocket := sock\<rparr>"] ApiPort_read_calm [of "x1\<lparr>apSocket := sock\<rparr>" z]
    by (subst ApiPort_read.simps) (auto split: option.splits)
qed

lemma ApiPort_ready_returns:
  "\<exists>x'. ApiPort_ready z e x = Some x' \<and> awaiting x' = awaiting x \<and> trove x' = trove x \<and>
    used (socket (apServer x')) = used (socket (apServer x))"
proof -
  obtain called sock where u: "UncontrolledSocket_event e (apSocket x) = (called, sock)" by fastforce
  show ?thesis
  proof (cases called)
    case None
    with u show ?thesis by (simp add: ApiPort_ready_def)
  next
    case (Some p)
    obtain d' x' where "ApiPort_read z (snd p) (x\<lparr>apSocket := sock\<rparr>) = Some (d', x')"
      using ApiPort_read_returns [of z "snd p" "x\<lparr>apSocket := sock\<rparr>"] by auto
    with u Some ApiPort_read_keeps [OF this] show ?thesis by (simp add: ApiPort_ready_def case_prod_unfold)
  qed
qed

lemma handleRequest_keeps:
  assumes "api_inv x" and "addr \<notin> set (trove x)"
    and "handleRequest z pb c handlers addr client data x = TaskDone x'"
  shows "api_inv x'"
proof -
  obtain request scene where rs: "request_scene pb c (apAuthenticator x) data = (request, scene)" by fastforce
  consider (bad) scene' y where "handleResponse z pb addr scene' client None y = TaskDone x'"
      "awaiting y = awaiting x" "trove y = trove x"
    | (run) scene' h m where "x' = x\<lparr>requestId := requestId x + 1, trove := trove x @ [addr],
        awaiting := awaiting x @ [(addr, client, scene', h)]\<rparr>" "reqMsg scene' = Some m"
    using assms(3) rs
    by (auto simp: handleRequest_def Let_def TreasureTrove_add_def RequestScene_setRequest_def
        split: option.splits if_splits)
  then show ?thesis
  proof cases
    case bad
    then have x': "awaiting x' = awaiting x" "TreasureTrove_cleanup addr (trove x) = Some (trove x')"
      using handleResponse_done [OF bad(1)] by simp_all
    then have "trove x' = trove x" using assms(2) by (auto simp: TreasureTrove_cleanup_eq split: if_splits)
    with x' assms(1) show ?thesis by (simp add: api_inv_def)
  next
    case run
    with assms(1,2) show ?thesis by (simp add: api_inv_def)
  qed
qed

lemma finish_eq:
  assumes "api_inv x" and "i < length (awaiting x)"
  shows "(api_step z pb c handlers x (ApFinish i d msg) = TaskHang \<longleftrightarrow> i \<noteq> 0) \<and>
    api_step z pb c handlers x (ApFinish i d msg) \<noteq> TaskFault"
proof -
  obtain addr client scene h where r: "awaiting x ! i = (addr, client, scene, h)" by (cases "awaiting x ! i")
  let ?y = "x\<lparr>awaiting := take i (awaiting x) @ drop (Suc i) (awaiting x)\<rparr>"
  have mem: "(addr, client, scene, h) \<in> set (awaiting x)" using r assms(2) by (metis nth_mem)
  then have req: "reqMsg scene \<noteq> None" using assms(1) by (fastforce simp: api_inv_def)
  have addr: "addr = trove x ! i" using r assms by (simp add: api_inv_def)
  have ne: "trove x \<noteq> []" "length (trove x) = length (awaiting x)" using assms by (auto simp: api_inv_def)
  have "hd (trove x) = addr \<longleftrightarrow> i = 0"
    using assms addr ne nth_eq_iff_index_eq [of "trove x" i 0] by (auto simp: hd_conv_nth api_inv_def)
  with handleResponse_hang_iff [of "scene\<lparr>deets := d\<rparr>" z pb addr client msg ?y]
    handleResponse_fault_iff [of z pb addr "scene\<lparr>deets := d\<rparr>" client msg ?y] req r assms(2) ne
  show ?thesis by auto
qed

lemma api_step_keeps [keeps]:
  assumes "api_inv x" and "event_fresh x e" and "api_step z pb c handlers x e = TaskDone x'"
  shows "api_inv x'"
proof (cases e)
  case ApReady
  then show ?thesis
    using assms(1,3) ApiPort_ready_returns [of z AsioOk x] by (auto simp: api_inv_def)
next
  case (ApStart addr)
  show ?thesis
  proof (cases "spawned x")
    case (Cons p rest)
    obtain client data where p: "p = (client, data)" by fastforce
    have "api_inv (x\<lparr>spawned := rest\<rparr>)" using assms(1) unfolding api_inv_def by simp
    then show ?thesis
      by (rule handleRequest_keeps [of _ addr z pb c handlers client data]) (use ApStart Cons p assms in auto)
  qed (use ApStart assms in auto)
next
  case (ApFinish i d msg)
  show ?thesis
  proof (cases "i < length (awaiting x)")
    case True
    have i0: "i = 0" using finish_eq [OF assms(1) True, of z pb c handlers d msg] assms(3) ApFinish by auto
    obtain r rs where rr: "awaiting x = r # rs" using True by (cases "awaiting x") auto
    have x': "awaiting x' = rs" "TreasureTrove_cleanup (fst r) (trove x) = Some (trove x')"
      using assms(3) ApFinish i0 rr
      by (auto simp: case_prod_unfold dest!: handleResponse_done)
    then show ?thesis using assms(1) rr by (auto simp: api_inv_def TreasureTrove_cleanup_eq split: if_splits)
  qed (use ApFinish assms in auto)
qed

text \<open>The ports the loop can bring about from a new one, with any events in any order.\<close>

inductive api_reachable ::
  "'s zmqlib \<Rightarrow> 'm pblib \<Rightarrow> 'm Catalog \<Rightarrow> (u64, 'h) omap \<Rightarrow> ('s, 'm, 'h) ApiPort \<Rightarrow> bool"
  for z pb c handlers
where
  api_init: "awaiting x = [] \<Longrightarrow> trove x = [] \<Longrightarrow> api_reachable z pb c handlers x"
| api_event: "api_reachable z pb c handlers x \<Longrightarrow> event_fresh x e \<Longrightarrow> api_step z pb c handlers x e = TaskDone x'
    \<Longrightarrow> api_reachable z pb c handlers x'"

lemma api_reachable_inv: "api_reachable z pb c handlers x \<Longrightarrow> api_inv x"
proof (induction rule: api_reachable.induct)
  case (api_event x e x')
  then show ?case by (metis api_step_keeps)
qed (simp add: api_inv_def)

text \<open>Of the requests that run at the same time only the oldest can complete: in every state the port
  can reach, the completion of a request never ends, with the lock of the trove held, exactly when it is
  not the oldest one; no completion faults.\<close>

theorem ApiPort_finish_hangs_iff:
  assumes "api_reachable z pb c handlers x" and "i < length (awaiting x)"
  shows "(api_step z pb c handlers x (ApFinish i d msg) = TaskHang \<longleftrightarrow> i \<noteq> 0) \<and>
    api_step z pb c handlers x (ApFinish i d msg) \<noteq> TaskFault"
  by (rule finish_eq [OF api_reachable_inv [OF assms(1)] assms(2)])

section \<open>A port that stops reading\<close>

text \<open>A reader waits on the open socket.\<close>

definition usock_waits :: "unit UncontrolledSocket \<Rightarrow> bool" where
  "usock_waits u \<longleftrightarrow> uOpen u \<and> queued u \<and> \<not> wantRead u \<and> uCallback u = Some () \<and> isOk (pendingDetails u)
     \<and> (\<exists>d. uWatch u = Some d \<and> isOk d)"

lemma usock_waits_event:
  assumes "usock_waits u"
  obtains d u' where "UncontrolledSocket_event AsioOk u = (Some ((), d), u')" "isOk d" "uOpen u'" "queued u'"
    "\<not> wantRead u'" "uCallback u' = None" "\<exists>d. uWatch u' = Some d \<and> isOk d"
  using assms
  by (auto simp: usock_waits_def UncontrolledSocket_event_def Socket_read_handler_def UncontrolledSocket_ready_def
      queueRead_def Let_def)

lemma usock_mute_event:
  assumes "uCallback u = None"
  shows "fst (UncontrolledSocket_event e u) = None \<and> uCallback (snd (UncontrolledSocket_event e u)) = None"
  using assms
  by (auto simp: UncontrolledSocket_event_def Socket_read_handler_def UncontrolledSocket_ready_def queueRead_def
      Let_def split: option.splits asio_error.splits)

lemma handleResponse_keeps_socket:
  assumes "handleResponse z pb addr scene client msg x = TaskDone x'"
  shows "apSocket x' = apSocket x \<and> spawned x' = spawned x"
  using assms by (auto simp: handleResponse_def Let_def split: option.splits prod.splits)

lemma handleRequest_keeps_socket:
  assumes "handleRequest z pb c handlers addr client data x = TaskDone x'"
  shows "apSocket x' = apSocket x \<and> spawned x' = spawned x"
  using assms
  by (auto simp: handleRequest_def Let_def split: option.splits prod.splits if_splits
      dest!: handleResponse_keeps_socket)

lemma api_mute_step:
  assumes "uCallback (apSocket x) = None" and "api_step z pb c handlers x e = TaskDone x'"
  shows "uCallback (apSocket x') = None \<and> (\<exists>n. spawned x' = drop n (spawned x))"
proof (cases e)
  case ApReady
  with assms usock_mute_event [OF assms(1), of AsioOk] show ?thesis
    by (auto simp: ApiPort_ready_def case_prod_unfold Let_def intro: exI [of _ 0])
next
  case (ApStart addr)
  show ?thesis
  proof (cases "spawned x")
    case (Cons p rest)
    obtain client data where p: "p = (client, data)" by fastforce
    have "handleRequest z pb c handlers addr client data (x\<lparr>spawned := rest\<rparr>) = TaskDone x'"
      using assms(2) ApStart Cons p by simp
    from handleRequest_keeps_socket [OF this] assms(1) Cons show ?thesis
      by (auto intro: exI [of _ 1])
  qed (use ApStart assms in auto)
next
  case (ApFinish i d msg)
  with assms show ?thesis
    by (auto simp: case_prod_unfold split: if_splits dest!: handleResponse_keeps_socket intro: exI [of _ 0])
qed

lemma api_mute_run:
  assumes "uCallback (apSocket x) = None" and "api_run z pb c handlers x es = TaskDone x'"
  shows "\<exists>n. spawned x' = drop n (spawned x)"
  using assms
proof (induction es arbitrary: x)
  case Nil
  then show ?case by (auto intro: exI [of _ 0])
next
  case (Cons e es)
  then obtain y where y: "api_step z pb c handlers x e = TaskDone y" "api_run z pb c handlers y es = TaskDone x'"
    by (auto split: task.splits)
  obtain n where n: "uCallback (apSocket y) = None" "spawned y = drop n (spawned x)"
    using api_mute_step [OF Cons.prems(1) y(1)] by blast
  then show ?case using Cons.IH [OF n(1) y(2)] by auto
qed

lemma ApiPort_bad_message:
  assumes "zmq_delivers z queue" and "socket (apServer x) = Some s" and "queue s = c # y # fs" and "y \<noteq> []"
    and "usock_waits (apSocket x)"
  shows "\<exists>x'. ApiPort_ready z AsioOk x = Some x' \<and> spawned x' = spawned x \<and> uCallback (apSocket x') = None"
proof -
  obtain d u where u: "UncontrolledSocket_event AsioOk (apSocket x) = (Some ((), d), u)" "isOk d" "uCallback u = None"
    using usock_waits_event [OF assms(5)] by metis
  let ?x = "x\<lparr>apSocket := u\<rparr>"
  obtain d' sv where r: "Server_recv z [] [] d (apServer x) = (False, c, [], d', sv)" "\<not> isOk d'"
    using Server_recv_malformed [OF assms(1-4) u(2)] by blast
  have "ApiPort_read z d ?x = Some (setError EcReadError ''api_port_read''
      ''Received error when reading message on API port.'' d', ?x\<lparr>apServer := sv\<rparr>)"
    using u(2) r by (subst ApiPort_read.simps) (simp add: ApiPort_receive_def)
  with u show ?thesis by (simp add: ApiPort_ready_def)
qed

text \<open>Claim C40.
  One message without the empty delimiter silences the port: the error of the receive is reported and no
  further read is queued, so that whatever happens afterwards no request is accepted any more.\<close>

theorem ApiPort_silenced:
  assumes "zmq_delivers z queue" and "socket (apServer x) = Some s" and "queue s = client # y # fs" and "y \<noteq> []"
    and "usock_waits (apSocket x)" and "api_run z pb c handlers x (ApReady # es) = TaskDone x'"
  shows "\<exists>n. spawned x' = drop n (spawned x)"
proof -
  obtain x1 where x1: "ApiPort_ready z AsioOk x = Some x1" "spawned x1 = spawned x" "uCallback (apSocket x1) = None"
    using ApiPort_bad_message [OF assms(1-5)] by blast
  then show ?thesis using api_mute_run [OF x1(3), of z pb c handlers es x'] assms(6) by simp
qed

section \<open>Requests in turn\<close>

text \<open>Sending and receiving do not disturb each other.\<close>

definition zmq_duplex :: "'s zmqlib \<Rightarrow> ('s \<Rightarrow> bytes list) \<Rightarrow> ('s \<Rightarrow> bytes list list) \<Rightarrow> ('s \<Rightarrow> bytes list) \<Rightarrow> bool" where
  "zmq_duplex z part out queue \<longleftrightarrow>
     (\<forall>s. part (snd (zl_recv z s)) = part s \<and> out (snd (zl_recv z s)) = out s) \<and>
     (\<forall>data mr s. queue (snd (zl_send z data mr s)) = queue s)"

lemma duplex_recv:
  assumes "zmq_duplex z part out queue"
  shows "part (snd (zl_recv z s)) = part s" "out (snd (zl_recv z s)) = out s"
  using assms unfolding zmq_duplex_def by blast+

lemma duplex_send:
  assumes "zmq_duplex z part out queue"
  shows "queue (snd (zl_send z data mr s)) = queue s"
  using assms unfolding zmq_duplex_def by blast

lemma Server_recv_keeps_out:
  assumes "zmq_duplex z part out queue" and "socket x = Some s" and "Server_recv z c0 b0 d x = (got, c, b, d', x')"
    and "socket x' = Some s'"
  shows "part s' = part s \<and> out s' = out s"
proof -
  note simps = duplex_recv [OF assms(1)]
  show ?thesis
    using assms(2-4) simps [of s] simps [of "snd (zl_recv z s)"] simps [of "snd (zl_recv z (snd (zl_recv z s)))"]
    by (auto simp: Server_recv_def recv_delimiter_def recv_data_def Let_def
        split: if_splits prod.splits zmq_recv.splits)
qed

lemma reply_fill_keeps_queue:
  assumes "zmq_duplex z part out queue"
  shows "queue (reply_fill z n s) = queue s"
  using assms
proof (induction z n s rule: reply_fill.induct)
  case (1 z n s)
  have "queue (snd (zl_send z [] (n + 1 \<noteq> 3) s)) = queue s" by (rule duplex_send [OF 1(2)])
  with 1 show ?case by (subst reply_fill.simps) (auto simp del: reply_fill.simps)
qed

lemma Server_reply_keeps_queue:
  assumes "zmq_duplex z part out queue" and "socket x = Some s"
  shows "\<exists>s'. snd (Server_reply z client data d x) = x\<lparr>socket := Some s'\<rparr> \<and> queue s' = queue s"
proof -
  have c: "queue (snd (snd (reply_client z client d s))) = queue s" for d s
    using duplex_send [OF assms(1), of client True s]
    by (simp add: reply_client_def case_prod_unfold split: sum.splits prod.splits)
  have l: "queue (snd (snd (reply_delimiter z n d s))) = queue s" for n d s
    using duplex_send [OF assms(1), of "[]" True s]
    by (simp add: reply_delimiter_def case_prod_unfold split: sum.splits prod.splits)
  have b: "queue (snd (snd (reply_data z data n d s))) = queue s" for n d s
    using duplex_send [OF assms(1), of data False s]
    by (simp add: reply_data_def case_prod_unfold split: sum.splits prod.splits)
  obtain d0 where d0: "d0 = (if isOk d \<and> client = []
      then setError EcInternalError ''zmq_reply_clientid'' ''No client ID provided.'' d else d)" by blast
  obtain n1 d1 s1 where s1: "(if isOk d0 then reply_client z client d0 s else (0, d0, s)) = (n1, d1, s1)"
    by (metis prod_cases3)
  obtain n2 d2 s2 where s2: "(if isOk d1 then reply_delimiter z n1 d1 s1 else (n1, d1, s1)) = (n2, d2, s2)"
    by (metis prod_cases3)
  obtain n3 d3 s3 where s3: "(if isOk d2 then reply_data z data n2 d2 s2 else (n2, d2, s2)) = (n3, d3, s3)"
    by (metis prod_cases3)
  have q: "queue s1 = queue s" "queue s2 = queue s1" "queue s3 = queue s2"
    using s1 s2 s3 c [of d0 s] l [of n1 d1 s1] b [of n2 d2 s2] by (auto split: if_splits)
  have "snd (Server_reply z client data d x) = x\<lparr>socket := Some (reply_fill z n3 s3)\<rparr>"
    unfolding Server_reply_def Let_def d0 [symmetric] assms(2) option.case s1 s2 s3 prod.case by simp
  with q reply_fill_keeps_queue [OF assms(1), of n3 s3] show ?thesis by auto
qed

text \<open>A port with nothing to do, on a socket between two messages.\<close>

definition api_idle :: "('s \<Rightarrow> bytes list) \<Rightarrow> ('s, 'm, 'h) ApiPort \<Rightarrow> bool" where
  "api_idle part x \<longleftrightarrow> usock_waits (apSocket x) \<and> spawned x = [] \<and> awaiting x = [] \<and> trove x = []
     \<and> apAuthenticator x = None \<and> (\<exists>s. socket (apServer x) = Some s \<and> part s = [])"

definition api_sock :: "('s, 'm, 'h) ApiPort \<Rightarrow> 's" where
  "api_sock x = the (socket (apServer x))"

lemma ApiPort_ready_request:
  assumes "zmq_delivers z queue" and "zmq_duplex z part out queue" and "api_idle part x"
    and "queue (api_sock x) = client # [] # data # fs" and "client \<noteq> []"
  shows "\<exists>u sv. ApiPort_ready z AsioOk x = Some (x\<lparr>apSocket := u, apServer := sv, spawned := [(client, data)]\<rparr>)
    \<and> usock_waits u \<and> (\<exists>s'. socket sv = Some s' \<and> queue s' = fs \<and> part s' = [] \<and> out s' = out (api_sock x))"
proof -
  obtain s where s: "socket (apServer x) = Some s" "part s = []" "usock_waits (apSocket x)" "spawned x = []"
    using assms(3) by (auto simp: api_idle_def)
  then have q: "queue s = client # [] # data # fs" using assms(4) by (simp add: api_sock_def)
  obtain d u where u: "UncontrolledSocket_event AsioOk (apSocket x) = (Some ((), d), u)" "isOk d" "uOpen u" "queued u"
    "\<not> wantRead u" "uCallback u = None" "\<exists>d. uWatch u = Some d \<and> isOk d"
    using usock_waits_event [OF s(3)] by metis
  obtain s' where r: "Server_recv z [] [] d (apServer x) = (True, client, data, d, (apServer x)\<lparr>socket := Some s'\<rparr>)"
    "queue s' = fs"
    using Server_recv_request [OF assms(1) s(1) q assms(5) u(2)] by blast
  have keep: "part s' = []" "out s' = out s"
    using Server_recv_keeps_out [OF assms(2) s(1) r(1), of s'] s(2) by auto
  let ?u = "u\<lparr>pendingDetails := d, uCallback := Some ()\<rparr>"
  have "ApiPort_read z d (x\<lparr>apSocket := u\<rparr>) =
      Some (Details_moved d, x\<lparr>apSocket := ?u, apServer := (apServer x)\<lparr>socket := Some s'\<rparr>, spawned := [(client, data)]\<rparr>)"
    using u(2-5) r(1) s(4)
    by (subst ApiPort_read.simps) (simp add: ApiPort_receive_def UncontrolledSocket_read_def)
  moreover have "usock_waits ?u" using u by (auto simp: usock_waits_def)
  ultimately show ?thesis
    using u(1) r(2) keep s(1)
    by (intro exI [of _ ?u] exI [of _ "(apServer x)\<lparr>socket := Some s'\<rparr>"]) (simp add: ApiPort_ready_def api_sock_def)
qed

text \<open>A request a client may send: its body is a registered message whose type has a handler.\<close>

definition request_good :: "'m pblib \<Rightarrow> 'm Catalog \<Rightarrow> (u64, 'h) omap \<Rightarrow> bytes \<times> bytes \<Rightarrow> bool" where
  "request_good pb c handlers r \<longleftrightarrow> fst r \<noteq> [] \<and>
     (\<exists>e m. pb_parse_request pb (snd r) = Inr e \<and> rqBody e = toAny pb m \<and> registered pb m c
        \<and> om_find handlers (Catalog_getMsgTypeId pb m c) \<noteq> None)"

lemma handleRequest_good:
  assumes "pb_packs pb" and "catalog_ok pb c" and "request_good pb c handlers (client, data)"
    and "apAuthenticator x = None"
  shows "\<exists>m h. handleRequest z pb c handlers addr client data x =
    TaskDone (x\<lparr>requestId := requestId x + 1, trove := trove x @ [addr],
      awaiting := awaiting x @ [(addr, client, \<lparr>deets = Details_new, reqMsg = Some m\<rparr>, h)]\<rparr>)"
proof -
  obtain e m h where r: "pb_parse_request pb data = Inr e" "rqBody e = toAny pb m" "registered pb m c"
    "om_find handlers (Catalog_getMsgTypeId pb m c) = Some h"
    using assms(3) by (auto simp: request_good_def)
  have "fromAny pb c (rqBody e) Details_new = (Some m, Details_new)"
    unfolding r(2) by (rule fromAny_toAny [OF assms(1,2) r(3) isOk_new])
  then have "request_scene pb c None data = (Some m, \<lparr>deets = Details_new, reqMsg = None\<rparr>)"
    using r(1)
    by (simp add: request_scene_def fromJson_def RequestScene_new_def RequestScene_isOk_def Let_def
        split: option.splits)
  with assms(4) r(4) show ?thesis
    by (intro exI [of _ m] exI [of _ h])
      (simp add: handleRequest_def RequestScene_isOk_def ApiHandlerMap_get_def TreasureTrove_add_def
        RequestScene_setRequest_def)
qed

text \<open>The frame of the answer with a message.\<close>

definition ok_response :: "'m pblib \<Rightarrow> 'm \<Rightarrow> Response" where
  "ok_response pb m = Response_new\<lparr>rsBody := Some (toAny pb m)\<rparr>"

definition printable :: "'m pblib \<Rightarrow> 'm \<Rightarrow> string \<Rightarrow> bool" where
  "printable pb m txt \<longleftrightarrow> pb_print_response pb (ok_response pb m) = Inr txt \<and> txt \<noteq> []"

lemma handleResponse_answer:
  assumes "zmq_sends z part out" and "zmq_accepts z" and "zmq_duplex z part out queue" and "printable pb m txt"
    and "apAuthenticator x = None" and "socket (apServer x) = Some s" and "part s = []" and "client \<noteq> []"
    and "trove x = [addr]"
  shows "\<exists>sv s'. handleResponse z pb addr \<lparr>deets = Details_new, reqMsg = Some r\<rparr> client (Some m) x =
      TaskDone (x\<lparr>apServer := sv, trove := []\<rparr>)
    \<and> socket sv = Some s' \<and> part s' = [] \<and> queue s' = queue s \<and> out s' = out s @ [[client, [], string_bytes txt]]"
proof -
  obtain d' sv where rp: "Server_reply z client (string_bytes txt) Details_new (apServer x) = (d', sv)" by fastforce
  have "d' = Details_new"
    using Server_reply_ok [OF assms(1,2,6) isOk_new assms(8), of "string_bytes txt"] rp by simp
  then obtain s' where s': "socket sv = Some s'" "part s' = []" "out s' = out s @ [[client, [], string_bytes txt]]"
    using Server_reply_frames [OF assms(1) null_accepted_if_accepts [OF assms(2)] assms(6,7) rp] by auto
  have "queue s' = queue s"
    using Server_reply_keeps_queue [OF assms(3,6), of client "string_bytes txt" Details_new] rp s'(1) by auto
  moreover have "build_response pb None \<lparr>deets = Details_new, reqMsg = Some r\<rparr> (Some m) = ok_response pb m"
    by (simp add: build_response_def ok_response_def RequestScene_isOk_def Response_new_def)
  moreover have "toJson (pb_print_response pb) (ok_response pb m) Details_new = (txt, Details_new)"
    using assms(4) by (simp add: printable_def toJson_def)
  ultimately show ?thesis
    using s' rp assms(5,9)
    by (intro exI [of _ sv] exI [of _ s']) (simp add: handleResponse_def TreasureTrove_cleanup_eq)
qed

text \<open>The events of a request that is received, started and answered before the next one.\<close>

fun turn_events :: "(nat \<times> 'm) list \<Rightarrow> 'm api_event list" where
  "turn_events [] = []"
| "turn_events ((addr, m) # as) = ApReady # ApStart addr # ApFinish 0 Details_new (Some m) # turn_events as"

lemma api_turn:
  assumes laws: "zmq_sends z part out" "zmq_accepts z" "zmq_delivers z queue" "zmq_duplex z part out queue"
    "pb_packs pb" "catalog_ok pb c"
    and good: "request_good pb c handlers (client, data)" and shown: "printable pb m txt"
    and idle: "api_idle part x" and q: "queue (api_sock x) = request_frames (client, data) @ fs"
  shows "\<exists>x'. api_run z pb c handlers x (ApReady # ApStart addr # ApFinish 0 Details_new (Some m) # es) =
      api_run z pb c handlers x' es
    \<and> api_idle part x' \<and> queue (api_sock x') = fs
    \<and> out (api_sock x') = out (api_sock x) @ [[client, [], string_bytes txt]]"
proof -
  have client: "client \<noteq> []" using good by (simp add: request_good_def)
  obtain u sv s1 where ready: "ApiPort_ready z AsioOk x = Some (x\<lparr>apSocket := u, apServer := sv, spawned := [(client, data)]\<rparr>)"
    "usock_waits u" "socket sv = Some s1" "queue s1 = fs" "part s1 = []" "out s1 = out (api_sock x)"
    using ApiPort_ready_request [OF laws(3,4) idle, of client data fs] q client by (auto simp: request_frames_pair)
  let ?x1 = "x\<lparr>apSocket := u, apServer := sv, spawned := []\<rparr>"
  have x1: "apAuthenticator ?x1 = None" "trove ?x1 = []" "awaiting ?x1 = []" using idle by (auto simp: api_idle_def)
  obtain r h where start: "handleRequest z pb c handlers addr client data ?x1 =
      TaskDone (?x1\<lparr>requestId := requestId ?x1 + 1, trove := [addr],
        awaiting := [(addr, client, \<lparr>deets = Details_new, reqMsg = Some r\<rparr>, h)]\<rparr>)"
    using handleRequest_good [OF laws(5,6) good x1(1), of z addr] x1 by auto
  let ?x2 = "?x1\<lparr>requestId := requestId ?x1 + 1, trove := [addr], awaiting := []\<rparr>"
  obtain sv' s2 where fin: "handleResponse z pb addr \<lparr>deets = Details_new, reqMsg = Some r\<rparr> client (Some m) ?x2 =
      TaskDone (?x2\<lparr>apServer := sv', trove := []\<rparr>)" "socket sv' = Some s2" "part s2 = []" "queue s2 = fs"
      "out s2 = out (api_sock x) @ [[client, [], string_bytes txt]]"
    using handleResponse_answer [OF laws(1,2,4) shown, of ?x2 s1 client addr r] x1(1) ready(3-6) client by auto
  let ?x3 = "?x2\<lparr>apServer := sv', trove := []\<rparr>"
  have "api_run z pb c handlers x (ApReady # ApStart addr # ApFinish 0 Details_new (Some m) # es) =
      api_run z pb c handlers ?x3 es"
    using ready(1) start fin(1) by simp
  moreover have "api_idle part ?x3" using ready(2) fin(2,3) x1(1) by (simp add: api_idle_def)
  ultimately show ?thesis using fin by (intro exI [of _ ?x3]) (simp add: api_sock_def)
qed

text \<open>Claim C10.
  Requests that are answered one at a time are all answered, in order: when each request is received, started
  and completed before the next, the port sends to every client, in the order of the requests, the message
  its handler returned, and is idle again.\<close>

theorem ApiPort_answers_in_turn:
  assumes "zmq_sends z part out" and "zmq_accepts z" and "zmq_delivers z queue" and "zmq_duplex z part out queue"
    and "pb_packs pb" and "catalog_ok pb c"
    and "list_all (request_good pb c handlers) rs" and "list_all2 (printable pb) (map snd answers) txts"
    and "length answers = length rs"
    and "api_idle part x" and "queue (api_sock x) = concat (map request_frames rs)"
  shows "\<exists>x'. api_run z pb c handlers x (turn_events answers) = TaskDone x' \<and> api_idle part x' \<and>
    out (api_sock x') = out (api_sock x) @ map2 (\<lambda>(client, _) txt. [client, [], string_bytes txt]) rs txts"
  using assms(7-11)
proof (induction rs arbitrary: answers txts x)
  case Nil
  then show ?case by simp
next
  case (Cons r rs)
  obtain client data where r: "r = (client, data)" by fastforce
  obtain addr m rest where ans: "answers = (addr, m) # rest" using Cons.prems(3) by (cases answers) auto
  obtain w ts where ts: "txts = w # ts" "printable pb m w" "list_all2 (printable pb) (map snd rest) ts"
    using Cons.prems(2) ans by (auto simp: list_all2_Cons1)
  have q: "queue (api_sock x) = request_frames (client, data) @ concat (map request_frames rs)"
    "request_good pb c handlers (client, data)" using Cons.prems(1,5) r by simp_all
  obtain x1 where x1: "api_run z pb c handlers x (turn_events answers) = api_run z pb c handlers x1 (turn_events rest)"
    "api_idle part x1" "queue (api_sock x1) = concat (map request_frames rs)"
    "out (api_sock x1) = out (api_sock x) @ [[client, [], string_bytes w]]"
    using api_turn [OF assms(1-6) q(2) ts(2) Cons.prems(4) q(1), of addr "turn_events rest"] ans by auto
  obtain x' where "api_run z pb c handlers x1 (turn_events rest) = TaskDone x'" "api_idle part x'"
    "out (api_sock x') = out (api_sock x1) @ map2 (\<lambda>(client, _) txt. [client, [], string_bytes txt]) rs ts"
    using Cons.IH [OF _ ts(3) _ x1(2,3)] Cons.prems(1,3) ans by auto
  with x1 ts r show ?case by (intro exI [of _ x']) simp
qed

section \<open>Examples\<close>

text \<open>Messages that are a type name and a payload; texts that are the length of the name, the name and the
  payload.\<close>

definition plain_show :: "any_msg \<Rightarrow> string + string" where
  "plain_show a =
     (if length (type_url a) < 256
      then Inr (byte_char (of_nat (length (type_url a))) # type_url a @ bytes_string (any_value a))
      else Inl ''too long'')"

definition plain_read :: "bytes \<Rightarrow> string + any_msg" where
  "plain_read data =
     (case data of
        [] \<Rightarrow> Inl ''empty''
      | n # rest \<Rightarrow> Inr \<lparr>type_url = bytes_string (take (unat n) rest), any_value = drop (unat n) rest\<rparr>)"

definition plain_pb :: "(string \<times> bytes) pblib" where
  "plain_pb =
     \<lparr>pb_name = fst, pb_pack = (\<lambda>m. \<lparr>type_url = ''fc/'' @ fst m, any_value = snd m\<rparr>),
      pb_unpack = (\<lambda>a m. Some (fst m, any_value a)),
      pb_parse_request = (\<lambda>data. case plain_read data of Inl e \<Rightarrow> Inl e | Inr a \<Rightarrow> Inr \<lparr>rqBody = a, rqAuth = None\<rparr>),
      pb_print_response = (\<lambda>r. case rsBody r of Some a \<Rightarrow> plain_show a | None \<Rightarrow> Inr ''{}''),
      pb_parse_event = (\<lambda>data. case plain_read data of Inl e \<Rightarrow> Inl e | Inr a \<Rightarrow> Inr \<lparr>evBody = a, evAuth = None\<rparr>),
      pb_print_event = (\<lambda>e. if evAuth e = None then plain_show (evBody e) else Inl ''auth'')\<rparr>"

definition demo_catalog :: "(string \<times> bytes) Catalog" where
  "demo_catalog = Catalog_registerMsg plain_pb 5 (''Ping'', []) Catalog_new"

definition wide_zmq :: "zmq_queues zmqlib" where
  "wide_zmq = plain_zmq\<lparr>zl_send := (\<lambda>data mr (part, out, inq).
     if mr then (Inr (length data), (part @ [data], out, inq))
     else (Inr (length data), ([], out @ [part @ [data]], inq)))\<rparr>"

definition demo_port :: "bytes list \<Rightarrow> (zmq_queues, string \<times> bytes, string) ApiPort" where
  "demo_port inq =
     ApiPort_new\<lparr>apServer := \<lparr>ctx = True, socket = Some ([], [], inq)\<rparr>,
       apSocket := \<lparr>uOpen = True, wantRead = False, queued = True, uCallback = Some (), pendingDetails = Details_new,
         uWatch = Some Details_new\<rparr>\<rparr>"

lemma plain_pb_packs: "pb_packs plain_pb"
  by (auto simp: pb_packs_def plain_pb_def)

lemma demo_catalog_ok: "catalog_ok plain_pb demo_catalog"
  unfolding demo_catalog_def by (intro catalog_ok_ops)

lemma wide_zmq_laws:
  "zmq_sends wide_zmq fst (fst \<circ> snd)" "zmq_accepts wide_zmq" "zmq_delivers wide_zmq (snd \<circ> snd)"
  "zmq_duplex wide_zmq fst (fst \<circ> snd) (snd \<circ> snd)"
  by (auto simp: zmq_sends_def zmq_accepts_def zmq_delivers_def zmq_duplex_def wide_zmq_def plain_zmq_def
      split: list.splits)

definition ping :: bytes where
  "ping = 7 # string_bytes ''fc/Ping'' @ [9]"

lemma ping_good: "request_good plain_pb demo_catalog [(5, ''h'')] ([1], ping)"
proof -
  have "pb_parse_request plain_pb ping = Inr \<lparr>rqBody = toAny plain_pb (''Ping'', [9]), rqAuth = None\<rparr>"
    by (simp add: ping_def plain_pb_def plain_read_def toAny_def)
  moreover have "registered plain_pb (''Ping'', [9]) demo_catalog"
    "Catalog_getMsgTypeId plain_pb (''Ping'', [9]) demo_catalog = 5"
    by (simp_all add: registered_def demo_catalog_def Catalog_registerMsg_def Catalog_new_def plain_pb_def
        Catalog_getMsgTypeId_def Catalog_getTypeId_def getTypeFromUrl_def om_empty_def om_find_def Let_def)
  ultimately show ?thesis by (auto simp: request_good_def om_find_def)
qed

lemma demo_port_idle: "api_idle fst (demo_port inq)"
  by (simp add: api_idle_def demo_port_def ApiPort_new_def usock_waits_def)

theorem ApiPort_answers_in_turn_witness:
  "\<exists>x' w. api_run wide_zmq plain_pb demo_catalog [(5, ''h'')] (demo_port [[1], [], ping])
     [ApReady, ApStart 64, ApFinish 0 Details_new (Some (''Ping'', [8]))] = TaskDone x'
   \<and> fst (snd (api_sock x')) = [[[1], [], string_bytes w]]"
proof -
  obtain w where w: "printable plain_pb (''Ping'', [8]) w"
    by (simp add: printable_def plain_pb_def ok_response_def Response_new_def toAny_def plain_show_def)
  have sock: "(snd \<circ> snd) (api_sock (demo_port [[1], [], ping])) = concat (map request_frames [([1], ping)])"
    "(fst \<circ> snd) (api_sock (demo_port [[1], [], ping])) = []"
    by (simp_all add: demo_port_def api_sock_def request_frames_pair)
  show ?thesis
    using ApiPort_answers_in_turn [OF wide_zmq_laws plain_pb_packs demo_catalog_ok, of "[(5, ''h'')]" "[([1], ping)]"
        "[(64, (''Ping'', [8]))]" "[w]" "demo_port [[1], [], ping]"] ping_good w sock demo_port_idle
    by (auto simp del: api_run.simps)
qed

theorem ApiPort_silenced_witness:
  "\<exists>x'. api_run wide_zmq plain_pb demo_catalog [(5, ''h'')] (demo_port [[1], [9], [1], [], ping]) [ApReady, ApReady]
     = TaskDone x' \<and> spawned x' = []"
proof -
  let ?x = "demo_port [[1], [9], [1], [], ping]"
  obtain x1 where x1: "ApiPort_ready wide_zmq AsioOk ?x = Some x1" using ApiPort_ready_returns by blast
  obtain x2 where x2: "ApiPort_ready wide_zmq AsioOk x1 = Some x2" using ApiPort_ready_returns by blast
  have run: "api_run wide_zmq plain_pb demo_catalog [(5, ''h'')] ?x [ApReady, ApReady] = TaskDone x2"
    using x1 x2 by simp
  have x: "socket (apServer ?x) = Some ([], [], [[1], [9], [1], [], ping])" "spawned ?x = []" "usock_waits (apSocket ?x)"
    using demo_port_idle [of "[[1], [9], [1], [], ping]"] by (simp_all add: demo_port_def api_idle_def)
  show ?thesis
    using ApiPort_silenced [OF wide_zmq_laws(3) x(1) _ _ x(3) run, of "[1]" "[9]" "[[1], [], ping]"] run x(2)
    by (simp del: api_run.simps)
qed

lemma demo_two_running:
  "\<exists>x. api_reachable wide_zmq plain_pb demo_catalog [(5, ''h'')] x \<and> length (awaiting x) = 2"
proof -
  let ?x0 = "(demo_port [])\<lparr>spawned := [([1], ping), ([1], ping)]\<rparr>"
  have base: "api_reachable wide_zmq plain_pb demo_catalog [(5, ''h'')] ?x0"
    by (rule api_init) (simp_all add: demo_port_def ApiPort_new_def)
  obtain m h where s1: "api_step wide_zmq plain_pb demo_catalog [(5, ''h'')] ?x0 (ApStart 64) =
      TaskDone (?x0\<lparr>spawned := [([1], ping)], requestId := 1, trove := [64],
        awaiting := [(64, [1], \<lparr>deets = Details_new, reqMsg = Some m\<rparr>, h)]\<rparr>)" (is "_ = TaskDone ?x1")
    using handleRequest_good [OF plain_pb_packs demo_catalog_ok ping_good, of "?x0\<lparr>spawned := [([1], ping)]\<rparr>" wide_zmq 64]
    by (auto simp: demo_port_def ApiPort_new_def)
  have r1: "api_reachable wide_zmq plain_pb demo_catalog [(5, ''h'')] ?x1"
    by (rule api_event [OF base _ s1]) (simp add: demo_port_def ApiPort_new_def)
  obtain m' h' where s2: "api_step wide_zmq plain_pb demo_catalog [(5, ''h'')] ?x1 (ApStart 65) =
      TaskDone (?x1\<lparr>spawned := [], requestId := 2, trove := [64, 65],
        awaiting := awaiting ?x1 @ [(65, [1], \<lparr>deets = Details_new, reqMsg = Some m'\<rparr>, h')]\<rparr>)" (is "_ = TaskDone ?x2")
    using handleRequest_good [OF plain_pb_packs demo_catalog_ok ping_good, of "?x1\<lparr>spawned := []\<rparr>" wide_zmq 65]
    by (auto simp: demo_port_def ApiPort_new_def)
  have "api_reachable wide_zmq plain_pb demo_catalog [(5, ''h'')] ?x2"
    by (rule api_event [OF r1 _ s2]) (simp add: demo_port_def ApiPort_new_def)
  then show ?thesis by (intro exI [of _ ?x2]) simp
qed

theorem ApiPort_finish_hangs_iff_witness:
  "\<exists>x. api_step wide_zmq plain_pb demo_catalog [(5, ''h'')] x (ApFinish 1 Details_new None) = TaskHang \<and>
       api_step wide_zmq plain_pb demo_catalog [(5, ''h'')] x (ApFinish 0 Details_new None) \<noteq> TaskHang"
proof -
  obtain x where x: "api_reachable wide_zmq plain_pb demo_catalog [(5, ''h'')] x" "length (awaiting x) = 2"
    using demo_two_running by blast
  show ?thesis
    using ApiPort_finish_hangs_iff [OF x(1), of 1 Details_new None] ApiPort_finish_hangs_iff [OF x(1), of 0 Details_new None]
      x(2) by (intro exI [of _ x]) (simp del: api_step.simps)
qed

end
