(* ===== verification/FC_Events.thy ===== *)
theory FC_Events
  imports FC_Api
begin

text \<open>
  Events between services: \<^verbatim>\<open>svc/events/EventSubscriptionMap\<close>, \<^verbatim>\<open>svc/events/EventPublisher\<close> and
  \<^verbatim>\<open>svc/events/EventProcessor\<close>.

  A handler is its name with what the closure captured.  A task that was posted to the loop is an entry of the
  list of posted tasks; running it is an operation of its own.
\<close>

section \<open>Model\<close>

subsection \<open>EventSubscriptionMap\<close>

text \<open>A handler of a service captured the port, one of peers did not; the type is the one its cast
  expects.\<close>

record 'h EventHandler =
  ehPort :: "u16 option"
  ehTopic :: string
  ehType :: string
  ehName :: 'h

record 'h EventSubscriptionMap =
  mapPeerHandlers :: "(string, 'h EventHandler) omap"
  mapServiceHandlers :: "(u16, (string, 'h EventHandler) omap) omap"

definition EventSubscriptionMap_new :: "'h EventSubscriptionMap" where
  "EventSubscriptionMap_new = \<lparr>mapPeerHandlers = om_empty, mapServiceHandlers = om_empty\<rparr>"

definition getServiceHandler :: "u16 \<Rightarrow> string \<Rightarrow> 'h EventSubscriptionMap \<Rightarrow> 'h EventHandler option" where
  "getServiceHandler port topic m =
     (case om_find (mapServiceHandlers m) port of
        None \<Rightarrow> None
      | Some handlers \<Rightarrow>
          (case om_find handlers topic of Some h \<Rightarrow> Some h | None \<Rightarrow> om_find handlers []))"

definition getPeerHandler :: "string \<Rightarrow> 'h EventSubscriptionMap \<Rightarrow> 'h EventHandler option" where
  "getPeerHandler topic m = om_find (mapPeerHandlers m) topic"

definition addHandler :: "u16 \<Rightarrow> string \<Rightarrow> 'h EventHandler \<Rightarrow> 'h EventSubscriptionMap \<Rightarrow> 'h EventSubscriptionMap" where
  "addHandler port topic handler m =
     (let handlers = (case om_find (mapServiceHandlers m) port of Some hs \<Rightarrow> hs | None \<Rightarrow> om_empty)
      in m\<lparr>mapServiceHandlers := om_put port (om_put topic handler handlers) (mapServiceHandlers m)\<rparr>)"

definition addPeerHandler :: "string \<Rightarrow> 'h EventHandler \<Rightarrow> 'h EventSubscriptionMap \<Rightarrow> 'h EventSubscriptionMap" where
  "addPeerHandler topic handler m = m\<lparr>mapPeerHandlers := om_put topic handler (mapPeerHandlers m)\<rparr>"

definition getPeerSubscriptions :: "'h EventSubscriptionMap \<Rightarrow> string list" where
  "getPeerSubscriptions m = map fst (mapPeerHandlers m)"

definition getServiceSubscriptions :: "'h EventSubscriptionMap \<Rightarrow> (u16, string list) omap" where
  "getServiceSubscriptions m =
     map (\<lambda>(port, hs). (port, map fst hs)) (filter (\<lambda>(port, hs). hs \<noteq> []) (mapServiceHandlers m))"

definition addServiceSub ::
  "'m pblib \<Rightarrow> u64 \<Rightarrow> 'm \<Rightarrow> u16 \<Rightarrow> string \<Rightarrow> 'h \<Rightarrow> 'h EventSubscriptionMap \<times> 'm Catalog \<Rightarrow> 'h EventSubscriptionMap \<times> 'm Catalog"
where
  "addServiceSub pb tid dflt port topic h s =
     (addHandler port topic \<lparr>ehPort = Some port, ehTopic = topic, ehType = pb_name pb dflt, ehName = h\<rparr> (fst s),
      Catalog_registerMsg pb tid dflt (snd s))"

definition addPeerSub ::
  "'m pblib \<Rightarrow> u64 \<Rightarrow> 'm \<Rightarrow> string \<Rightarrow> 'h \<Rightarrow> 'h EventSubscriptionMap \<times> 'm Catalog \<Rightarrow> 'h EventSubscriptionMap \<times> 'm Catalog"
where
  "addPeerSub pb tid dflt topic h s =
     (addPeerHandler topic \<lparr>ehPort = None, ehTopic = topic, ehType = pb_name pb dflt, ehName = h\<rparr> (fst s),
      Catalog_registerMsg pb tid dflt (snd s))"

text \<open>The closure of a service and the closure of a peer: the handler to call with its message, or the error.
  The cast succeeds for the type the handler was added with.\<close>

definition service_closure ::
  "'m pblib \<Rightarrow> 'm Catalog \<Rightarrow> u16 \<Rightarrow> 'h EventHandler \<Rightarrow> Event \<Rightarrow> ('h \<times> 'm) option \<times> Details"
where
  "service_closure pb c port eh env =
     (case fromAny pb c (evBody env) Details_new of (msg, d) \<Rightarrow>
      if \<not> isOk d then
        (None, setError EcInvalidMessageFormat ''pubsub''
           (''Failed to deserialize event message type on port '' @ dec (unat port) @ '' topic '' @ quoted (ehTopic eh) @ ''.'') d)
      else
        case msg of
          None \<Rightarrow> (None, d)
        | Some m \<Rightarrow>
            if pb_name pb m = ehType eh then (Some (ehName eh, m), d)
            else (None, setError EcInternalError ''pubsub''
                    (''Received invalid event message type '' @ quoted (pb_name pb m) @ '' on port '' @ dec (unat port)
                     @ '' topic '' @ quoted (ehTopic eh) @ ''. Expected '' @ [CHR 39] @ ehType eh @ ''.'') d))"

definition peer_closure :: "'m pblib \<Rightarrow> 'm Catalog \<Rightarrow> 'h EventHandler \<Rightarrow> Event \<Rightarrow> ('h \<times> 'm) option \<times> Details" where
  "peer_closure pb c eh env =
     (case fromAny pb c (evBody env) Details_new of (msg, d) \<Rightarrow>
      if \<not> isOk d then
        (None, setError EcInvalidMessageFormat ''pubsub''
           (''Failed to deserialize peer event message for topic '' @ quoted (ehTopic eh) @ ''.'') d)
      else
        case msg of
          None \<Rightarrow> (None, d)
        | Some m \<Rightarrow>
            if pb_name pb m = ehType eh then (Some (ehName eh, m), d)
            else (None, setError EcInternalError ''pubsub''
                    (''Received invalid peer event message type '' @ quoted (pb_name pb m) @ '' for topic ''
                     @ quoted (ehTopic eh) @ ''. Expected '' @ [CHR 39] @ ehType eh @ ''.'') d))"

definition event_closure :: "'m pblib \<Rightarrow> 'm Catalog \<Rightarrow> 'h EventHandler \<Rightarrow> Event \<Rightarrow> ('h \<times> 'm) option \<times> Details" where
  "event_closure pb c eh env =
     (case ehPort eh of Some port \<Rightarrow> service_closure pb c port eh env | None \<Rightarrow> peer_closure pb c eh env)"

subsection \<open>EventPublisher\<close>

type_synonym 's EventPublisher = "'s Publisher option"

definition EventPublisher_reset :: "'s EventPublisher \<Rightarrow> nat \<Rightarrow> nat" where
  "EventPublisher_reset x live = (case x of None \<Rightarrow> live | Some p \<Rightarrow> snd (Publisher_close p live))"

definition EventPublisher_openPort ::
  "'s zmqlib \<Rightarrow> 'k openssl \<Rightarrow> curvelib \<Rightarrow> string \<Rightarrow> u16 \<Rightarrow> bytes \<Rightarrow> 's EventPublisher \<Rightarrow> nat
   \<Rightarrow> bool \<times> 's EventPublisher \<times> nat"
where
  "EventPublisher_openPort z os c pop port serverKey x live =
     (let live = EventPublisher_reset x live;
          (p, d, live) = Publisher_bind z os c pop ([], port, serverKey) Details_new Publisher_new live
      in if isOk d then (True, Some p, live) else (False, None, EventPublisher_reset (Some p) live))"

definition EventPublisher_publish ::
  "'s zmqlib \<Rightarrow> 'm pblib \<Rightarrow> string \<Rightarrow> 'm \<Rightarrow> 's EventPublisher \<Rightarrow> Details \<times> 's EventPublisher"
where
  "EventPublisher_publish z pb topic event x =
     (case x of
        None \<Rightarrow> (Details_new, None)
      | Some p \<Rightarrow>
          let envelope = \<lparr>evBody = toAny pb event, evAuth = None\<rparr>;
              (json, d) = toJson (pb_print_event pb) envelope Details_new
          in if isOk d then (let (d, p) = Publisher_publish z topic (string_bytes json) d p in (d, Some p))
             else (d, Some p))"

subsection \<open>EventProcessor\<close>

text \<open>A subscription with its socket; the port tells which table the bound lookup uses.\<close>

record 's SubSocket =
  psocket :: "unit UncontrolledSocket"
  psubscriber :: "'s Subscriber"
  subPort :: "u16 option"

record 's EventProcessor =
  peerTopics :: "string list"
  localSockets :: "'s SubSocket list"
  peerSockets :: "(string, 's SubSocket) omap"

definition EventProcessor_new :: "'s EventProcessor" where
  "EventProcessor_new = \<lparr>peerTopics = [], localSockets = [], peerSockets = om_empty\<rparr>"

definition getHandler :: "'h EventSubscriptionMap \<Rightarrow> u16 option \<Rightarrow> string \<Rightarrow> 'h EventHandler option" where
  "getHandler hs port topic =
     (case port of Some p \<Rightarrow> getServiceHandler p topic hs | None \<Rightarrow> getPeerHandler topic hs)"

text \<open>One run of the reader: the task it posts, if any.\<close>

definition event_receive ::
  "'s zmqlib \<Rightarrow> 'm pblib \<Rightarrow> 'h EventSubscriptionMap \<Rightarrow> Details \<Rightarrow> 's SubSocket
   \<Rightarrow> ('h EventHandler \<times> Event) option \<times> Details \<times> 's SubSocket"
where
  "event_receive z pb hs d ss =
     (let (hasEvent, topic, data, d, sub) = Subscriber_recv z [] [] d (psubscriber ss);
          ss = ss\<lparr>psubscriber := sub\<rparr>;
          d = (if isOk d \<and> hasEvent \<and> data = [] then
                 setError EcReadError ''pubsub'' (''Received empty data for topic '' @ topic @ '' subscription.'') d
               else if isOk d \<and> hasEvent \<and> topic = [] then
                 setError EcReadError ''pubsub'' ''Received empty topic for event.'' d
               else d);
          (envelope, d) =
            (if isOk d \<and> hasEvent
             then fromJson (pb_parse_event pb) data \<lparr>evBody = \<lparr>type_url = [], any_value = []\<rparr>, evAuth = None\<rparr> d
             else (\<lparr>evBody = \<lparr>type_url = [], any_value = []\<rparr>, evAuth = None\<rparr>, d))
      in if isOk d \<and> hasEvent then
           (case getHandler hs (subPort ss) topic of
              Some h \<Rightarrow> (Some (h, envelope), d, ss)
            | None \<Rightarrow>
                (None, setError EcUnknownCommand ''pubsub'' (''Failed to find handler for topic '' @ topic @ ''.'') d, ss))
         else (None, d, ss))"

partial_function (option) event_read ::
  "'s zmqlib \<Rightarrow> 'm pblib \<Rightarrow> 'h EventSubscriptionMap \<Rightarrow> Details \<Rightarrow> 's SubSocket
   \<Rightarrow> (('h EventHandler \<times> Event) list \<times> Details \<times> 's SubSocket) option"
where
  "event_read z pb hs d ss =
     (if \<not> isOk d then Some ([], d, ss)
      else
        case event_receive z pb hs d ss of (task, d, ss) \<Rightarrow>
        case UncontrolledSocket_read Details_new () (psocket ss) of (called, sock) \<Rightarrow>
        let ss = ss\<lparr>psocket := sock\<rparr>; tasks = (case task of None \<Rightarrow> [] | Some t \<Rightarrow> [t])
        in (case called of
              None \<Rightarrow> Some (tasks, d, ss)
            | Some (_, d') \<Rightarrow> Option.bind (event_read z pb hs d' ss) (\<lambda>(ts, _, ss). Some (tasks @ ts, d, ss))))"

definition event_ready ::
  "'s zmqlib \<Rightarrow> 'm pblib \<Rightarrow> 'h EventSubscriptionMap \<Rightarrow> 's SubSocket \<Rightarrow> (('h EventHandler \<times> Event) list \<times> 's SubSocket) option"
where
  "event_ready z pb hs ss =
     (case UncontrolledSocket_event AsioOk (psocket ss) of (called, sock) \<Rightarrow>
      let ss = ss\<lparr>psocket := sock\<rparr>
      in case called of
           None \<Rightarrow> Some ([], ss)
         | Some (_, d) \<Rightarrow> map_option (\<lambda>(ts, _, ss). (ts, ss)) (event_read z pb hs d ss))"

text \<open>The subscriber is moved to the heap; it is destroyed when the first read fails.\<close>

definition startListening ::
  "'s zmqlib \<Rightarrow> 'm pblib \<Rightarrow> 'h EventSubscriptionMap \<Rightarrow> u16 option \<Rightarrow> 's Subscriber \<Rightarrow> Details \<Rightarrow> nat
   \<Rightarrow> ('s SubSocket option \<times> ('h EventHandler \<times> Event) list \<times> Details \<times> nat) option"
where
  "startListening z pb hs port sub d live =
     (if \<not> isOk d then Some (None, [], d, snd (Subscriber_close sub live))
      else
        let fd = zmq_getFd z (sSocket sub);
            ss = \<lparr>psocket = UncontrolledSocket_new (fd \<noteq> -1), psubscriber = sub, subPort = port\<rparr>
        in case UncontrolledSocket_read d () (psocket ss) of (called, sock) \<Rightarrow>
           let ss = ss\<lparr>psocket := sock\<rparr>
           in (case called of
                 None \<Rightarrow> Some (Some ss, [], Details_moved d, live)
               | Some (_, d) \<Rightarrow>
                   map_option (\<lambda>(ts, d, ss).
                       if isOk d then (Some ss, ts, d, live)
                       else (None, ts, d, snd (Subscriber_close (psubscriber ss) live)))
                     (event_read z pb hs d ss)))"

fun subscribe_each :: "'s zmqlib \<Rightarrow> string \<Rightarrow> string list \<Rightarrow> Details \<Rightarrow> 's Subscriber \<Rightarrow> Details \<times> 's Subscriber" where
  "subscribe_each z err [] d sub = (d, sub)"
| "subscribe_each z err (topic # topics) d sub =
     (let (d, sub) = Subscriber_subscribe z err topic d sub in subscribe_each z err topics d sub)"

definition connect_topics ::
  "'s zmqlib \<Rightarrow> 'm pblib \<Rightarrow> curvelib \<Rightarrow> string \<Rightarrow> 'h EventSubscriptionMap \<Rightarrow> u16 option \<Rightarrow> string \<times> u16 \<times> bytes \<Rightarrow> string list
   \<Rightarrow> Details \<Rightarrow> nat \<Rightarrow> ('s SubSocket option \<times> ('h EventHandler \<times> Event) list \<times> Details \<times> nat) option"
where
  "connect_topics z pb c err hs port a topics d live =
     (let (sub, d, live) = Subscriber_connect z c err a d Subscriber_new live;
          (d, sub) = subscribe_each z err topics d sub
      in startListening z pb hs port sub d live)"

definition peer_name :: "string \<Rightarrow> u16 \<Rightarrow> string" where
  "peer_name host port = host @ '':'' @ dec (unat port)"

definition EventProcessor_addPeer ::
  "'s zmqlib \<Rightarrow> 'm pblib \<Rightarrow> curvelib \<Rightarrow> string \<Rightarrow> 'h EventSubscriptionMap \<Rightarrow> bytes \<Rightarrow> string \<Rightarrow> u16 \<Rightarrow> 's EventProcessor \<Rightarrow> nat
   \<Rightarrow> (bool \<times> ('h EventHandler \<times> Event) list \<times> 's EventProcessor \<times> nat) option"
where
  "EventProcessor_addPeer z pb c err hs serverKey host port x live =
     (let x = (if peerTopics x = [] then x\<lparr>peerTopics := getPeerSubscriptions hs\<rparr> else x);
          peer = peer_name host port
      in if peerTopics x = [] then Some (True, [], x, live)
         else if om_find (peerSockets x) peer \<noteq> None then Some (False, [], x, live)
         else
           map_option (\<lambda>(sub, ts, d, live).
               case sub of
                 Some ss \<Rightarrow> (True, ts, x\<lparr>peerSockets := om_emplace peer ss (peerSockets x)\<rparr>, live)
               | None \<Rightarrow> (False, ts, x, live))
             (connect_topics z pb c err hs None (host, port, serverKey) (peerTopics x) Details_new live))"

definition EventProcessor_removePeer :: "string \<Rightarrow> u16 \<Rightarrow> 's EventProcessor \<Rightarrow> nat \<Rightarrow> 's EventProcessor \<times> nat" where
  "EventProcessor_removePeer host port x live =
     (let peer = peer_name host port
      in (x\<lparr>peerSockets := om_erase peer (peerSockets x)\<rparr>,
          case om_find (peerSockets x) peer of
            None \<Rightarrow> live
          | Some ss \<Rightarrow> snd (Subscriber_close (psubscriber ss) live)))"

fun subscribe_ports ::
  "'s zmqlib \<Rightarrow> 'm pblib \<Rightarrow> curvelib \<Rightarrow> string \<Rightarrow> 'h EventSubscriptionMap \<Rightarrow> (u16, string list) omap \<Rightarrow> Details \<Rightarrow> 's EventProcessor \<Rightarrow> nat
   \<Rightarrow> (bool \<times> ('h EventHandler \<times> Event) list \<times> 's EventProcessor \<times> nat) option"
where
  "subscribe_ports z pb c err hs [] d x live = Some (isOk d, [], x, live)"
| "subscribe_ports z pb c err hs ((port, topics) # subs) d x live =
     (case connect_topics z pb c err hs (Some port) (''127.0.0.1'', port, []) topics d live of
        None \<Rightarrow> None
      | Some (None, ts, d, live) \<Rightarrow> Some (False, ts, x, live)
      | Some (Some ss, ts, d, live) \<Rightarrow>
          map_option (\<lambda>(ok, ts', x, live). (ok, ts @ ts', x, live))
            (subscribe_ports z pb c err hs subs d (x\<lparr>localSockets := localSockets x @ [ss]\<rparr>) live))"

definition subscribeLocal ::
  "'s zmqlib \<Rightarrow> 'm pblib \<Rightarrow> curvelib \<Rightarrow> string \<Rightarrow> 'h EventSubscriptionMap \<Rightarrow> 's EventProcessor \<Rightarrow> nat
   \<Rightarrow> (bool \<times> ('h EventHandler \<times> Event) list \<times> 's EventProcessor \<times> nat) option"
where
  "subscribeLocal z pb c err hs x live = subscribe_ports z pb c err hs (getServiceSubscriptions hs) Details_new x live"

section \<open>The reader ends\<close>

lemma event_receive_socket:
  assumes "event_receive z pb hs d ss = (task, d', ss')"
  shows "psocket ss' = psocket ss \<and> subPort ss' = subPort ss \<and>
    used (sSocket (psubscriber ss')) = used (sSocket (psubscriber ss))"
proof -
  obtain got topic data d1 sub where r: "Subscriber_recv z [] [] d (psubscriber ss) = (got, topic, data, d1, sub)"
    by (metis prod_cases5)
  have "used (sSocket sub) = used (sSocket (psubscriber ss))"
    using r by (auto simp: Subscriber_recv_def used_def Let_def split: if_splits option.splits prod.splits zmq_recv.splits)
  with assms r show ?thesis
    by (auto simp: event_receive_def Let_def split: if_splits option.splits prod.splits)
qed

lemma event_read_bad: "\<not> isOk d \<Longrightarrow> event_read z pb hs d ss = Some ([], d, ss)"
  by (subst event_read.simps) simp

lemma event_read_calm:
  assumes "\<not> wantRead (psocket ss)"
  shows "\<exists>ts d' ss'. event_read z pb hs d ss = Some (ts, d', ss') \<and>
    used (sSocket (psubscriber ss')) = used (sSocket (psubscriber ss))"
proof (cases "isOk d")
  case True
  obtain task d1 s1 where r: "event_receive z pb hs d ss = (task, d1, s1)" by (metis prod_cases3)
  note keeps = event_receive_socket [OF r]
  show ?thesis
  proof (cases "uOpen (psocket ss)")
    case op: True
    with assms r keeps True show ?thesis
      by (subst event_read.simps) (auto simp: UncontrolledSocket_read_def split: option.splits)
  next
    case False
    let ?d = "setError EcConnectionError ''read'' ''Connection is not open.'' Details_new"
    have "event_read z pb hs ?d (s1\<lparr>psocket := psocket ss\<rparr>) = Some ([], ?d, s1\<lparr>psocket := psocket ss\<rparr>)"
      by (rule event_read_bad) simp
    with assms r keeps True False show ?thesis
      by (subst event_read.simps) (auto simp: UncontrolledSocket_read_def split: option.splits)
  qed
qed (auto simp: event_read_bad)

lemma event_read_returns:
  "\<exists>ts d' ss'. event_read z pb hs d ss = Some (ts, d', ss') \<and>
    used (sSocket (psubscriber ss')) = used (sSocket (psubscriber ss))"
proof (cases "isOk d")
  case True
  obtain task d1 s1 where r: "event_receive z pb hs d ss = (task, d1, s1)" by (metis prod_cases3)
  obtain called sock where u: "UncontrolledSocket_read Details_new () (psocket s1) = (called, sock)" by fastforce
  have "called = None \<or> \<not> wantRead sock \<or> (\<exists>d2. called = Some ((), d2) \<and> \<not> isOk d2)"
    using u by (auto simp: UncontrolledSocket_read_def queueRead_def Let_def split: if_splits)
  then consider (none) "called = None" | (calm) d2 where "called = Some ((), d2)" "\<not> wantRead sock"
    | (bad) d2 where "called = Some ((), d2)" "\<not> isOk d2" by (cases called) auto
  then show ?thesis
  proof cases
    case none
    with True r u event_receive_socket [OF r] show ?thesis by (subst event_read.simps) (auto split: option.splits)
  next
    case calm
    with True r u event_receive_socket [OF r] event_read_calm [of "s1\<lparr>psocket := sock\<rparr>" z pb hs d2] show ?thesis
      by (subst event_read.simps) (auto split: option.splits)
  next
    case bad
    with True r u event_receive_socket [OF r] event_read_bad [of d2 z pb hs "s1\<lparr>psocket := sock\<rparr>"] show ?thesis
      by (subst event_read.simps) (auto split: option.splits)
  qed
qed (auto simp: event_read_bad)

section \<open>Sockets of the processor\<close>

definition sub_used :: "'s SubSocket \<Rightarrow> nat" where
  "sub_used ss = used (sSocket (psubscriber ss))"

definition ep_used :: "'s EventProcessor \<Rightarrow> nat" where
  "ep_used x = (\<Sum>ss\<leftarrow>localSockets x. sub_used ss) + (\<Sum>p\<leftarrow>peerSockets x. sub_used (snd p))"

lemma Subscriber_subscribe_used: "used (sSocket (snd (Subscriber_subscribe z err topic d sub))) = used (sSocket sub)"
  by (auto simp: Subscriber_subscribe_def used_def Let_def split: option.splits prod.splits)

lemma subscribe_each_used: "used (sSocket (snd (subscribe_each z err topics d sub))) = used (sSocket sub)"
proof (induction topics arbitrary: d sub)
  case (Cons t ts)
  then show ?case using Subscriber_subscribe_used [of z err t d sub] by (auto simp: case_prod_unfold Let_def)
qed simp

lemma startListening_live:
  assumes "used (sSocket sub) \<le> live"
  shows "\<exists>r ts d' live'. startListening z pb hs port sub d live = Some (r, ts, d', live') \<and>
    live' = live - used (sSocket sub) + (case r of None \<Rightarrow> 0 | Some ss \<Rightarrow> sub_used ss)"
proof (cases "isOk d")
  case True
  let ?ss = "\<lparr>psocket = UncontrolledSocket_new (zmq_getFd z (sSocket sub) \<noteq> -1), psubscriber = sub, subPort = port\<rparr>"
  obtain called sock where u: "UncontrolledSocket_read d () (psocket ?ss) = (called, sock)" by fastforce
  show ?thesis
  proof (cases called)
    case None
    with True u assms show ?thesis by (simp add: startListening_def sub_used_def)
  next
    case (Some p)
    obtain ts d' ss' where "event_read z pb hs (snd p) (?ss\<lparr>psocket := sock\<rparr>) = Some (ts, d', ss')"
      "used (sSocket (psubscriber ss')) = used (sSocket sub)"
      using event_read_returns [of z pb hs "snd p" "?ss\<lparr>psocket := sock\<rparr>"] by auto
    with True u Some assms show ?thesis
      by (auto simp: startListening_def sub_used_def case_prod_unfold Subscriber_close_eq)
  qed
qed (simp add: startListening_def Subscriber_close_eq)

lemma connect_topics_live:
  "\<exists>r ts d' live'. connect_topics z pb c err hs port a topics d live = Some (r, ts, d', live') \<and>
    live' = live + (case r of None \<Rightarrow> 0 | Some ss \<Rightarrow> sub_used ss)"
proof -
  obtain sub d1 l1 where s: "Subscriber_connect z c err a d Subscriber_new live = (sub, d1, l1)" by (metis prod_cases3)
  have l1: "l1 = live + used (sSocket sub)"
    using sub.open_law [OF s] by (simp add: Subscriber_new_def used_def)
  obtain d2 sub2 where e: "subscribe_each z err topics d1 sub = (d2, sub2)" by fastforce
  have u: "used (sSocket sub2) = used (sSocket sub)" using subscribe_each_used [of z err topics d1 sub] e by simp
  show ?thesis
    using startListening_live [of sub2 l1 z pb hs port d2] l1 u s e by (auto simp: connect_topics_def)
qed

lemma om_put_sum:
  "om_find m k = None \<Longrightarrow> (\<Sum>p\<leftarrow>om_put k v m. f (snd p)) = f v + (\<Sum>p\<leftarrow>m. (f (snd p) :: nat))"
  by (induction m) (auto simp: om_find_def split: if_splits)

lemma om_erase_sum:
  assumes "distinct (map fst m)" and "om_find m k = Some v"
  shows "(\<Sum>p\<leftarrow>m. f (snd p)) = f v + (\<Sum>p\<leftarrow>om_erase k m. (f (snd p) :: nat))"
  using assms
proof (induction m)
  case (Cons p m)
  have "filter (\<lambda>p. fst p \<noteq> fst a) m = m" if "fst a \<notin> fst ` set m" for a
    using that by (intro filter_True) force
  with Cons show ?case by (auto simp: om_find_def om_erase_def split: if_splits)
qed (simp add: om_find_def)

datatype ep_op = EpAddPeer bytes string u16 | EpRemovePeer string u16 | EpSubscribeLocal

fun ep_step ::
  "'s zmqlib \<Rightarrow> 'm pblib \<Rightarrow> curvelib \<Rightarrow> string \<Rightarrow> 'h EventSubscriptionMap \<Rightarrow> ep_op \<Rightarrow> 's EventProcessor \<times> nat \<Rightarrow> ('s EventProcessor \<times> nat) option"
where
  "ep_step z pb c err hs (EpAddPeer key host port) (x, live) =
     map_option (\<lambda>(_, _, s). s) (EventProcessor_addPeer z pb c err hs key host port x live)"
| "ep_step z pb c err hs (EpRemovePeer host port) (x, live) = Some (EventProcessor_removePeer host port x live)"
| "ep_step z pb c err hs EpSubscribeLocal (x, live) =
     map_option (\<lambda>(_, _, s). s) (subscribeLocal z pb c err hs x live)"

fun ep_run ::
  "'s zmqlib \<Rightarrow> 'm pblib \<Rightarrow> curvelib \<Rightarrow> string \<Rightarrow> 'h EventSubscriptionMap \<Rightarrow> ep_op list \<Rightarrow> 's EventProcessor \<times> nat \<Rightarrow> ('s EventProcessor \<times> nat) option"
where
  "ep_run z pb c err hs [] s = Some s"
| "ep_run z pb c err hs (e # es) s = Option.bind (ep_step z pb c err hs e s) (ep_run z pb c err hs es)"

definition ep_inv :: "nat \<Rightarrow> 's EventProcessor \<times> nat \<Rightarrow> bool" where
  "ep_inv n s \<longleftrightarrow> distinct (map fst (peerSockets (fst s))) \<and> snd s = n + ep_used (fst s)"

lemma distinct_om_put: "distinct (map fst m) \<Longrightarrow> om_find m k = None \<Longrightarrow> distinct (map fst (om_put k v m))"
proof -
  have set: "fst ` set (om_put k v m) = insert k (fst ` set m)" for m :: "('a \<times> 'b) list"
    by (induction m) auto
  show "distinct (map fst m) \<Longrightarrow> om_find m k = None \<Longrightarrow> distinct (map fst (om_put k v m))"
    by (induction m) (auto simp: om_find_def set split: if_splits)
qed

lemma addPeer_inv:
  assumes "ep_inv n (x, live)"
  shows "\<exists>ok ts s. EventProcessor_addPeer z pb c err hs key host port x live = Some (ok, ts, s) \<and> ep_inv n s"
proof -
  let ?x = "if peerTopics x = [] then x\<lparr>peerTopics := getPeerSubscriptions hs\<rparr> else x"
  have inv: "ep_inv n (?x, live)" using assms by (simp add: ep_inv_def ep_used_def)
  consider "peerTopics ?x = []" | "peerTopics ?x \<noteq> []" "om_find (peerSockets ?x) (peer_name host port) \<noteq> None"
    | (con) "peerTopics ?x \<noteq> []" "om_find (peerSockets ?x) (peer_name host port) = None" by blast
  then show ?thesis
  proof cases
    case con
    obtain r ts d' live' where t: "connect_topics z pb c err hs None (host, port, key) (peerTopics ?x) Details_new live = Some (r, ts, d', live')"
      "live' = live + (case r of None \<Rightarrow> 0 | Some ss \<Rightarrow> sub_used ss)"
      using connect_topics_live by blast
    have eq: "EventProcessor_addPeer z pb c err hs key host port x live = Some (case r of
        Some ss \<Rightarrow> (True, ts, ?x\<lparr>peerSockets := om_emplace (peer_name host port) ss (peerSockets ?x)\<rparr>, live')
      | None \<Rightarrow> (False, ts, ?x, live'))"
      using con t(1) unfolding EventProcessor_addPeer_def Let_def by (simp split: option.splits)
    show ?thesis
    proof (cases r)
      case None
      with eq inv t(2) show ?thesis by (intro exI [of _ False] exI [of _ ts] exI [of _ "(?x, live')"]) simp
    next
      case (Some ss)
      have d: "distinct (map fst (peerSockets ?x))" "live = n + ep_used ?x" using inv by (simp_all add: ep_inv_def)
      have "ep_inv n (?x\<lparr>peerSockets := om_emplace (peer_name host port) ss (peerSockets ?x)\<rparr>, live')"
        using distinct_om_put [OF d(1) con(2), of ss] om_put_sum [OF con(2), where v = ss and f = sub_used] d(2) t(2) Some con(2)
        by (simp add: ep_inv_def ep_used_def om_emplace_def)
      with eq Some show ?thesis by auto
    qed
  qed (use inv in \<open>auto simp: EventProcessor_addPeer_def Let_def split: if_splits\<close>)
qed

lemma removePeer_inv:
  assumes "ep_inv n (x, live)"
  shows "ep_inv n (EventProcessor_removePeer host port x live)"
proof -
  let ?k = "peer_name host port"
  have d: "distinct (map fst (peerSockets x))" "live = n + ep_used x" using assms by (simp_all add: ep_inv_def)
  have d': "distinct (map fst (om_erase ?k (peerSockets x)))"
    using d(1) unfolding om_erase_def by (induction "peerSockets x" arbitrary: x) (auto simp: distinct_map_filter)
  show ?thesis
  proof (cases "om_find (peerSockets x) ?k")
    case None
    then have "om_erase ?k (peerSockets x) = peerSockets x"
      unfolding om_erase_def om_find_def by (intro filter_True) (force simp: map_of_eq_None_iff)
    with None d show ?thesis by (simp add: EventProcessor_removePeer_def ep_inv_def ep_used_def Let_def)
  next
    case (Some ss)
    with om_erase_sum [OF d(1) Some, where f = sub_used] d d' show ?thesis
      by (auto simp: EventProcessor_removePeer_def ep_inv_def ep_used_def Subscriber_close_eq sub_used_def Let_def)
  qed
qed

lemma subscribe_ports_inv:
  assumes "ep_inv n (x, live)"
  shows "\<exists>ok ts s. subscribe_ports z pb c err hs subs d x live = Some (ok, ts, s) \<and> ep_inv n s"
  using assms
proof (induction subs arbitrary: d x live)
  case (Cons p subs)
  obtain port topics where p: "p = (port, topics)" by fastforce
  obtain r ts d' live' where t: "connect_topics z pb c err hs (Some port) (''127.0.0.1'', port, []) topics d live = Some (r, ts, d', live')"
    "live' = live + (case r of None \<Rightarrow> 0 | Some ss \<Rightarrow> sub_used ss)"
    using connect_topics_live by blast
  show ?case
  proof (cases r)
    case None
    with t p Cons.prems show ?thesis by (intro exI [of _ False] exI [of _ ts] exI [of _ "(x, live')"]) simp
  next
    case (Some ss)
    have "ep_inv n (x\<lparr>localSockets := localSockets x @ [ss]\<rparr>, live')"
      using Cons.prems t(2) Some by (simp add: ep_inv_def ep_used_def)
    from Cons.IH [OF this, of d'] t(1) Some p show ?thesis by auto
  qed
qed simp

lemma ep_step_inv:
  assumes "ep_inv n s"
  shows "\<exists>s'. ep_step z pb c err hs e s = Some s' \<and> ep_inv n s'"
proof -
  obtain x live where s: "s = (x, live)" by fastforce
  show ?thesis
  proof (cases e)
    case (EpAddPeer key host port)
    with s addPeer_inv [of n x live z pb c err hs key host port] assms show ?thesis by auto
  next
    case (EpRemovePeer host port)
    with s removePeer_inv [of n x live] assms show ?thesis by simp
  next
    case EpSubscribeLocal
    with s subscribe_ports_inv [of n x live z pb c err hs "getServiceSubscriptions hs" Details_new] assms show ?thesis
      by (auto simp: subscribeLocal_def)
  qed
qed

lemma ep_run_inv:
  assumes "ep_inv n s"
  shows "\<exists>s'. ep_run z pb c err hs es s = Some s' \<and> ep_inv n s'"
  using assms
proof (induction es arbitrary: s)
  case (Cons e es)
  obtain s1 where "ep_step z pb c err hs e s = Some s1" "ep_inv n s1" using ep_step_inv [OF Cons.prems] by blast
  with Cons.IH [of s1] show ?case by simp
qed simp

text \<open>However peers are added and removed and local services subscribed, and whatever the libraries answer, the
  processor always returns, and the sockets open afterwards are those open before and the ones its
  subscriptions hold.\<close>

theorem EventProcessor_sockets_accounted:
  "\<exists>x live. ep_run z pb c err hs es (EventProcessor_new, n) = Some (x, live) \<and> live = n + ep_used x"
proof -
  have "ep_inv n (EventProcessor_new, n)" by (simp add: ep_inv_def EventProcessor_new_def ep_used_def om_empty_def)
  from ep_run_inv [OF this, of z pb c err hs es] show ?thesis by (auto simp: ep_inv_def)
qed

section \<open>From the publisher to the handler\<close>

text \<open>What is registered is found.\<close>

lemma getServiceHandler_add:
  "getServiceHandler port topic (addHandler port' topic' h m) =
     (if port' = port then
        if topic' = topic then Some h
        else case getServiceHandler port topic m of
               None \<Rightarrow> (if topic' = [] then Some h else None)
             | Some h' \<Rightarrow>
                 (if topic' = [] \<and> (\<forall>hs. om_find (mapServiceHandlers m) port = Some hs \<longrightarrow> om_find hs topic = None)
                  then Some h else Some h')
      else getServiceHandler port topic m)"
  by (auto simp: getServiceHandler_def addHandler_def Let_def om_map_simps split: option.splits if_splits)

lemma getPeerHandler_add:
  "getPeerHandler topic (addPeerHandler topic' h m) = (if topic' = topic then Some h else getPeerHandler topic m)"
  by (simp add: getPeerHandler_def addPeerHandler_def om_map_simps)

text \<open>A subscription of peers to the empty topic asks for every event, but its handler is found for none.\<close>

lemma peer_empty_topic_unhandled:
  assumes "mapPeerHandlers m = [([], h)]" and "topic \<noteq> []"
  shows "getPeerSubscriptions m = [[]] \<and> getPeerHandler topic m = None"
  using assms by (simp add: getPeerSubscriptions_def getPeerHandler_def om_find_def)

text \<open>What the message library promises of the text of an event.\<close>

definition pb_event_prints :: "'m pblib \<Rightarrow> bool" where
  "pb_event_prints pb \<longleftrightarrow> (\<forall>e w. pb_print_event pb e = Inr w \<longrightarrow> pb_parse_event pb (string_bytes w) = Inr e)"

lemma EventPublisher_publish_frames:
  assumes "zmq_sends z part out" and "pSocket p = Some s" and "part s = []"
    and "EventPublisher_publish z pb topic m (Some p) = (d', Some p')" and "isOk d'"
  shows "\<exists>w s'. pb_print_event pb \<lparr>evBody = toAny pb m, evAuth = None\<rparr> = Inr w \<and> w \<noteq> [] \<and> topic \<noteq> []
    \<and> pSocket p' = Some s' \<and> part s' = [] \<and> out s' = out s @ [[string_bytes topic, string_bytes w]]"
proof -
  let ?e = "\<lparr>evBody = toAny pb m, evAuth = None\<rparr>"
  obtain w where w: "pb_print_event pb ?e = Inr w" "w \<noteq> []"
    using assms(4,5) by (auto simp: EventPublisher_publish_def toJson_def Let_def split: sum.splits if_splits prod.splits)
  then have pub: "Publisher_publish z topic (string_bytes w) Details_new p = (d', p')"
    using assms(4) by (simp add: EventPublisher_publish_def toJson_def split: prod.splits)
  have "topic \<noteq> []" using pub assms(2,5) by (auto simp: Publisher_publish_def Let_def split: if_splits)
  with w Publisher_publish_ok [OF assms(1-3) pub assms(5)] show ?thesis by blast
qed

lemma event_ready_delivers:
  assumes "zmq_delivers z queue" and "usock_waits (psocket ss)" and "subscribed (psubscriber ss)"
    and "sSocket (psubscriber ss) = Some r" and "queue r = [string_bytes topic, string_bytes w]"
    and "w \<noteq> []" and "topic \<noteq> []" and "pb_parse_event pb (string_bytes w) = Inr e"
    and "getHandler hs (subPort ss) topic = Some eh"
  shows "\<exists>ss'. event_ready z pb hs ss = Some ([(eh, e)], ss') \<and> usock_waits (psocket ss')"
proof -
  obtain d u where u: "UncontrolledSocket_event AsioOk (psocket ss) = (Some ((), d), u)" "isOk d" "uOpen u" "queued u"
    "\<not> wantRead u" "uCallback u = None" "\<exists>d. uWatch u = Some d \<and> isOk d"
    using usock_waits_event [OF assms(2)] by metis
  let ?s1 = "ss\<lparr>psocket := u\<rparr>"
  obtain r' where r: "Subscriber_recv z [] [] d (psubscriber ss) =
      (True, topic, string_bytes w, d, (psubscriber ss)\<lparr>sSocket := Some r'\<rparr>)"
    using Subscriber_recv_event [OF assms(1,4,3) u(2) assms(5), of "[]" "[]"] by blast
  let ?s2 = "?s1\<lparr>psubscriber := (psubscriber ss)\<lparr>sSocket := Some r'\<rparr>\<rparr>"
  have w: "string_bytes w \<noteq> []" using assms(6) by (simp add: string_bytes_def)
  have rec: "event_receive z pb hs d ?s1 = (Some (eh, e), d, ?s2)"
    using r w assms(7-9) u(2) by (simp add: event_receive_def fromJson_def)
  let ?u = "u\<lparr>pendingDetails := Details_new, uCallback := Some ()\<rparr>"
  have "event_read z pb hs d ?s1 = Some ([(eh, e)], d, ?s2\<lparr>psocket := ?u\<rparr>)"
    using rec u(2-5) by (subst event_read.simps) (simp add: UncontrolledSocket_read_def)
  moreover have "usock_waits ?u" using u by (auto simp: usock_waits_def)
  ultimately show ?thesis using u(1) by (simp add: event_ready_def)
qed

lemma event_closure_good:
  assumes "pb_packs pb" and "catalog_ok pb c" and "registered pb m c" and "ehType eh = pb_name pb m"
    and "evBody e = toAny pb m"
  shows "event_closure pb c eh e = (Some (ehName eh, m), Details_new)"
  using fromAny_toAny [OF assms(1-3) isOk_new] assms(4,5)
  by (simp add: event_closure_def service_closure_def peer_closure_def split: option.splits)

text \<open>Claim C11.
  An event that a service publishes without an error reaches the handler of every subscription that waits for its
  topic: the reader posts one task, for the handler of the topic, the task calls it with the message that
  was published, and the reader waits again.\<close>

theorem Event_reaches_handler:
  assumes "zmq_sends z part out" and "zmq_delivers z queue" and "pb_packs pb" and "pb_event_prints pb"
    and "catalog_ok pb c" and "registered pb m c"
    and "pSocket p = Some s" and "part s = []"
    and "EventPublisher_publish z pb topic m (Some p) = (d', Some p')" and "isOk d'"
    and "usock_waits (psocket ss)" and "subscribed (psubscriber ss)" and "sSocket (psubscriber ss) = Some r"
    and "queue r = concat (drop (length (out s)) (out (the (pSocket p'))))"
    and "getHandler hs (subPort ss) topic = Some eh" and "ehType eh = pb_name pb m"
  shows "\<exists>e ss'. event_ready z pb hs ss = Some ([(eh, e)], ss') \<and> usock_waits (psocket ss') \<and>
    event_closure pb c eh e = (Some (ehName eh, m), Details_new)"
proof -
  let ?e = "\<lparr>evBody = toAny pb m, evAuth = None\<rparr>"
  obtain w s' where w: "pb_print_event pb ?e = Inr w" "w \<noteq> []" "topic \<noteq> []"
    "pSocket p' = Some s'" "out s' = out s @ [[string_bytes topic, string_bytes w]]"
    using EventPublisher_publish_frames [OF assms(1,7,8,9,10)] by blast
  have q: "queue r = [string_bytes topic, string_bytes w]" using assms(14) w(4,5) by simp
  have parse: "pb_parse_event pb (string_bytes w) = Inr ?e" using assms(4) w(1) by (simp add: pb_event_prints_def)
  obtain ss' where "event_ready z pb hs ss = Some ([(eh, ?e)], ss')" "usock_waits (psocket ss')"
    using event_ready_delivers [OF assms(2,11,12,13) q w(2,3) parse assms(15)] by blast
  moreover have "event_closure pb c eh ?e = (Some (ehName eh, m), Details_new)"
    by (rule event_closure_good [OF assms(3,5,6,16)]) simp
  ultimately show ?thesis by blast
qed

lemma plain_pb_event_prints: "pb_event_prints plain_pb"
proof -
  have "plain_read (string_bytes w) = Inr a" if "plain_show a = Inr w" for a w
  proof -
    have n: "length (type_url a) < 256" "w = byte_char (of_nat (length (type_url a))) # type_url a @ bytes_string (any_value a)"
      using that by (auto simp: plain_show_def split: if_splits)
    have "unat (of_nat (length (type_url a)) :: byte) = length (type_url a)" using n(1) by (simp add: unat_of_nat)
    with n(2) show ?thesis
      by (simp add: plain_read_def string_bytes_def bytes_string_def comp_def)
  qed
  then show ?thesis by (auto simp: pb_event_prints_def plain_pb_def split: if_splits)
qed

definition demo_subs :: "string EventSubscriptionMap \<times> (string \<times> bytes) Catalog" where
  "demo_subs = addServiceSub plain_pb 5 (''Ping'', []) 1337 ''T'' ''h'' (EventSubscriptionMap_new, Catalog_new)"

definition demo_text :: string where
  "demo_text = byte_char 7 # ''fc/Ping'' @ bytes_string [9]"

definition demo_sub :: "zmq_queues SubSocket" where
  "demo_sub =
     \<lparr>psocket = apSocket (demo_port []),
      psubscriber = \<lparr>sCtx = True, sSocket = Some ([], [], [string_bytes ''T'', string_bytes demo_text]), subscribed = True\<rparr>,
      subPort = Some 1337\<rparr>"

theorem Event_reaches_handler_witness:
  "\<exists>eh e ss'. event_ready wide_zmq plain_pb (fst demo_subs) demo_sub = Some ([(eh, e)], ss') \<and>
     event_closure plain_pb (snd demo_subs) eh e = (Some (''h'', (''Ping'', [9])), Details_new)"
proof -
  let ?m = "(''Ping'', [9 :: byte])"
  let ?p = "\<lparr>pCtx = True, pSocket = Some ([], [], [])\<rparr> :: zmq_queues Publisher"
  let ?p' = "\<lparr>pCtx = True, pSocket = Some ([], [[string_bytes ''T'', string_bytes demo_text]], [])\<rparr> :: zmq_queues Publisher"
  let ?eh = "\<lparr>ehPort = Some 1337, ehTopic = ''T'', ehType = ''Ping'', ehName = ''h''\<rparr>"
  have cat: "catalog_ok plain_pb (snd demo_subs)" "registered plain_pb ?m (snd demo_subs)"
    by (auto simp: demo_subs_def addServiceSub_def registered_def Catalog_registerMsg_def Let_def om_map_simps
        plain_pb_def intro: catalog_ok_ops [unfolded Catalog_registerMsg_def Let_def])
      (simp add: catalog_ok_def Catalog_new_def om_empty_def om_find_def)
  have shown: "pb_print_event plain_pb \<lparr>evBody = toAny plain_pb ?m, evAuth = None\<rparr> = Inr demo_text"
    by (simp add: plain_pb_def toAny_def plain_show_def demo_text_def)
  have pub: "EventPublisher_publish wide_zmq plain_pb ''T'' ?m (Some ?p) = (Details_new, Some ?p')"
    using shown
    by (simp add: EventPublisher_publish_def toJson_def demo_text_def Publisher_publish_def publish_topic_def
        publish_data_def wide_zmq_def plain_zmq_def string_bytes_def)
  have waits: "usock_waits (psocket demo_sub)"
    using demo_port_idle [of "[]"] by (simp add: demo_sub_def api_idle_def)
  have handler: "getHandler (fst demo_subs) (subPort demo_sub) ''T'' = Some ?eh"
    by (simp add: getHandler_def demo_sub_def demo_subs_def addServiceSub_def getServiceHandler_add plain_pb_def)
  show ?thesis
    using Event_reaches_handler [OF wide_zmq_laws(1,3) plain_pb_packs plain_pb_event_prints cat, of ?p "([], [], [])" "''T''"
        Details_new ?p' demo_sub "([], [], [string_bytes ''T'', string_bytes demo_text])" "fst demo_subs" ?eh]
      pub waits handler
    by (auto simp: demo_sub_def plain_pb_def)
qed

end
