(* ===== verification/FC_Service.thy ===== *)
theory FC_Service
  imports FC_Events FC_Peers FC_Log
begin

text \<open>
  The life of a service: \<^verbatim>\<open>svc/service/Service\<close>, \<^verbatim>\<open>svc/service/Run.h\<close>, \<^verbatim>\<open>svc/service/ServiceStatusCode\<close>,
  \<^verbatim>\<open>svc/service/ServiceScene\<close> and \<^verbatim>\<open>svc/service/AbstractServiceParams\<close>.

  The interface \<^verbatim>\<open>IServiceParams\<close> is a record of functions over the state of the class that implements it.
  The main thread, the signals and the loop of the scheduler meet in the status, the ports and the
  interrupt counter: \<^verbatim>\<open>exec\<close> works through rounds, and every round has the inputs that arrived while
  the main thread slept or waited.  Times are left out: a round is one pass through the loop of
  \<^verbatim>\<open>exec\<close>.
\<close>

section \<open>Model\<close>

subsection \<open>Status codes\<close>

datatype ServiceStatusCode = ScNone | ScRunning | ScPaused | ScRestart | ScRestartPaused | ScShutdown

fun ServiceStatusCode_value :: "ServiceStatusCode \<Rightarrow> int" where
  "ServiceStatusCode_value ScNone = 0"
| "ServiceStatusCode_value ScRunning = 1"
| "ServiceStatusCode_value ScPaused = 2"
| "ServiceStatusCode_value ScRestart = 3"
| "ServiceStatusCode_value ScRestartPaused = 4"
| "ServiceStatusCode_value ScShutdown = 5"

fun ServiceStatusCode_to_string :: "ServiceStatusCode \<Rightarrow> string" where
  "ServiceStatusCode_to_string ScNone = ''Unknown '' @ to_string_int 0"
| "ServiceStatusCode_to_string ScRunning = ''Running''"
| "ServiceStatusCode_to_string ScPaused = ''Paused''"
| "ServiceStatusCode_to_string ScRestart = ''Restart''"
| "ServiceStatusCode_to_string ScRestartPaused = ''Restart Paused''"
| "ServiceStatusCode_to_string ScShutdown = ''Shutdown''"

subsection \<open>ServiceScene\<close>

text \<open>Objects by the hash of their type; what is found is the address, null when the type is not there.\<close>

type_synonym ServiceScene = "(u64, nat) omap"

definition ServiceScene_getPtr :: "u64 \<Rightarrow> ServiceScene \<Rightarrow> nat option" where
  "ServiceScene_getPtr t utils = om_find utils t"

definition ServiceScene_setPtr :: "u64 \<Rightarrow> nat \<Rightarrow> ServiceScene \<Rightarrow> ServiceScene" where
  "ServiceScene_setPtr t p utils = om_put t p utils"

subsection \<open>IServiceParams\<close>

text \<open>A call that never returns, or ends the process by a fault, is \<open>None\<close>.\<close>

record ('p, 'm, 'h) IServiceParams =
  ip_initCmdLineParams :: "'p \<Rightarrow> ArgParser \<Rightarrow> ArgParser"
  ip_setCmdLineArgs :: "Args \<Rightarrow> string list \<Rightarrow> 'p \<Rightarrow> ('p \<times> string list) option"
  ip_getLogFile :: "'p \<Rightarrow> string"
  ip_getNumEventThreads :: "'p \<Rightarrow> nat"
  ip_getApiPort :: "'p \<Rightarrow> u16"
  ip_getEventPort :: "'p \<Rightarrow> u16"
  ip_getServerKey :: "'p \<Rightarrow> bytes"
  ip_setupScene :: "'p \<Rightarrow> ServiceScene \<Rightarrow> 'p \<times> ServiceScene"
  ip_addApiHandlers :: "'p \<Rightarrow> bool \<Rightarrow> (u64, 'h) omap \<times> 'm Catalog \<Rightarrow> (u64, 'h) omap \<times> 'm Catalog"
  ip_addEventSubscriptions :: "'p \<Rightarrow> 'h EventSubscriptionMap \<times> 'm Catalog \<Rightarrow> 'h EventSubscriptionMap \<times> 'm Catalog"
  ip_getAuthenticator :: "'p \<Rightarrow> 'm IAuthenticator option"
  ip_preInit :: "bool \<Rightarrow> 'p \<times> ServiceScene \<Rightarrow> (bool \<times> 'p \<times> ServiceScene) option"
  ip_init :: "bool \<Rightarrow> 'p \<Rightarrow> (bool \<times> 'p) option"
  ip_cleanup :: "'p \<Rightarrow> 'p"
  ip_postCleanup :: "'p \<Rightarrow> 'p"

text \<open>The defaults of \<^verbatim>\<open>AbstractServiceParams\<close>; the log file has to be given by the class.\<close>

definition AbstractServiceParams :: "('p, 'm, 'h) IServiceParams" where
  "AbstractServiceParams =
     \<lparr>ip_initCmdLineParams = (\<lambda>_ a. a), ip_setCmdLineArgs = (\<lambda>_ argv p. Some (p, argv)), ip_getLogFile = (\<lambda>_. []),
      ip_getNumEventThreads = (\<lambda>_. 1), ip_getApiPort = (\<lambda>_. 0), ip_getEventPort = (\<lambda>_. 0), ip_getServerKey = (\<lambda>_. []),
      ip_setupScene = (\<lambda>p s. (p, s)), ip_addApiHandlers = (\<lambda>_ _ h. h), ip_addEventSubscriptions = (\<lambda>_ h. h),
      ip_getAuthenticator = (\<lambda>_. None), ip_preInit = (\<lambda>_ s. Some (True, s)), ip_init = (\<lambda>_ p. Some (True, p)),
      ip_cleanup = id, ip_postCleanup = id\<rparr>"

subsection \<open>Service\<close>

record ('s, 'k, 'm) libs =
  lb_zmq :: "'s zmqlib"
  lb_ossl :: "'k openssl"
  lb_curve :: curvelib
  lb_pop :: string
  lb_err :: string
  lb_pb :: "'m pblib"

text \<open>\<open>svLive\<close> are the open sockets of the message library, \<open>svSignals\<close> tells whether the handlers are
  installed, \<open>svStuck\<close> whether the thread of the scheduler is in a loop that never ends, \<open>svTasks\<close> are the
  posted events.  The pointers the service itself puts into the scene (the context of the message
  library, its publisher and its processor) are left out.\<close>

record ('s, 'm, 'h, 'p) Service =
  svArgv :: "string list"
  svPaused :: bool
  svParams :: "'p option"
  svStatus :: ServiceStatusCode
  svScheduler :: Scheduler
  svScene :: ServiceScene
  svLive :: nat
  bRandInit :: bool
  bSignalsInit :: bool
  bSceneSetup :: bool
  bArgsInit :: bool
  bPreInit :: bool
  bInit :: bool
  bPostInit :: bool
  interrupts :: nat
  svApiMap :: "(u64, 'h) omap"
  svCatalog :: "'m Catalog"
  svSubs :: "'h EventSubscriptionMap"
  apiProcessor :: "('s, 'm, 'h) ApiPort option"
  eventPublisher :: "'s EventPublisher option"
  eventProcessor :: "'s EventProcessor option"
  svTasks :: "('h EventHandler \<times> Event) list"
  svLog :: log_state
  svSignals :: bool
  svStuck :: bool

definition Service_new :: "nat \<Rightarrow> 'm Catalog \<Rightarrow> log_state \<Rightarrow> ('s, 'm, 'h, 'p) Service" where
  "Service_new live c l =
     \<lparr>svArgv = [], svPaused = False, svParams = None, svStatus = ScRunning, svScheduler = Scheduler_new, svScene = om_empty,
      svLive = live, bRandInit = False, bSignalsInit = False, bSceneSetup = False, bArgsInit = False, bPreInit = False,
      bInit = False, bPostInit = False, interrupts = 0, svApiMap = om_empty, svCatalog = c, svSubs = EventSubscriptionMap_new,
      apiProcessor = None, eventPublisher = None, eventProcessor = None, svTasks = [], svLog = l, svSignals = False,
      svStuck = False\<rparr>"

definition Service_setArgs :: "string list \<Rightarrow> ('s, 'm, 'h, 'p) Service \<Rightarrow> ('s, 'm, 'h, 'p) Service" where
  "Service_setArgs argv x = x\<lparr>svArgv := argv\<rparr>"

definition Service_setPaused :: "bool \<Rightarrow> ('s, 'm, 'h, 'p) Service \<Rightarrow> ('s, 'm, 'h, 'p) Service" where
  "Service_setPaused b x = x\<lparr>svPaused := b\<rparr>"

definition Service_setParams :: "'p \<Rightarrow> ('s, 'm, 'h, 'p) Service \<Rightarrow> ('s, 'm, 'h, 'p) Service" where
  "Service_setParams p x = x\<lparr>svParams := Some p\<rparr>"

definition Service_setStatus :: "ServiceStatusCode \<Rightarrow> ('s, 'm, 'h, 'p) Service \<Rightarrow> ('s, 'm, 'h, 'p) Service" where
  "Service_setStatus code x = x\<lparr>svStatus := code\<rparr>"

subsubsection \<open>Signals\<close>

datatype signal = SigInt | SigTerm

definition MAX_INTERRUPTS :: nat where
  "MAX_INTERRUPTS = 5"

text \<open>\<open>None\<close> is the immediate end of the process.\<close>

definition handleSignal :: "signal \<Rightarrow> ('s, 'm, 'h, 'p) Service \<Rightarrow> ('s, 'm, 'h, 'p) Service option" where
  "handleSignal sig x =
     (case sig of
        SigInt \<Rightarrow>
          let n = interrupts x; x = x\<lparr>interrupts := n + 1\<rparr>
          in if n = 0 then Some (Service_setStatus ScShutdown x)
             else if interrupts x \<ge> MAX_INTERRUPTS then None
             else Some x
      | SigTerm \<Rightarrow> Some (Service_setStatus ScShutdown x))"

definition initSignals :: "('s, 'm, 'h, 'p) Service \<Rightarrow> (bool \<times> ('s, 'm, 'h, 'p) Service) option" where
  "initSignals x = Some (True, x\<lparr>svSignals := True\<rparr>)"

definition cleanupSignals :: "('s, 'm, 'h, 'p) Service \<Rightarrow> ('s, 'm, 'h, 'p) Service" where
  "cleanupSignals x = x\<lparr>svSignals := False\<rparr>"

subsubsection \<open>Stages\<close>

definition initArgs ::
  "('p, 'm, 'h) IServiceParams \<Rightarrow> 'p \<Rightarrow> ('s, 'm, 'h, 'p) Service \<Rightarrow> (bool \<times> ('s, 'm, 'h, 'p) Service) option"
where
  "initArgs P p x =
     (if svArgv x = [] then Some (True, x)
      else
        let parser = ip_initCmdLineParams P p (LogArgs_initCmdLineParams ArgParser_new) in
        do { a \<leftarrow> ArgParser_parse parser (Some (svArgv x));
             let l = LogArgs_setCmdLineArgs a (svLog x);
             let l = (if LogArgs_logFile a = [] then log_setFile (ip_getLogFile P p) l else l);
             (p, argv) \<leftarrow> ip_setCmdLineArgs P a (svArgv x) p;
             let x = x\<lparr>svLog := l, svParams := Some p, svArgv := argv\<rparr>;
             let x = (if Args_hasError a then Service_setStatus ScShutdown x else x);
             Some (\<not> Args_hasError a, x) })"

definition initRand :: "('s, 'm, 'h, 'p) Service \<Rightarrow> (bool \<times> ('s, 'm, 'h, 'p) Service) option" where
  "initRand x = Some (True, x)"

definition Service_setupScene ::
  "('p, 'm, 'h) IServiceParams \<Rightarrow> 'p \<Rightarrow> ('s, 'm, 'h, 'p) Service \<Rightarrow> (bool \<times> ('s, 'm, 'h, 'p) Service) option"
where
  "Service_setupScene P p x =
     (let (p, scene) = ip_setupScene P p (svScene x) in Some (True, x\<lparr>svParams := Some p, svScene := scene\<rparr>))"

definition Service_preInit ::
  "('p, 'm, 'h) IServiceParams \<Rightarrow> 'p \<Rightarrow> ('s, 'm, 'h, 'p) Service \<Rightarrow> (bool \<times> ('s, 'm, 'h, 'p) Service) option"
where
  "Service_preInit P p x =
     map_option (\<lambda>(ok, p, scene). (ok, x\<lparr>svParams := Some p, svScene := scene\<rparr>)) (ip_preInit P (svPaused x) (p, svScene x))"

definition Service_postInit ::
  "('p, 'm, 'h) IServiceParams \<Rightarrow> 'p \<Rightarrow> ('s, 'm, 'h, 'p) Service \<Rightarrow> (bool \<times> ('s, 'm, 'h, 'p) Service) option"
where
  "Service_postInit P p x = map_option (\<lambda>(ok, p). (ok, x\<lparr>svParams := Some p\<rparr>)) (ip_init P (svPaused x) p)"

subsubsection \<open>Ports\<close>

text \<open>Replacing one of the owned objects destroys the old one, which closes its socket.\<close>

definition reset_publisher :: "('s, 'm, 'h, 'p) Service \<Rightarrow> ('s, 'm, 'h, 'p) Service" where
  "reset_publisher x =
     x\<lparr>eventPublisher := None,
       svLive := (case eventPublisher x of None \<Rightarrow> svLive x | Some p \<Rightarrow> EventPublisher_reset p (svLive x))\<rparr>"

definition reset_api :: "('s, 'm, 'h, 'p) Service \<Rightarrow> ('s, 'm, 'h, 'p) Service" where
  "reset_api x =
     x\<lparr>apiProcessor := None,
       svLive := (case apiProcessor x of None \<Rightarrow> svLive x | Some p \<Rightarrow> snd (Server_close (apServer p) (svLive x)))\<rparr>"

definition close_subs :: "'s SubSocket list \<Rightarrow> nat \<Rightarrow> nat" where
  "close_subs = fold (\<lambda>ss live. snd (Subscriber_close (psubscriber ss) live))"

definition reset_processor :: "('s, 'm, 'h, 'p) Service \<Rightarrow> ('s, 'm, 'h, 'p) Service" where
  "reset_processor x =
     x\<lparr>eventProcessor := None,
       svLive := (case eventProcessor x of
                    None \<Rightarrow> svLive x
                  | Some e \<Rightarrow> close_subs (localSockets e @ map snd (peerSockets e)) (svLive x))\<rparr>"

definition start_publisher ::
  "('s, 'k, 'm) libs \<Rightarrow> ('p, 'm, 'h) IServiceParams \<Rightarrow> 'p \<Rightarrow> ('s, 'm, 'h, 'p) Service \<Rightarrow> (bool \<times> ('s, 'm, 'h, 'p) Service) option"
where
  "start_publisher L P p x =
     (if ip_getEventPort P p > 0 \<and> \<not> svPaused x then
        let x = reset_publisher x;
            (ok, e, live) = EventPublisher_openPort (lb_zmq L) (lb_ossl L) (lb_curve L) (lb_pop L)
                              (ip_getEventPort P p) (ip_getServerKey P p) None (svLive x)
        in Some (ok, x\<lparr>eventPublisher := Some e, svLive := live\<rparr>)
      else Some (True, x))"

definition start_api ::
  "('s, 'k, 'm) libs \<Rightarrow> ('p, 'm, 'h) IServiceParams \<Rightarrow> 'p \<Rightarrow> ('s, 'm, 'h, 'p) Service \<Rightarrow> (bool \<times> ('s, 'm, 'h, 'p) Service) option"
where
  "start_api L P p x =
     (if ip_getApiPort P p > 0 then
        let (hs, c) = ip_addApiHandlers P p (svPaused x) (svApiMap x, svCatalog x);
            x = reset_api (x\<lparr>svApiMap := hs, svCatalog := c\<rparr>);
            port = ApiPort_setAuthenticator (ip_getAuthenticator P p) ApiPort_new
        in map_option (\<lambda>(ok, port, live). (ok, x\<lparr>apiProcessor := Some port, svLive := live\<rparr>))
             (ApiPort_openPort (lb_zmq L) (lb_ossl L) (lb_curve L) (lb_pop L) (ip_getApiPort P p) (ip_getServerKey P p)
                port (svLive x))
      else Some (True, x))"

definition start_processor ::
  "('s, 'k, 'm) libs \<Rightarrow> ('p, 'm, 'h) IServiceParams \<Rightarrow> 'p \<Rightarrow> ('s, 'm, 'h, 'p) Service \<Rightarrow> (bool \<times> ('s, 'm, 'h, 'p) Service) option"
where
  "start_processor L P p x =
     (if \<not> svPaused x then
        let (subs, c) = ip_addEventSubscriptions P p (svSubs x, svCatalog x);
            x = reset_processor (x\<lparr>svSubs := subs, svCatalog := c\<rparr>)
        in map_option (\<lambda>(ok, ts, e, live). (ok, x\<lparr>eventProcessor := Some e, svTasks := svTasks x @ ts, svLive := live\<rparr>))
             (subscribeLocal (lb_zmq L) (lb_pb L) (lb_curve L) (lb_err L) subs EventProcessor_new (svLive x))
      else Some (True, x))"

definition andThen :: "('a \<Rightarrow> (bool \<times> 'a) option) \<Rightarrow> ('a \<Rightarrow> (bool \<times> 'a) option) \<Rightarrow> 'a \<Rightarrow> (bool \<times> 'a) option" where
  "andThen f g x = do { (ok, x) \<leftarrow> f x; if ok then g x else Some (False, x) }"

text \<open>The number of minutes of the clock is an argument of starting the scheduler.\<close>

definition startService ::
  "nat \<Rightarrow> ('s, 'k, 'm) libs \<Rightarrow> ('p, 'm, 'h) IServiceParams \<Rightarrow> 'p \<Rightarrow> ('s, 'm, 'h, 'p) Service \<Rightarrow> (bool \<times> ('s, 'm, 'h, 'p) Service) option"
where
  "startService now L P p x =
     (let x = x\<lparr>svScheduler :=
                Scheduler_start now (Scheduler_setThreads now (ip_getNumEventThreads P p) (svScheduler x))\<rparr>
      in andThen (start_publisher L P p) (andThen (start_api L P p) (start_processor L P p)) x)"

text \<open>Stopping the scheduler joins its threads, one of which may be stuck.\<close>

definition stopService :: "('s, 'm, 'h, 'p) Service \<Rightarrow> ('s, 'm, 'h, 'p) Service option" where
  "stopService x =
     (let x = reset_api (reset_processor x)
      in if svStuck x then None
         else Some (reset_publisher (x\<lparr>svScheduler := Scheduler_stop (svScheduler x)\<rparr>)))"

subsubsection \<open>Initialization, main loop, end\<close>

definition stage ::
  "('a \<Rightarrow> bool) \<Rightarrow> ((bool \<Rightarrow> bool) \<Rightarrow> 'a \<Rightarrow> 'a) \<Rightarrow> ('a \<Rightarrow> (bool \<times> 'a) option) \<Rightarrow> 'a \<Rightarrow> (bool \<times> 'a) option"
where
  "stage get upd f x = (if get x then Some (True, x) else do { (ok, x) \<leftarrow> f x; Some (ok, upd (\<lambda>_. ok) x) })"

text \<open>Every stage reads the parameters as the one before left them.\<close>

definition with_params :: "('p \<Rightarrow> ('s, 'm, 'h, 'p) Service \<Rightarrow> (bool \<times> ('s, 'm, 'h, 'p) Service) option) \<Rightarrow> ('s, 'm, 'h, 'p) Service
   \<Rightarrow> (bool \<times> ('s, 'm, 'h, 'p) Service) option"
where
  "with_params f x = (case svParams x of None \<Rightarrow> Some (False, x) | Some p \<Rightarrow> f p x)"

definition Service_init ::
  "nat \<Rightarrow> ('s, 'k, 'm) libs \<Rightarrow> ('p, 'm, 'h) IServiceParams \<Rightarrow> ('s, 'm, 'h, 'p) Service \<Rightarrow> (bool \<times> ('s, 'm, 'h, 'p) Service) option"
where
  "Service_init now L P x =
     (if svParams x = None then Some (False, x)
      else
        andThen (stage bSignalsInit bSignalsInit_update initSignals)
        (andThen (stage bArgsInit bArgsInit_update (with_params (initArgs P)))
        (andThen (stage bRandInit bRandInit_update initRand)
        (andThen (stage bSceneSetup bSceneSetup_update (with_params (Service_setupScene P)))
        (andThen (stage bPreInit bPreInit_update (with_params (Service_preInit P)))
        (andThen (stage bInit bInit_update (with_params (startService now L P)))
          (stage bPostInit bPostInit_update (with_params (Service_postInit P)))))))) x)"

definition Service_cleanup ::
  "('p, 'm, 'h) IServiceParams \<Rightarrow> ('s, 'm, 'h, 'p) Service \<Rightarrow> ('s, 'm, 'h, 'p) Service option"
where
  "Service_cleanup P x =
     (let x = x\<lparr>svParams := map_option (ip_cleanup P) (svParams x)\<rparr> in
      do { x \<leftarrow> stopService x;
           let x = x\<lparr>svParams := map_option (ip_postCleanup P) (svParams x)\<rparr>;
           Some (cleanupSignals x) })"

text \<open>What happens to a service from outside: signals, a status from the scene, events of its request port, and data on
  one of its subscriptions, which posts the tasks of the events it brings.  The scheduler has one thread, since no class
  gives another number than \<^verbatim>\<open>AbstractServiceParams\<close>; it handles events only while it is not stuck.  Subscriptions
  to peers are not among them: nothing calls \<^verbatim>\<open>EventProcessor::addPeer\<close>.  What the handlers of posted events do is
  not part of the service.\<close>

datatype 'm svc_input = InSignal signal | InStatus ServiceStatusCode | InApi "'m api_event" | InEvent nat

datatype 'a svc_result = SvcEnded 'a | SvcRunning 'a | SvcHang | SvcFault | SvcExit

definition subscription_ready ::
  "('s, 'k, 'm) libs \<Rightarrow> nat \<Rightarrow> ('s, 'm, 'h, 'p) Service \<Rightarrow> ('s, 'm, 'h, 'p) Service"
where
  "subscription_ready L i x =
     (case eventProcessor x of
        None \<Rightarrow> x
      | Some ep \<Rightarrow>
          if svStuck x \<or> length (localSockets ep) \<le> i then x
          else
            case event_ready (lb_zmq L) (lb_pb L) (svSubs x) (localSockets ep ! i) of
              None \<Rightarrow> x\<lparr>svStuck := True\<rparr>
            | Some (ts, ss) \<Rightarrow>
                x\<lparr>eventProcessor := Some (ep\<lparr>localSockets := (localSockets ep)[i := ss]\<rparr>), svTasks := svTasks x @ ts\<rparr>)"

definition svc_step ::
  "('s, 'k, 'm) libs \<Rightarrow> 'm svc_input \<Rightarrow> ('s, 'm, 'h, 'p) Service \<Rightarrow> ('s, 'm, 'h, 'p) Service svc_result"
where
  "svc_step L i x =
     (case i of
        InSignal sig \<Rightarrow>
          if svSignals x then (case handleSignal sig x of Some x \<Rightarrow> SvcRunning x | None \<Rightarrow> SvcExit) else SvcExit
      | InStatus code \<Rightarrow> SvcRunning (Service_setStatus code x)
      | InEvent i \<Rightarrow> SvcRunning (subscription_ready L i x)
      | InApi e \<Rightarrow>
          (case apiProcessor x of
             None \<Rightarrow> SvcRunning x
           | Some port \<Rightarrow>
               if svStuck x then SvcRunning x
               else
                 case api_step (lb_zmq L) (lb_pb L) (svCatalog x) (svApiMap x) port e of
                   TaskDone port \<Rightarrow> SvcRunning (x\<lparr>apiProcessor := Some port\<rparr>)
                 | TaskHang \<Rightarrow> SvcRunning (x\<lparr>svStuck := True\<rparr>)
                 | TaskFault \<Rightarrow> SvcFault))"

fun svc_inputs ::
  "('s, 'k, 'm) libs \<Rightarrow> 'm svc_input list \<Rightarrow> ('s, 'm, 'h, 'p) Service \<Rightarrow> ('s, 'm, 'h, 'p) Service svc_result"
where
  "svc_inputs L [] x = SvcRunning x"
| "svc_inputs L (i # is) x = (case svc_step L i x of SvcRunning x \<Rightarrow> svc_inputs L is x | r \<Rightarrow> r)"

definition exec_end :: "('p, 'm, 'h) IServiceParams \<Rightarrow> ('s, 'm, 'h, 'p) Service \<Rightarrow> ('s, 'm, 'h, 'p) Service svc_result" where
  "exec_end P x = (case Service_cleanup P x of None \<Rightarrow> SvcHang | Some x \<Rightarrow> SvcEnded x)"

fun exec ::
  "nat \<Rightarrow> ('s, 'k, 'm) libs \<Rightarrow> ('p, 'm, 'h) IServiceParams \<Rightarrow> 'm svc_input list list \<Rightarrow> ('s, 'm, 'h, 'p) Service \<Rightarrow> ('s, 'm, 'h, 'p) Service svc_result"
where
  "exec now L P [] x = (if svStatus x = ScRunning then SvcRunning x else exec_end P x)"
| "exec now L P (is # rounds) x =
     (if svStatus x = ScRunning then
        case Service_init now L P x of
          None \<Rightarrow> SvcHang
        | Some (ok, x) \<Rightarrow>
            (case svc_inputs L is x of SvcRunning x \<Rightarrow> exec now L P rounds x | r \<Rightarrow> r)
      else exec_end P x)"

definition Service_run ::
  "nat \<Rightarrow> ('s, 'k, 'm) libs \<Rightarrow> ('p, 'm, 'h) IServiceParams \<Rightarrow> 'p \<Rightarrow> string list \<Rightarrow> bool \<Rightarrow> nat \<Rightarrow> 'm Catalog \<Rightarrow> log_state
   \<Rightarrow> 'm svc_input list list \<Rightarrow> ('s, 'm, 'h, 'p) Service svc_result"
where
  "Service_run now L P p argv paused live c l rounds =
     exec now L P rounds (Service_setParams p (Service_setPaused paused (Service_setArgs argv (Service_new live c l))))"

text \<open>The entry point runs services until one ends with a status that is neither a restart nor paused.  \<open>renew\<close> makes
  the parameters of the next run in the environment the last one left; the rounds of every run are given.  The
  result is the exit code.\<close>

fun run ::
  "nat \<Rightarrow> ('s, 'k, 'm) libs \<Rightarrow> ('p, 'm, 'h) IServiceParams \<Rightarrow> ('p option \<Rightarrow> 'p) \<Rightarrow> 'p \<Rightarrow> ServiceStatusCode \<Rightarrow> string list \<Rightarrow> nat
   \<Rightarrow> 'm Catalog \<Rightarrow> log_state \<Rightarrow> 'm svc_input list list list \<Rightarrow> int svc_result"
where
  "run now L P renew p code argv live c l [] = SvcRunning 0"
| "run now L P renew p code argv live c l (rounds # later) =
     (case Service_run now L P p argv (code = ScPaused) live c l rounds of
        SvcEnded (x :: ('s, 'm, 'h, 'p) Service) \<Rightarrow>
          let code = (if svStatus x = ScRestart then ScRunning
                      else if svStatus x = ScRestartPaused then ScPaused else svStatus x)
          in if code = ScRunning \<or> code = ScPaused
             then run now L P renew (renew (svParams x)) code (svArgv x) (svLive x) (svCatalog x) (svLog x) later
             else SvcEnded (if code \<noteq> ScShutdown then ServiceStatusCode_value code else 0)
      | SvcRunning _ \<Rightarrow> SvcRunning 0
      | SvcHang \<Rightarrow> SvcHang
      | SvcFault \<Rightarrow> SvcFault
      | SvcExit \<Rightarrow> SvcExit)"

section \<open>Sockets of a service\<close>

definition pub_used :: "'s EventPublisher option \<Rightarrow> nat" where
  "pub_used e = (case e of Some (Some p) \<Rightarrow> used (pSocket p) | _ \<Rightarrow> 0)"

definition api_used :: "('s, 'm, 'h) ApiPort option \<Rightarrow> nat" where
  "api_used a = (case a of Some port \<Rightarrow> used (socket (apServer port)) | None \<Rightarrow> 0)"

definition proc_used :: "'s EventProcessor option \<Rightarrow> nat" where
  "proc_used e = (case e of Some x \<Rightarrow> ep_used x | None \<Rightarrow> 0)"

definition svc_live :: "nat \<Rightarrow> ('s, 'm, 'h, 'p) Service \<Rightarrow> bool" where
  "svc_live n x \<longleftrightarrow>
     svLive x = n + pub_used (eventPublisher x) + api_used (apiProcessor x) + proc_used (eventProcessor x)"

text \<open>A step that keeps an invariant, whatever it returns.\<close>

definition keeps_inv :: "('a \<Rightarrow> bool) \<Rightarrow> ('a \<Rightarrow> (bool \<times> 'a) option) \<Rightarrow> bool" where
  "keeps_inv I f \<longleftrightarrow> (\<forall>x ok x'. I x \<longrightarrow> f x = Some (ok, x') \<longrightarrow> I x')"

lemma keeps_invI: "(\<And>x ok x'. I x \<Longrightarrow> f x = Some (ok, x') \<Longrightarrow> I x') \<Longrightarrow> keeps_inv I f"
  by (simp add: keeps_inv_def)

lemma keeps_invD: "keeps_inv I f \<Longrightarrow> I x \<Longrightarrow> f x = Some (ok, x') \<Longrightarrow> I x'"
  unfolding keeps_inv_def by blast

lemma keeps_andThen:
  assumes "keeps_inv I f" and "keeps_inv I g"
  shows "keeps_inv I (andThen f g)"
proof (rule keeps_invI)
  fix x ok x' assume x: "I x" and "andThen f g x = Some (ok, x')"
  then obtain ok1 x1 where f: "f x = Some (ok1, x1)" and g: "if ok1 then g x1 = Some (ok, x') else x' = x1"
    by (cases "f x") (auto simp: andThen_def split: if_splits)
  have "I x1" by (rule keeps_invD [OF assms(1) x f])
  with g keeps_invD [OF assms(2), of x1 ok x'] show "I x'" by (simp split: if_splits)
qed

lemma keeps_stage:
  assumes "keeps_inv I f" and "\<And>b x. I x \<Longrightarrow> I (upd b x)"
  shows "keeps_inv I (stage get upd f)"
proof (rule keeps_invI)
  fix x ok x' assume x: "I x" and st: "stage get upd f x = Some (ok, x')"
  show "I x'"
  proof (cases "get x")
    case False
    with st obtain x1 where f: "f x = Some (ok, x1)" "x' = upd (\<lambda>_. ok) x1"
      by (cases "f x") (auto simp: stage_def)
    from assms(2) [OF keeps_invD [OF assms(1) x f(1)]] f(2) show ?thesis by simp
  qed (use st x in \<open>simp add: stage_def\<close>)
qed

lemma keeps_with_params: "(\<And>p. keeps_inv I (f p)) \<Longrightarrow> keeps_inv I (with_params f)"
  by (rule keeps_invI) (auto simp: with_params_def split: option.splits dest: keeps_invD)

lemma close_subs_eq: "close_subs ss live = live - (\<Sum>s\<leftarrow>ss. sub_used s)"
proof -
  have "fold (\<lambda>ss live. snd (Subscriber_close (psubscriber ss) live)) ss live = live - (\<Sum>s\<leftarrow>ss. sub_used s)"
    by (induction ss arbitrary: live) (auto simp: Subscriber_close_eq sub_used_def)
  then show ?thesis by (simp add: close_subs_def)
qed

lemma ep_used_subs: "(\<Sum>s\<leftarrow>localSockets e @ map snd (peerSockets e). sub_used s) = ep_used e"
  by (simp add: ep_used_def comp_def)

lemma EventPublisher_reset_eq: "EventPublisher_reset e live = live - pub_used (Some e)"
  by (cases e) (simp_all add: EventPublisher_reset_def pub_used_def Publisher_close_eq)

lemma reset_publisher_live: "svc_live n x \<Longrightarrow> svc_live n (reset_publisher x)"
  by (cases "eventPublisher x") (simp_all add: svc_live_def reset_publisher_def EventPublisher_reset_eq pub_used_def)

lemma reset_api_live: "svc_live n x \<Longrightarrow> svc_live n (reset_api x)"
  by (cases "apiProcessor x") (simp_all add: svc_live_def reset_api_def Server_close_eq api_used_def)

lemma reset_processor_live: "svc_live n x \<Longrightarrow> svc_live n (reset_processor x)"
  by (cases "eventProcessor x")
    (simp_all add: svc_live_def reset_processor_def close_subs_eq proc_used_def ep_used_subs del: map_append sum_list_append)

lemma EventPublisher_openPort_live:
  assumes "EventPublisher_openPort z os c pop port key None live = (ok, e, live')"
  shows "live' = live + pub_used (Some e)"
proof -
  obtain p d l where b: "Publisher_bind z os c pop ([], port, key) Details_new Publisher_new live = (p, d, l)" by (metis prod_cases3)
  have "l = live + used (pSocket p)" "isOk d \<longleftrightarrow> pSocket p \<noteq> None"
    using pub.open_law [OF b] by (simp_all add: Publisher_new_def used_def)
  with assms b show ?thesis
    by (auto simp: EventPublisher_openPort_def EventPublisher_reset_def pub_used_def Publisher_close_eq split: if_splits)
qed

lemma ApiPort_openPort_live:
  assumes "ApiPort_openPort z os c pop port key x live = Some (ok, x', live')" and "socket (apServer x) = None"
  shows "live' = live + used (socket (apServer x'))"
proof -
  obtain sv d l where b: "Server_bind z os c pop ([], port, key) Details_new (apServer x) live = (sv, d, l)" by (metis prod_cases3)
  have l: "l = live + used (socket sv)" using srv.open_law [OF b] assms(2) by (simp add: used_def)
  show ?thesis
  proof (cases "isOk d")
    case True
    let ?x = "x\<lparr>apServer := sv, apSocket := UncontrolledSocket_new (Server_getFd z sv \<noteq> -1)\<rparr>"
    obtain called sock where u: "UncontrolledSocket_read d () (apSocket ?x) = (called, sock)" by fastforce
    show ?thesis
    proof (cases called)
      case None
      with assms(1) b True u l show ?thesis by (auto simp: ApiPort_openPort_def)
    next
      case (Some q)
      with assms(1) b True u obtain d' where "ApiPort_read z (snd q) (?x\<lparr>apSocket := sock\<rparr>) = Some (d', x')" "live' = l"
        by (auto simp: ApiPort_openPort_def case_prod_unfold)
      with ApiPort_read_keeps [OF this(1)] l show ?thesis by simp
    qed
  qed (use assms(1) b l in \<open>auto simp: ApiPort_openPort_def\<close>)
qed

lemma start_publisher_live: "keeps_inv (svc_live n) (start_publisher L P p)"
proof (rule keeps_invI)
  fix x ok x' assume x: "svc_live n x" and st: "start_publisher L P p x = Some (ok, x')"
  show "svc_live n x'"
  proof (cases "ip_getEventPort P p > 0 \<and> \<not> svPaused x")
    case True
    obtain o1 e live where b: "EventPublisher_openPort (lb_zmq L) (lb_ossl L) (lb_curve L) (lb_pop L) (ip_getEventPort P p)
        (ip_getServerKey P p) None (svLive (reset_publisher x)) = (o1, e, live)" by (metis prod_cases3)
    have "svc_live n (reset_publisher x)" "eventPublisher (reset_publisher x) = None"
      using reset_publisher_live [OF x] by (simp_all add: reset_publisher_def)
    with EventPublisher_openPort_live [OF b] st True b show ?thesis
      by (auto simp: start_publisher_def svc_live_def pub_used_def Let_def split: option.splits)
  qed (use st x in \<open>auto simp: start_publisher_def\<close>)
qed

lemma start_api_live: "keeps_inv (svc_live n) (start_api L P p)"
proof (rule keeps_invI)
  fix x ok x' assume x: "svc_live n x" and st: "start_api L P p x = Some (ok, x')"
  show "svc_live n x'"
  proof (cases "ip_getApiPort P p > 0")
    case True
    obtain hs c where hs: "ip_addApiHandlers P p (svPaused x) (svApiMap x, svCatalog x) = (hs, c)" by fastforce
    let ?y = "x\<lparr>svApiMap := hs, svCatalog := c\<rparr>"
    let ?port = "ApiPort_setAuthenticator (ip_getAuthenticator P p) ApiPort_new"
    have y: "svc_live n (reset_api ?y)" using reset_api_live [of n ?y] x by (simp add: svc_live_def)
    obtain port live where o: "ApiPort_openPort (lb_zmq L) (lb_ossl L) (lb_curve L) (lb_pop L) (ip_getApiPort P p)
        (ip_getServerKey P p) ?port (svLive (reset_api ?y)) = Some (ok, port, live)"
      and x': "x' = (reset_api ?y)\<lparr>apiProcessor := Some port, svLive := live\<rparr>"
      using st True hs by (auto simp: start_api_def Let_def)
    have "socket (apServer ?port) = None" by (simp add: ApiPort_setAuthenticator_def ApiPort_new_def Server_new_def)
    from ApiPort_openPort_live [OF o this] y x' show ?thesis
      by (simp add: svc_live_def api_used_def reset_api_def)
  qed (use st x in \<open>auto simp: start_api_def\<close>)
qed

lemma subscribeLocal_live:
  assumes "subscribeLocal z pb c err hs EventProcessor_new live = Some (ok, ts, e, live')"
  shows "live' = live + ep_used e"
proof -
  have "ep_inv live (EventProcessor_new, live)"
    by (simp add: ep_inv_def EventProcessor_new_def ep_used_def om_empty_def)
  from subscribe_ports_inv [OF this, of z pb c err hs "getServiceSubscriptions hs" Details_new] assms show ?thesis
    by (auto simp: subscribeLocal_def ep_inv_def)
qed

lemma start_processor_live: "keeps_inv (svc_live n) (start_processor L P p)"
proof (rule keeps_invI)
  fix x ok x' assume x: "svc_live n x" and st: "start_processor L P p x = Some (ok, x')"
  show "svc_live n x'"
  proof (cases "svPaused x")
    case False
    obtain subs c where hs: "ip_addEventSubscriptions P p (svSubs x, svCatalog x) = (subs, c)" by fastforce
    let ?y = "x\<lparr>svSubs := subs, svCatalog := c\<rparr>"
    have y: "svc_live n (reset_processor ?y)" using reset_processor_live [of n ?y] x by (simp add: svc_live_def)
    obtain ts e live where o: "subscribeLocal (lb_zmq L) (lb_pb L) (lb_curve L) (lb_err L) subs EventProcessor_new
        (svLive (reset_processor ?y)) = Some (ok, ts, e, live)"
      and x': "x' = (reset_processor ?y)\<lparr>eventProcessor := Some e, svTasks := svTasks (reset_processor ?y) @ ts, svLive := live\<rparr>"
      using st False hs by (auto simp: start_processor_def Let_def)
    from subscribeLocal_live [OF o] y x' show ?thesis
      by (simp add: svc_live_def proc_used_def reset_processor_def)
  qed (use st x in \<open>auto simp: start_processor_def\<close>)
qed

lemma startService_live: "keeps_inv (svc_live n) (startService now L P p)"
proof (rule keeps_invI)
  fix x ok x' assume x: "svc_live n x" and st: "startService now L P p x = Some (ok, x')"
  let ?y = "x\<lparr>svScheduler := Scheduler_start now (Scheduler_setThreads now (ip_getNumEventThreads P p) (svScheduler x))\<rparr>"
  have "svc_live n ?y" using x by (simp add: svc_live_def)
  moreover have "andThen (start_publisher L P p) (andThen (start_api L P p) (start_processor L P p)) ?y = Some (ok, x')"
    using st by (simp add: startService_def)
  ultimately show "svc_live n x'"
    by (rule keeps_invD [OF keeps_andThen [OF start_publisher_live keeps_andThen [OF start_api_live start_processor_live]]])
qed

text \<open>What the other stages change.\<close>

lemma initArgs_changes:
  assumes "initArgs P p x = Some (ok, x')"
  shows "\<exists>l q argv st. x' = x\<lparr>svLog := l, svParams := q, svArgv := argv, svStatus := st\<rparr>"
proof (cases "svArgv x = []")
  case True
  with assms have "x' = x" by (simp add: initArgs_def)
  then show ?thesis
    by (intro exI [of _ "svLog x"] exI [of _ "svParams x"] exI [of _ "svArgv x"] exI [of _ "svStatus x"]) simp
next
  case False
  let ?parser = "ip_initCmdLineParams P p (LogArgs_initCmdLineParams ArgParser_new)"
  obtain a where a: "ArgParser_parse ?parser (Some (svArgv x)) = Some a"
    using assms False by (cases "ArgParser_parse ?parser (Some (svArgv x))") (auto simp: initArgs_def Let_def)
  obtain q argv where q: "ip_setCmdLineArgs P a (svArgv x) p = Some (q, argv)"
    using assms False a by (cases "ip_setCmdLineArgs P a (svArgv x) p") (auto simp: initArgs_def Let_def)
  show ?thesis
  proof (cases "Args_hasError a")
    case True
    with assms False a q show ?thesis by (auto simp: initArgs_def Service_setStatus_def Let_def)
  next
    case ok: False
    let ?l = "if LogArgs_logFile a = [] then log_setFile (ip_getLogFile P p) (LogArgs_setCmdLineArgs a (svLog x))
      else LogArgs_setCmdLineArgs a (svLog x)"
    have "x' = x\<lparr>svLog := ?l, svParams := Some q, svArgv := argv, svStatus := svStatus x\<rparr>"
      using assms False a q ok by (auto simp: initArgs_def Let_def)
    then show ?thesis by blast
  qed
qed

lemma initArgs_live: "keeps_inv (svc_live n) (initArgs P p)"
  by (rule keeps_invI) (auto dest!: initArgs_changes simp: svc_live_def)

lemma other_stages_live:
  "keeps_inv (svc_live n) initSignals" "keeps_inv (svc_live n) initRand"
  "keeps_inv (svc_live n) (Service_setupScene P p)" "keeps_inv (svc_live n) (Service_preInit P p)"
  "keeps_inv (svc_live n) (Service_postInit P p)"
  by (rule keeps_invI, auto simp: initSignals_def initRand_def Service_setupScene_def Service_preInit_def
      Service_postInit_def svc_live_def split: prod.splits)+

lemma keeps_Service_init:
  assumes "keeps_inv I initSignals" and "\<And>p. keeps_inv I (initArgs P p)" and "keeps_inv I initRand"
    and "\<And>p. keeps_inv I (Service_setupScene P p)" and "\<And>p. keeps_inv I (Service_preInit P p)"
    and "\<And>p. keeps_inv I (startService now L P p)" and "\<And>p. keeps_inv I (Service_postInit P p)"
    and "\<And>b x. I x \<Longrightarrow> I (bSignalsInit_update b x)" "\<And>b x. I x \<Longrightarrow> I (bArgsInit_update b x)"
    "\<And>b x. I x \<Longrightarrow> I (bRandInit_update b x)" "\<And>b x. I x \<Longrightarrow> I (bSceneSetup_update b x)"
    "\<And>b x. I x \<Longrightarrow> I (bPreInit_update b x)" "\<And>b x. I x \<Longrightarrow> I (bInit_update b x)"
    "\<And>b x. I x \<Longrightarrow> I (bPostInit_update b x)"
  shows "keeps_inv I (Service_init now L P)"
proof -
  have pipe: "keeps_inv I (andThen (stage bSignalsInit bSignalsInit_update initSignals)
        (andThen (stage bArgsInit bArgsInit_update (with_params (initArgs P)))
        (andThen (stage bRandInit bRandInit_update initRand)
        (andThen (stage bSceneSetup bSceneSetup_update (with_params (Service_setupScene P)))
        (andThen (stage bPreInit bPreInit_update (with_params (Service_preInit P)))
        (andThen (stage bInit bInit_update (with_params (startService now L P)))
          (stage bPostInit bPostInit_update (with_params (Service_postInit P)))))))))"
    by (intro keeps_andThen keeps_stage keeps_with_params assms)
  show ?thesis
  proof (rule keeps_invI)
    fix x ok x' assume "I x" and "Service_init now L P x = Some (ok, x')"
    then show "I x'" using keeps_invD [OF pipe, of x ok x'] by (simp add: Service_init_def split: if_splits)
  qed
qed

lemma Service_init_live: "keeps_inv (svc_live n) (Service_init now L P)"
  by (rule keeps_Service_init) (simp_all add: initArgs_live other_stages_live startService_live svc_live_def)

lemma handleResponse_used:
  assumes "handleResponse z pb addr scene client msg x = TaskDone x'"
  shows "used (socket (apServer x')) = used (socket (apServer x))"
proof -
  obtain w d where w: "toJson (pb_print_response pb) (build_response pb (apAuthenticator x) scene msg) Details_new = (w, d)" by fastforce
  with assms Server_reply_used [of "z" client "string_bytes w" d "apServer x"] show ?thesis
    by (auto simp: handleResponse_def Let_def split: option.splits prod.splits)
qed

lemma api_step_used:
  assumes "api_step z pb c handlers x e = TaskDone x'"
  shows "used (socket (apServer x')) = used (socket (apServer x))"
proof (cases e)
  case ApReady
  with assms ApiPort_ready_returns [of z AsioOk x] show ?thesis by auto
next
  case (ApStart addr)
  with assms show ?thesis
    by (auto simp: handleRequest_def Let_def split: list.splits option.splits prod.splits if_splits
        dest!: handleResponse_used)
next
  case (ApFinish i d msg)
  with assms show ?thesis by (auto split: if_splits prod.splits dest!: handleResponse_used)
qed

lemma handleSignal_live: "handleSignal sig x = Some x' \<Longrightarrow> svc_live n x \<Longrightarrow> svc_live n x'"
  by (auto simp: handleSignal_def Service_setStatus_def svc_live_def Let_def split: signal.splits if_splits)

lemma event_ready_returns:
  "\<exists>ts ss'. event_ready z pb hs ss = Some (ts, ss') \<and> used (sSocket (psubscriber ss')) = used (sSocket (psubscriber ss))"
proof -
  obtain called sock where u: "UncontrolledSocket_event AsioOk (psocket ss) = (called, sock)" by fastforce
  show ?thesis
  proof (cases called)
    case (Some p)
    with u event_read_returns [of z pb hs "snd p" "ss\<lparr>psocket := sock\<rparr>"] show ?thesis
      by (auto simp: event_ready_def case_prod_unfold)
  qed (use u in \<open>simp add: event_ready_def\<close>)
qed

lemma sum_list_replace_same: "i < length xs \<Longrightarrow> f y = f (xs ! i) \<Longrightarrow> sum_list (map f (xs[i := y])) = sum_list (map f xs)"
  by (metis list_update_id map_update)

lemma subscription_ready_eq:
  "\<exists>ep ts. subscription_ready L i x = x\<lparr>eventProcessor := ep, svTasks := ts\<rparr> \<and> proc_used ep = proc_used (eventProcessor x)"
proof (cases "eventProcessor x")
  case (Some ep)
  show ?thesis
  proof (cases "svStuck x \<or> length (localSockets ep) \<le> i")
    case True
    with Some show ?thesis
      by (intro exI [of _ "eventProcessor x"] exI [of _ "svTasks x"]) (simp add: subscription_ready_def)
  next
    case False
    obtain ts ss where e: "event_ready (lb_zmq L) (lb_pb L) (svSubs x) (localSockets ep ! i) = Some (ts, ss)"
      "used (sSocket (psubscriber ss)) = used (sSocket (psubscriber (localSockets ep ! i)))"
      using event_ready_returns by blast
    have "proc_used (Some (ep\<lparr>localSockets := (localSockets ep)[i := ss]\<rparr>)) = proc_used (Some ep)"
      using e(2) False by (simp add: proc_used_def ep_used_def sub_used_def sum_list_replace_same)
    with Some False e(1) show ?thesis by (auto simp: subscription_ready_def)
  qed
qed (intro exI [of _ "eventProcessor x"] exI [of _ "svTasks x"], simp add: subscription_ready_def)

lemma svc_step_live:
  assumes "svc_live n x" and "svc_step L i x = SvcRunning x'"
  shows "svc_live n x'"
proof (cases i)
  case (InSignal sig)
  with assms show ?thesis by (auto simp: svc_step_def split: if_splits option.splits dest: handleSignal_live)
next
  case (InStatus code)
  with assms show ?thesis by (auto simp: svc_step_def Service_setStatus_def svc_live_def)
next
  case (InApi e)
  with assms show ?thesis
    by (auto simp: svc_step_def svc_live_def api_used_def split: option.splits if_splits task.splits dest!: api_step_used)
next
  case (InEvent j)
  with assms subscription_ready_eq [of L j x] show ?thesis by (auto simp: svc_step_def svc_live_def)
qed

lemma svc_inputs_live:
  assumes "svc_live n x" and "svc_inputs L is x = SvcRunning x'"
  shows "svc_live n x'"
  using assms
proof (induction "is" arbitrary: x)
  case (Cons i "is")
  then obtain y where "svc_step L i x = SvcRunning y" "svc_inputs L is y = SvcRunning x'"
    by (auto split: svc_result.splits)
  then show ?case using Cons.IH svc_step_live [OF Cons.prems(1)] by blast
qed simp

lemma svc_inputs_not_ended: "svc_inputs L is x \<noteq> SvcEnded x'"
proof (induction "is" arbitrary: x)
  case (Cons i "is")
  have "svc_step L i x \<noteq> SvcEnded x'"
    by (auto simp: svc_step_def split: svc_input.splits option.splits task.splits if_splits)
  with Cons show ?case by (auto split: svc_result.splits)
qed simp

lemma stopService_live:
  assumes "svc_live n x" and "stopService x = Some x'"
  shows "svLive x' = n \<and> svStatus x' = svStatus x \<and> svParams x' = svParams x \<and> \<not> running (svScheduler x')"
proof -
  let ?y = "reset_api (reset_processor x)"
  have y: "svc_live n ?y" by (intro reset_api_live reset_processor_live assms(1))
  have x': "x' = reset_publisher (?y\<lparr>svScheduler := Scheduler_stop (svScheduler ?y)\<rparr>)"
    using assms(2) by (auto simp: stopService_def Let_def split: if_splits)
  have "svc_live n x'" unfolding x' using y by (intro reset_publisher_live) (simp add: svc_live_def)
  then show ?thesis
    by (simp add: x' reset_publisher_def reset_api_def reset_processor_def svc_live_def pub_used_def api_used_def
        proc_used_def Scheduler_stop_def)
qed

lemma exec_end_live:
  assumes "svc_live n x" and "exec_end P x = SvcEnded x'"
  shows "svLive x' = n \<and> svStatus x' = svStatus x \<and> \<not> running (svScheduler x')"
proof -
  have "svc_live n (x\<lparr>svParams := q\<rparr>)" for q using assms(1) by (simp add: svc_live_def)
  with assms(2) show ?thesis
    by (auto simp: exec_end_def Service_cleanup_def cleanupSignals_def bind_eq_Some_conv split: option.splits
        dest!: stopService_live [rotated])
qed

lemma exec_live:
  assumes "svc_live n x" and "exec now L P rounds x = SvcEnded x'"
  shows "svLive x' = n \<and> svStatus x' \<noteq> ScRunning \<and> \<not> running (svScheduler x')"
  using assms
proof (induction rounds arbitrary: x)
  case Nil
  then show ?case using exec_end_live [OF Nil.prems(1)] by (auto split: if_splits)
next
  case (Cons "is" rounds)
  show ?case
  proof (cases "svStatus x = ScRunning")
    case True
    then obtain ok y z where "Service_init now L P x = Some (ok, y)" "svc_inputs L is y = SvcRunning z"
      "exec now L P rounds z = SvcEnded x'"
      using Cons.prems(2) by (auto simp: svc_inputs_not_ended split: option.splits svc_result.splits)
    then show ?thesis
      using Cons.IH svc_inputs_live keeps_invD [OF Service_init_live Cons.prems(1)] by blast
  qed (use Cons.prems exec_end_live [OF Cons.prems(1)] in \<open>auto split: if_splits\<close>)
qed

lemma Service_fresh_live: "svc_live n (Service_setParams p (Service_setPaused paused (Service_setArgs argv (Service_new n c l))))"
  by (simp add: svc_live_def Service_setParams_def Service_setPaused_def Service_setArgs_def Service_new_def
      pub_used_def api_used_def proc_used_def)

text \<open>Claim C8.
  A service that ends has closed every socket it opened and stopped its scheduler, whatever the class of its
  parameters does, whatever its initialization retried, and whatever signals and requests it saw; and it ends
  with a status other than running.\<close>

theorem Service_run_closes:
  assumes "Service_run now L P p argv paused n c l rounds = SvcEnded x"
  shows "svLive x = n \<and> svStatus x \<noteq> ScRunning \<and> \<not> running (svScheduler x)"
  using assms unfolding Service_run_def by (rule exec_live [OF Service_fresh_live])

section \<open>Stages of the initialization\<close>

definition flags :: "('s, 'm, 'h, 'p) Service \<Rightarrow> bool list" where
  "flags x = [bSignalsInit x, bArgsInit x, bRandInit x, bSceneSetup x, bPreInit x, bInit x, bPostInit x]"

text \<open>The first stages are done, and none is done before an earlier one.\<close>

definition stages_ok :: "('s, 'm, 'h, 'p) Service \<Rightarrow> bool" where
  "stages_ok x = sorted_wrt (\<lambda>a b. b \<longrightarrow> a) (flags x)"

definition level :: "nat \<Rightarrow> ('s, 'm, 'h, 'p) Service \<Rightarrow> bool" where
  "level k x \<longleftrightarrow> stages_ok x \<and> (\<forall>i<k. flags x ! i)"

definition leads :: "('a \<Rightarrow> bool) \<Rightarrow> ('a \<Rightarrow> (bool \<times> 'a) option) \<Rightarrow> ('a \<Rightarrow> bool) \<Rightarrow> ('a \<Rightarrow> bool) \<Rightarrow> bool" where
  "leads Q f R N \<longleftrightarrow> (\<forall>x ok x'. Q x \<longrightarrow> f x = Some (ok, x') \<longrightarrow> (if ok then R x' else N x'))"

lemma leadsD: "leads Q f R N \<Longrightarrow> Q x \<Longrightarrow> f x = Some (ok, x') \<Longrightarrow> if ok then R x' else N x'"
  unfolding leads_def by blast

lemma leadsI: "(\<And>x ok x'. Q x \<Longrightarrow> f x = Some (ok, x') \<Longrightarrow> if ok then R x' else N x') \<Longrightarrow> leads Q f R N"
  unfolding leads_def by blast

lemma leads_andThen:
  assumes "leads Q f R N" and "leads R g S N"
  shows "leads Q (andThen f g) S N"
proof (rule leadsI)
  fix x ok x' assume x: "Q x" and "andThen f g x = Some (ok, x')"
  then obtain ok1 x1 where f: "f x = Some (ok1, x1)" and g: "if ok1 then g x1 = Some (ok, x') else x' = x1 \<and> \<not> ok"
    by (cases "f x") (auto simp: andThen_def split: if_splits)
  show "if ok then S x' else N x'"
    using leadsD [OF assms(1) x f] g leadsD [OF assms(2), of x1 ok x'] by (cases ok1) auto
qed

text \<open>A stage whose work leaves the flags alone.\<close>

lemma stage_leads:
  assumes "\<And>F. keeps_inv (\<lambda>x. flags x = F) f" and "\<And>x. get x = flags x ! k"
    and "\<And>b x. flags (upd (\<lambda>_. b) x) = (flags x)[k := b]" and "k < 7"
  shows "leads (level k) (stage get upd f) (level (Suc k)) stages_ok"
proof (rule leadsI)
  fix x ok x' assume x: "level k x" and st: "stage get upd f x = Some (ok, x')"
  have len: "length (flags x) = 7" by (simp add: flags_def)
  show "if ok then level (Suc k) x' else stages_ok x'"
  proof (cases "flags x ! k")
    case True
    with st x show ?thesis by (auto simp: stage_def assms(2) level_def less_Suc_eq)
  next
    case False
    then obtain x1 where f: "f x = Some (ok, x1)" and x': "x' = upd (\<lambda>_. ok) x1"
      using st by (cases "f x") (auto simp: stage_def assms(2))
    have fl: "flags x' = (flags x)[k := ok]"
      unfolding x' assms(3) using keeps_invD [OF assms(1) refl f] by simp
    have late: "\<not> flags x ! j" if "k \<le> j" "j < 7" for j
      using False x that len sorted_wrt_nth_less [of _ "flags x" k j]
      by (cases "j = k") (auto simp: level_def stages_ok_def)
    have "stages_ok x'"
      using x len assms(4) late
      by (auto simp: stages_ok_def sorted_wrt_iff_nth_less fl nth_list_update level_def split: if_splits)
    moreover have "\<forall>i<Suc k. flags x' ! i" if ok
      using x len assms(4) that by (auto simp: fl nth_list_update level_def less_Suc_eq)
    ultimately show ?thesis by (simp add: level_def)
  qed
qed

lemma resets_flags: "flags (reset_publisher x) = flags x" "flags (reset_api x) = flags x" "flags (reset_processor x) = flags x"
  by (simp_all add: flags_def reset_publisher_def reset_api_def reset_processor_def)

lemma start_flags:
  "keeps_inv (\<lambda>x. flags x = F) (start_publisher L P p)" "keeps_inv (\<lambda>x. flags x = F) (start_api L P p)"
  "keeps_inv (\<lambda>x. flags x = F) (start_processor L P p)"
proof -
  show "keeps_inv (\<lambda>x. flags x = F) (start_publisher L P p)"
    by (rule keeps_invI) (auto simp: start_publisher_def Let_def flags_def reset_publisher_def split: if_splits prod.splits)
  show "keeps_inv (\<lambda>x. flags x = F) (start_api L P p)"
    by (rule keeps_invI) (auto simp: start_api_def Let_def flags_def reset_api_def split: if_splits prod.splits)
  show "keeps_inv (\<lambda>x. flags x = F) (start_processor L P p)"
    by (rule keeps_invI) (auto simp: start_processor_def Let_def flags_def reset_processor_def split: if_splits prod.splits)
qed

lemma startService_flags: "keeps_inv (\<lambda>x. flags x = F) (startService now L P p)"
proof (rule keeps_invI)
  fix x ok x' assume x: "flags x = F" and st: "startService now L P p x = Some (ok, x')"
  let ?y = "x\<lparr>svScheduler := Scheduler_start now (Scheduler_setThreads now (ip_getNumEventThreads P p) (svScheduler x))\<rparr>"
  have "flags ?y = F" using x by (simp add: flags_def)
  moreover have "andThen (start_publisher L P p) (andThen (start_api L P p) (start_processor L P p)) ?y = Some (ok, x')"
    using st by (simp add: startService_def)
  ultimately show "flags x' = F"
    by (rule keeps_invD [OF keeps_andThen [OF start_flags(1) keeps_andThen [OF start_flags(2,3)]]])
qed

lemma stages_flags:
  "keeps_inv (\<lambda>x. flags x = F) initSignals" "keeps_inv (\<lambda>x. flags x = F) (initArgs P p)"
  "keeps_inv (\<lambda>x. flags x = F) initRand" "keeps_inv (\<lambda>x. flags x = F) (Service_setupScene P p)"
  "keeps_inv (\<lambda>x. flags x = F) (Service_preInit P p)" "keeps_inv (\<lambda>x. flags x = F) (Service_postInit P p)"
proof -
  show "keeps_inv (\<lambda>x. flags x = F) (initArgs P p)"
    by (rule keeps_invI) (auto dest!: initArgs_changes simp: flags_def)
qed (rule keeps_invI, auto simp: initSignals_def initRand_def Service_setupScene_def Service_preInit_def
      Service_postInit_def flags_def split: prod.splits)+

lemma stage_leads_at:
  assumes "\<And>F. keeps_inv (\<lambda>x. flags x = F) f" and "\<And>x. get x = flags x ! k"
    and "\<And>b x. flags (upd (\<lambda>_. b) x) = (flags x)[k := b]" and "k < 7" and "k' = Suc k"
  shows "leads (level k) (stage get upd f) (level k') stages_ok"
  using stage_leads [OF assms(1-4)] assms(5) by simp

lemma stages_lead:
  "leads (level 0) (stage bSignalsInit bSignalsInit_update initSignals) (level 1) stages_ok"
  "leads (level 1) (stage bArgsInit bArgsInit_update (with_params (initArgs P))) (level 2) stages_ok"
  "leads (level 2) (stage bRandInit bRandInit_update initRand) (level 3) stages_ok"
  "leads (level 3) (stage bSceneSetup bSceneSetup_update (with_params (Service_setupScene P))) (level 4) stages_ok"
  "leads (level 4) (stage bPreInit bPreInit_update (with_params (Service_preInit P))) (level 5) stages_ok"
  "leads (level 5) (stage bInit bInit_update (with_params (startService now L P))) (level 6) stages_ok"
  "leads (level 6) (stage bPostInit bPostInit_update (with_params (Service_postInit P))) (level 7) stages_ok"
proof -
  show "leads (level 0) (stage bSignalsInit bSignalsInit_update initSignals) (level 1) stages_ok"
    by (rule stage_leads_at [OF stages_flags(1)]) (simp_all add: flags_def)
  show "leads (level 1) (stage bArgsInit bArgsInit_update (with_params (initArgs P))) (level 2) stages_ok"
    by (rule stage_leads_at [OF keeps_with_params [OF stages_flags(2)]]) (simp_all add: flags_def)
  show "leads (level 2) (stage bRandInit bRandInit_update initRand) (level 3) stages_ok"
    by (rule stage_leads_at [OF stages_flags(3)]) (simp_all add: flags_def)
  show "leads (level 3) (stage bSceneSetup bSceneSetup_update (with_params (Service_setupScene P))) (level 4) stages_ok"
    by (rule stage_leads_at [OF keeps_with_params [OF stages_flags(4)]]) (simp_all add: flags_def)
  show "leads (level 4) (stage bPreInit bPreInit_update (with_params (Service_preInit P))) (level 5) stages_ok"
    by (rule stage_leads_at [OF keeps_with_params [OF stages_flags(5)]]) (simp_all add: flags_def)
  show "leads (level 5) (stage bInit bInit_update (with_params (startService now L P))) (level 6) stages_ok"
    by (rule stage_leads_at [OF keeps_with_params [OF startService_flags]]) (simp_all add: flags_def)
  show "leads (level 6) (stage bPostInit bPostInit_update (with_params (Service_postInit P))) (level 7) stages_ok"
    by (rule stage_leads_at [OF keeps_with_params [OF stages_flags(6)]]) (simp_all add: flags_def)
qed

lemma Service_init_leads: "leads stages_ok (Service_init now L P) (level 7) stages_ok"
proof (rule leadsI)
  fix x ok x' assume x: "stages_ok x" and st: "Service_init now L P x = Some (ok, x')"
  have pipe: "leads (level 0) (andThen (stage bSignalsInit bSignalsInit_update initSignals)
        (andThen (stage bArgsInit bArgsInit_update (with_params (initArgs P)))
        (andThen (stage bRandInit bRandInit_update initRand)
        (andThen (stage bSceneSetup bSceneSetup_update (with_params (Service_setupScene P)))
        (andThen (stage bPreInit bPreInit_update (with_params (Service_preInit P)))
        (andThen (stage bInit bInit_update (with_params (startService now L P)))
          (stage bPostInit bPostInit_update (with_params (Service_postInit P)))))))))
        (level 7) stages_ok" (is "leads _ ?f _ _")
    by (intro leads_andThen [OF stages_lead(1)] leads_andThen [OF stages_lead(2)] leads_andThen [OF stages_lead(3)]
        leads_andThen [OF stages_lead(4)] leads_andThen [OF stages_lead(5)] leads_andThen [OF stages_lead(6)] stages_lead(7))
  show "if ok then level 7 x' else stages_ok x'"
  proof (cases "svParams x = None")
    case True
    then show ?thesis using x st by (simp add: Service_init_def)
  next
    case False
    have "level 0 x" using x by (simp add: level_def)
    moreover have "?f x = Some (ok, x')" using st False by (simp add: Service_init_def)
    ultimately show ?thesis by (rule leadsD [OF pipe])
  qed
qed

lemma subscription_ready_frame [simp]:
  "svStuck (subscription_ready L i x) = svStuck x"
  "svArgv (subscription_ready L i x) = svArgv x" "svPaused (subscription_ready L i x) = svPaused x"
  "svParams (subscription_ready L i x) = svParams x" "svScene (subscription_ready L i x) = svScene x"
  "svStatus (subscription_ready L i x) = svStatus x" "svSignals (subscription_ready L i x) = svSignals x"
  "interrupts (subscription_ready L i x) = interrupts x" "apiProcessor (subscription_ready L i x) = apiProcessor x"
  "bSignalsInit (subscription_ready L i x) = bSignalsInit x" "bArgsInit (subscription_ready L i x) = bArgsInit x"
  "bRandInit (subscription_ready L i x) = bRandInit x" "bSceneSetup (subscription_ready L i x) = bSceneSetup x"
  "bPreInit (subscription_ready L i x) = bPreInit x" "bInit (subscription_ready L i x) = bInit x"
  "bPostInit (subscription_ready L i x) = bPostInit x"
  using subscription_ready_eq [of L i x] by auto

lemma svc_step_flags: "svc_step L i x = SvcRunning x' \<Longrightarrow> flags x' = flags x"
  by (cases i) (auto simp: svc_step_def handleSignal_def Service_setStatus_def flags_def Let_def
      split: signal.splits if_splits option.splits task.splits)

lemma svc_inputs_flags: "svc_inputs L is x = SvcRunning x' \<Longrightarrow> flags x' = flags x"
  by (induction "is" arbitrary: x) (auto split: svc_result.splits dest: svc_step_flags)

lemma exec_stages: "stages_ok x \<Longrightarrow> exec now L P rounds x = SvcRunning x' \<Longrightarrow> stages_ok x'"
proof (induction rounds arbitrary: x)
  case (Cons r rounds)
  from Cons.prems(2) obtain ok x1 x2 where "svStatus x = ScRunning" and i: "Service_init now L P x = Some (ok, x1)"
    and r: "svc_inputs L r x1 = SvcRunning x2" and e: "exec now L P rounds x2 = SvcRunning x'"
    by (auto simp: exec_end_def split: if_splits option.splits svc_result.splits)
  have "stages_ok x1" using leadsD [OF Service_init_leads Cons.prems(1) i] by (cases ok) (auto simp: level_def)
  then have "stages_ok x2" using svc_inputs_flags [OF r] by (simp add: stages_ok_def)
  then show ?case by (rule Cons.IH [OF _ e])
qed (auto simp: exec_end_def split: if_splits option.splits)

text \<open>Claim C26. At any point of the life of a service the stages of its initialization that are done are an initial
  part of their order: no argument is parsed before the signal handlers are set, no port is opened before the
  service's own preparation succeeded, and the service's last stage runs only when the ports are open, however often
  a failing stage is tried again and whatever signals and requests arrive in between.\<close>

theorem Service_stages_in_order:
  assumes "Service_run now L P p argv paused n c l rounds = SvcRunning x"
  shows "(bPostInit x \<longrightarrow> bInit x) \<and> (bInit x \<longrightarrow> bPreInit x) \<and> (bPreInit x \<longrightarrow> bSceneSetup x) \<and>
    (bSceneSetup x \<longrightarrow> bRandInit x) \<and> (bRandInit x \<longrightarrow> bArgsInit x) \<and> (bArgsInit x \<longrightarrow> bSignalsInit x)"
proof -
  have "stages_ok (Service_setParams p (Service_setPaused paused (Service_setArgs argv (Service_new n c l))))"
    by (simp add: stages_ok_def flags_def Service_setParams_def Service_setPaused_def Service_setArgs_def Service_new_def)
  then have "stages_ok x" using exec_stages assms unfolding Service_run_def by blast
  then show ?thesis by (simp add: stages_ok_def flags_def)
qed

definition demo_libs :: "(zmq_queues, bytes, string \<times> bytes) libs" where
  "demo_libs = \<lparr>lb_zmq = wide_zmq, lb_ossl = plain_openssl, lb_curve = plain_curve, lb_pop = [], lb_err = [], lb_pb = plain_pb\<rparr>"

definition demo_params :: "(unit, string \<times> bytes, string) IServiceParams" where
  "demo_params = AbstractServiceParams\<lparr>ip_getApiPort := \<lambda>_. 17987, ip_getEventPort := \<lambda>_. 18019\<rparr>"

lemma demo_publisher:
  "EventPublisher_openPort wide_zmq plain_openssl plain_curve [] 18019 [] None n = (True, Some \<lparr>pCtx = True, pSocket = Some ([], [], [])\<rparr>, Suc n)"
  by (simp add: EventPublisher_openPort_def Publisher_bind_def bindSocket_def wide_zmq_def plain_zmq_def Publisher_new_def Let_def
      Publisher_close_def EventPublisher_reset_def)

lemma apServer_new: "apServer ApiPort_new = Server_new"
  by (simp add: ApiPort_new_def)

lemma demo_read:
  "ApiPort_read wide_zmq Details_new
     ((demo_port [])\<lparr>apSocket := queueRead \<lparr>uOpen = True, wantRead = False, queued = False, uCallback = None,
       pendingDetails = Details_new, uWatch = None\<rparr>\<rparr>) = Some (Details_moved Details_new, demo_port [])"
  by (subst ApiPort_read.simps) (simp add: ApiPort_receive_def Server_recv_def demo_port_def wide_zmq_def plain_zmq_def Let_def
   UncontrolledSocket_read_def queueRead_def)

lemma demo_api:
  "ApiPort_openPort wide_zmq plain_openssl plain_curve [] 17987 [] ApiPort_new n = Some (True, demo_port [], Suc n)"
proof -
  have "Server_bind wide_zmq plain_openssl plain_curve [] ([], 17987, []) Details_new Server_new n
    = (\<lparr>ctx = True, socket = Some ([], [], [])\<rparr>, Details_new, Suc n)"
    by (simp add: Server_bind_def bindSocket_def wide_zmq_def plain_zmq_def Server_new_def Let_def Server_close_def)
  moreover have "Server_getFd wide_zmq \<lparr>ctx = True, socket = Some ([], [], [])\<rparr> = 3"
    by (simp add: Server_getFd_def zmq_getFd_def wide_zmq_def plain_zmq_def)
  moreover have "isOk (Details_moved Details_new)" by (simp add: Details_moved_def Details_new_def isOk_def)
  ultimately show ?thesis using demo_read
    by (simp add: ApiPort_openPort_def demo_port_def UncontrolledSocket_new_def UncontrolledSocket_read_def
        apServer_new Let_def)
qed

lemma demo_params_simps:
  "ip_setCmdLineArgs demo_params a argv p = Some (p, argv)" "ip_getNumEventThreads demo_params p = 1"
  "ip_getApiPort demo_params p = 17987" "ip_getEventPort demo_params p = 18019" "ip_getServerKey demo_params p = []"
  "ip_setupScene demo_params p s = (p, s)" "ip_addApiHandlers demo_params p b h = h" "ip_addEventSubscriptions demo_params p e = e"
  "ip_getAuthenticator demo_params p = None" "ip_preInit demo_params b ps = Some (True, ps)" "ip_init demo_params b p = Some (True, p)"
  "ip_cleanup demo_params p = p" "ip_postCleanup demo_params p = p"
  by (simp_all add: demo_params_def AbstractServiceParams_def)

lemma demo_libs_simps:
  "lb_zmq demo_libs = wide_zmq" "lb_ossl demo_libs = plain_openssl" "lb_curve demo_libs = plain_curve" "lb_pop demo_libs = []"
  "lb_err demo_libs = []" "lb_pb demo_libs = plain_pb"
  by (simp_all add: demo_libs_def)

lemma demo_subscribe:
  "subscribeLocal wide_zmq plain_pb plain_curve [] EventSubscriptionMap_new EventProcessor_new n = Some (True, [], EventProcessor_new, n)"
  by (simp add: subscribeLocal_def EventSubscriptionMap_new_def getServiceSubscriptions_def om_empty_def)

lemma demo_start:
  assumes "\<not> svPaused x" and "eventPublisher x = None" and "apiProcessor x = None" and "eventProcessor x = None"
    and "svSubs x = EventSubscriptionMap_new"
  shows "startService 0 demo_libs demo_params () x = Some (True, x\<lparr>svScheduler := Scheduler_start 0 (Scheduler_setThreads 0 1 (svScheduler x)),
    eventPublisher := Some (Some \<lparr>pCtx = True, pSocket = Some ([], [], [])\<rparr>), apiProcessor := Some (demo_port []),
    eventProcessor := Some EventProcessor_new, svLive := svLive x + 2\<rparr>)"
proof -
  have port: "ApiPort_setAuthenticator None ApiPort_new = ApiPort_new" by (simp add: ApiPort_setAuthenticator_def ApiPort_new_def)
  show ?thesis using assms
   by (simp add: startService_def andThen_def start_publisher_def start_api_def start_processor_def demo_params_simps
      demo_libs_simps demo_publisher demo_api demo_subscribe reset_publisher_def reset_api_def reset_processor_def Let_def port)
qed

definition demo_service :: "(zmq_queues, string \<times> bytes, string, unit) Service" where
  "demo_service = Service_setParams () (Service_setPaused False (Service_setArgs []
     (Service_new 0 Catalog_new (log_init \<lparr>dirs = [], files = om_empty, home = None, quota = \<lambda>_. None, io = plain_io\<rparr>))))"

definition demo_running :: "(zmq_queues, string \<times> bytes, string, unit) Service" where
  "demo_running = demo_service\<lparr>bSignalsInit := True, bArgsInit := True, bRandInit := True, bSceneSetup := True,
     bPreInit := True, bInit := True, bPostInit := True, svSignals := True,
     svScheduler := Scheduler_start 0 (Scheduler_setThreads 0 1 Scheduler_new),
     eventPublisher := Some (Some \<lparr>pCtx = True, pSocket = Some ([], [], [])\<rparr>), apiProcessor := Some (demo_port []),
     eventProcessor := Some EventProcessor_new, svLive := 2\<rparr>"

lemmas demo_service_defs = demo_service_def Service_setParams_def Service_setPaused_def Service_setArgs_def Service_new_def

lemma demo_init: "Service_init 0 demo_libs demo_params demo_service = Some (True, demo_running)"
  by (simp add: Service_init_def andThen_def stage_def with_params_def initSignals_def initArgs_def initRand_def
      Service_setupScene_def Service_preInit_def Service_postInit_def demo_params_simps demo_start demo_running_def
      demo_service_defs)

lemma demo_init_again: "Service_init 0 demo_libs demo_params demo_running = Some (True, demo_running)"
  by (simp add: Service_init_def andThen_def stage_def demo_running_def demo_service_defs)

lemma demo_status: "svStatus demo_service = ScRunning" "svStatus demo_running = ScRunning"
  by (simp_all add: demo_running_def demo_service_defs)

theorem Service_stages_in_order_witness:
  "\<exists>x. Service_run 0 demo_libs demo_params () [] False 0 Catalog_new
     (log_init \<lparr>dirs = [], files = om_empty, home = None, quota = \<lambda>_. None, io = plain_io\<rparr>) [[], []] = SvcRunning x \<and> bPostInit x \<and> bInit x"
proof -
  have run: "Service_run 0 demo_libs demo_params () [] False 0 Catalog_new
     (log_init \<lparr>dirs = [], files = om_empty, home = None, quota = \<lambda>_. None, io = plain_io\<rparr>) [[], []] = SvcRunning demo_running"
    using demo_init demo_init_again demo_status by (simp add: Service_run_def demo_service_def)
  have "bPostInit demo_running" by (simp add: demo_running_def)
  then show ?thesis using run Service_stages_in_order [OF run] by blast
qed

theorem Service_run_closes_witness:
  "\<exists>x. Service_run 0 demo_libs demo_params () [] False 0 Catalog_new
     (log_init \<lparr>dirs = [], files = om_empty, home = None, quota = \<lambda>_. None, io = plain_io\<rparr>) [[], [InSignal SigTerm]] = SvcEnded x \<and>
     svLive x = 0 \<and> svStatus x \<noteq> ScRunning \<and> \<not> running (svScheduler x)"
proof -
  have "svc_inputs demo_libs [InSignal SigTerm] demo_running = SvcRunning (Service_setStatus ScShutdown demo_running)"
    by (simp add: svc_step_def handleSignal_def demo_running_def)
  moreover have "exec_end demo_params (Service_setStatus ScShutdown demo_running) \<noteq> SvcHang"
    by (simp add: exec_end_def Service_cleanup_def stopService_def Let_def reset_api_def reset_processor_def
        Service_setStatus_def demo_running_def demo_service_defs)
  ultimately obtain x where run: "Service_run 0 demo_libs demo_params () [] False 0 Catalog_new
     (log_init \<lparr>dirs = [], files = om_empty, home = None, quota = \<lambda>_. None, io = plain_io\<rparr>) [[], [InSignal SigTerm]] = SvcEnded x"
    using demo_init demo_init_again demo_status
    by (auto simp: Service_run_def demo_service_def exec_end_def Service_setStatus_def split: option.splits)
  then show ?thesis using Service_run_closes [OF run] by blast
qed

section \<open>A service can be stopped\<close>

definition returns :: "('a \<Rightarrow> bool) \<Rightarrow> ('a \<Rightarrow> (bool \<times> 'a) option) \<Rightarrow> bool" where
  "returns I f \<longleftrightarrow> (\<forall>x. I x \<longrightarrow> (\<exists>ok x'. f x = Some (ok, x') \<and> I x'))"

lemma returnsI: "(\<And>x. I x \<Longrightarrow> \<exists>ok x'. f x = Some (ok, x') \<and> I x') \<Longrightarrow> returns I f"
  by (simp add: returns_def)

lemma returnsD: "returns I f \<Longrightarrow> I x \<Longrightarrow> \<exists>ok x'. f x = Some (ok, x') \<and> I x'"
  by (simp add: returns_def)

lemma returns_andThen:
  assumes "returns I f" and "returns I g"
  shows "returns I (andThen f g)"
proof (rule returnsI)
  fix x assume "I x"
  then obtain ok y where "f x = Some (ok, y)" "I y" using returnsD [OF assms(1)] by blast
  then show "\<exists>ok x'. andThen f g x = Some (ok, x') \<and> I x'"
    using returnsD [OF assms(2), of y] by (cases ok) (auto simp: andThen_def)
qed

lemma returns_stage:
  assumes "returns I f" and "\<And>b x. I x \<Longrightarrow> I (upd b x)"
  shows "returns I (stage get upd f)"
proof (rule returnsI)
  fix x assume "I x"
  then show "\<exists>ok x'. stage get upd f x = Some (ok, x') \<and> I x'"
    using returnsD [OF assms(1), of x] assms(2) by (auto simp: stage_def)
qed

lemma returns_with_params:
  assumes "\<And>x. I x \<Longrightarrow> svParams x \<noteq> None"
    and "\<And>p x. I x \<Longrightarrow> svParams x = Some p \<Longrightarrow> \<exists>ok x'. f p x = Some (ok, x') \<and> I x'"
  shows "returns I (with_params f)"
proof (rule returnsI)
  fix x assume x: "I x"
  then obtain p where "svParams x = Some p" using assms(1) by blast
  with assms(2) [OF x this] show "\<exists>ok x'. with_params f x = Some (ok, x') \<and> I x'" by (simp add: with_params_def)
qed

text \<open>What is asked of the class of the parameters: it accepts every command line of a kind \<open>A\<close>, which the masking of
  passwords does not leave, and from the set-up of the scene on its state has some property \<open>J\<close> under which its
  hooks return.  No command line at all is not parsed.\<close>

definition params_return :: "('p, 'm, 'h) IServiceParams \<Rightarrow> ('p \<Rightarrow> bool) \<Rightarrow> (string list \<Rightarrow> bool) \<Rightarrow> bool" where
  "params_return P J A \<longleftrightarrow>
     (\<forall>argv p. A argv \<longrightarrow> argv \<noteq> [] \<longrightarrow>
        (\<exists>a p' argv'. ArgParser_parse (ip_initCmdLineParams P p (LogArgs_initCmdLineParams ArgParser_new)) (Some argv) = Some a \<and>
           ip_setCmdLineArgs P a argv p = Some (p', argv') \<and> A argv' \<and> (J p \<longrightarrow> J p'))) \<and>
     (\<forall>p s. J (fst (ip_setupScene P p s))) \<and>
     (\<forall>b p s. J p \<longrightarrow> (\<exists>ok p' s'. ip_preInit P b (p, s) = Some (ok, p', s') \<and> J p')) \<and>
     (\<forall>b p. J p \<longrightarrow> (\<exists>ok p'. ip_init P b p = Some (ok, p') \<and> J p'))"

text \<open>A port on which at most one request is running, and none unless \<open>b\<close>.\<close>

definition one_request :: "bool \<Rightarrow> ('s, 'm, 'h) ApiPort \<Rightarrow> bool" where
  "one_request b port \<longleftrightarrow> api_inv port \<and> length (awaiting port) \<le> (if b then 1 else 0)"

text \<open>A service with an accepted command line and installed handlers, whose thread is not stuck, after \<open>k\<close> interrupts;
  and one whose scene is set up.\<close>

definition calm :: "('p \<Rightarrow> bool) \<Rightarrow> (string list \<Rightarrow> bool) \<Rightarrow> bool \<Rightarrow> nat \<Rightarrow> ('s, 'm, 'h, 'p) Service \<Rightarrow> bool" where
  "calm J A b k x \<longleftrightarrow> A (svArgv x) \<and> \<not> svStuck x \<and> interrupts x = k \<and> svSignals x \<and>
     (\<exists>p. svParams x = Some p \<and> (bSceneSetup x \<longrightarrow> J p)) \<and> (\<forall>port. apiProcessor x = Some port \<longrightarrow> one_request b port)"

definition ready :: "('p \<Rightarrow> bool) \<Rightarrow> (string list \<Rightarrow> bool) \<Rightarrow> bool \<Rightarrow> nat \<Rightarrow> ('s, 'm, 'h, 'p) Service \<Rightarrow> bool" where
  "ready J A b k x \<longleftrightarrow> calm J A b k x \<and> bSceneSetup x"

lemma ApiPort_openPort_returns:
  "\<exists>ok y live'. ApiPort_openPort z os c pop port key x live = Some (ok, y, live') \<and> awaiting y = awaiting x \<and> trove y = trove x"
proof -
  obtain sv d l where b: "Server_bind z os c pop ([], port, key) Details_new (apServer x) live = (sv, d, l)" by (metis prod_cases3)
  obtain called sock where u: "UncontrolledSocket_read d () (UncontrolledSocket_new (Server_getFd z sv \<noteq> -1)) = (called, sock)"
    by fastforce
  obtain d' y where r: "ApiPort_read z (snd (the called)) (x\<lparr>apServer := sv, apSocket := sock\<rparr>) = Some (d', y)"
    using ApiPort_read_returns [of z "snd (the called)" "x\<lparr>apServer := sv, apSocket := sock\<rparr>"] by auto
  from b u r ApiPort_read_keeps [OF r] show ?thesis
    by (cases called) (auto simp: ApiPort_openPort_def Let_def)
qed

lemma ApiPort_fresh:
  "awaiting (ApiPort_setAuthenticator a ApiPort_new) = []" "trove (ApiPort_setAuthenticator a ApiPort_new) = []"
  by (simp_all add: ApiPort_setAuthenticator_def ApiPort_new_def)

lemma subscribeLocal_returns: "\<exists>r. subscribeLocal z pb c err hs EventProcessor_new live = Some r"
proof -
  have "ep_inv live (EventProcessor_new, live)"
    by (simp add: ep_inv_def EventProcessor_new_def ep_used_def om_empty_def)
  from subscribe_ports_inv [OF this, of z pb c err hs "getServiceSubscriptions hs" Details_new] show ?thesis
    by (auto simp: subscribeLocal_def)
qed

lemma start_ready:
  fixes L :: "('s, 'k, 'm) libs" and P :: "('p, 'm, 'h) IServiceParams"
  shows
  "returns (ready J A b k) (start_publisher L P p)" "returns (ready J A b k) (start_api L P p)" "returns (ready J A b k) (start_processor L P p)"
proof -
  show "returns (ready J A b k) (start_publisher L P p)"
    by (rule returnsI) (auto simp: start_publisher_def ready_def calm_def reset_publisher_def Let_def split: prod.splits)
  show "returns (ready J A b k) (start_api L P p)"
  proof (rule returnsI)
    fix x :: "('s, 'm, 'h, 'p) Service" assume x: "ready J A b k x"
    obtain hs c where hs: "ip_addApiHandlers P p (svPaused x) (svApiMap x, svCatalog x) = (hs, c)" by fastforce
    obtain ok port live where "ApiPort_openPort (lb_zmq L) (lb_ossl L) (lb_curve L) (lb_pop L) (ip_getApiPort P p)
        (ip_getServerKey P p) (ApiPort_setAuthenticator (ip_getAuthenticator P p) (ApiPort_new :: ('s, 'm, 'h) ApiPort))
        (svLive (reset_api (x\<lparr>svApiMap := hs, svCatalog := c\<rparr>))) = Some (ok, port, live)"
      and fresh: "awaiting port = []" "trove port = []"
      using ApiPort_openPort_returns [of _ _ _ _ _ _ "ApiPort_setAuthenticator (ip_getAuthenticator P p) ApiPort_new"]
      by (metis ApiPort_fresh)
    then have "ip_getApiPort P p > 0 \<Longrightarrow> start_api L P p x =
        Some (ok, (reset_api (x\<lparr>svApiMap := hs, svCatalog := c\<rparr>))\<lparr>apiProcessor := Some port, svLive := live\<rparr>)"
      using hs by (simp add: start_api_def Let_def)
    moreover have "\<not> ip_getApiPort P p > 0 \<Longrightarrow> start_api L P p x = Some (True, x)" by (simp add: start_api_def)
    ultimately show "\<exists>ok x'. start_api L P p x = Some (ok, x') \<and> ready J A b k x'"
      using x fresh by (cases "ip_getApiPort P p > 0") (auto simp: ready_def calm_def reset_api_def one_request_def api_inv_def)
  qed
  show "returns (ready J A b k) (start_processor L P p)"
  proof (rule returnsI)
    fix x :: "('s, 'm, 'h, 'p) Service" assume x: "ready J A b k x"
    obtain subs c where hs: "ip_addEventSubscriptions P p (svSubs x, svCatalog x) = (subs, c)" by fastforce
    let ?y = "reset_processor (x\<lparr>svSubs := subs, svCatalog := c\<rparr>)"
    have y: "ready J A b k ?y" using x by (auto simp: ready_def calm_def reset_processor_def)
    obtain ok ts e live where "subscribeLocal (lb_zmq L) (lb_pb L) (lb_curve L) (lb_err L) subs EventProcessor_new (svLive ?y)
        = Some (ok, ts, e, live)"
      using subscribeLocal_returns by (metis prod_cases4)
    then have "\<not> svPaused x \<Longrightarrow> start_processor L P p x =
        Some (ok, ?y\<lparr>eventProcessor := Some e, svTasks := svTasks ?y @ ts, svLive := live\<rparr>)"
      using hs by (simp add: start_processor_def Let_def)
    moreover have "ready J A b k (?y\<lparr>eventProcessor := Some e, svTasks := svTasks ?y @ ts, svLive := live\<rparr>)"
      using y by (auto simp: ready_def calm_def)
    ultimately show "\<exists>ok x'. start_processor L P p x = Some (ok, x') \<and> ready J A b k x'"
      using x by (cases "svPaused x") (auto simp: start_processor_def)
  qed
qed

lemma startService_ready:
  fixes L :: "('s, 'k, 'm) libs" and P :: "('p, 'm, 'h) IServiceParams"
  shows "returns (ready J A b k) (startService now L P p)"
proof (rule returnsI)
  fix x :: "('s, 'm, 'h, 'p) Service" assume x: "ready J A b k x"
  let ?y = "x\<lparr>svScheduler := Scheduler_start now (Scheduler_setThreads now (ip_getNumEventThreads P p) (svScheduler x))\<rparr>"
  have "ready J A b k ?y" using x by (auto simp: ready_def calm_def)
  then show "\<exists>ok x'. startService now L P p x = Some (ok, x') \<and> ready J A b k x'"
    using returnsD [OF returns_andThen [OF start_ready(1) returns_andThen [OF start_ready(2,3)]], of J A b k ?y L P p L P p L P p]
    by (simp add: startService_def)
qed

lemma initArgs_calm:
  assumes "params_return P J A" and x: "calm J A b k x" and p: "svParams x = Some p"
  shows "\<exists>ok x'. initArgs P p x = Some (ok, x') \<and> calm J A b k x'"
proof (cases "svArgv x = []")
  case False
  have "A (svArgv x)" using x by (simp add: calm_def)
  then obtain a q argv where
    a: "ArgParser_parse (ip_initCmdLineParams P p (LogArgs_initCmdLineParams ArgParser_new)) (Some (svArgv x)) = Some a"
    and q: "ip_setCmdLineArgs P a (svArgv x) p = Some (q, argv)" "A argv" "J p \<longrightarrow> J q"
    using assms(1) False unfolding params_return_def by metis
  have "bSceneSetup x \<longrightarrow> J q" using x p q(3) by (simp add: calm_def)
  then show ?thesis
    using False a q x p by (auto simp: initArgs_def calm_def Service_setStatus_def Let_def)
qed (use x in \<open>auto simp: initArgs_def\<close>)

lemma early_stages_calm:
  assumes "params_return P J A"
  shows "returns (calm J A b k) (stage bSignalsInit bSignalsInit_update initSignals)"
    "returns (calm J A b k) (stage bArgsInit bArgsInit_update (with_params (initArgs P)))"
    "returns (calm J A b k) (stage bRandInit bRandInit_update initRand)"
proof -
  show "returns (calm J A b k) (stage bArgsInit bArgsInit_update (with_params (initArgs P)))"
    by (intro returns_stage returns_with_params initArgs_calm [OF assms]) (auto simp: calm_def)
qed (rule returns_stage returnsI, auto simp: initSignals_def initRand_def calm_def)+

lemma setupScene_ready:
  assumes "params_return P J A" and "calm J A b k x"
  shows "\<exists>x'. stage bSceneSetup bSceneSetup_update (with_params (Service_setupScene P)) x = Some (True, x') \<and> ready J A b k x'"
proof (cases "bSceneSetup x")
  case False
  obtain p where p: "svParams x = Some p" using assms(2) by (auto simp: calm_def)
  obtain q scene where q: "ip_setupScene P p (svScene x) = (q, scene)" by fastforce
  then have "J q" using assms(1) by (metis fst_conv params_return_def)
  with False p q assms(2) show ?thesis
    by (auto simp: stage_def with_params_def Service_setupScene_def ready_def calm_def)
qed (use assms(2) in \<open>auto simp: stage_def ready_def\<close>)

lemma late_stages_ready:
  assumes "params_return P J A"
  shows "returns (ready J A b k) (stage bPreInit bPreInit_update (with_params (Service_preInit P)))"
    "returns (ready J A b k) (stage bPostInit bPostInit_update (with_params (Service_postInit P)))"
    "returns (ready J A b k) (stage bInit bInit_update (with_params (startService now L P)))"
proof -
  have pre: "\<exists>ok x'. Service_preInit P p x = Some (ok, x') \<and> ready J A b k x'" if "ready J A b k x" "svParams x = Some p" for p x
  proof -
    have "J p" using that by (simp add: ready_def calm_def)
    then obtain ok q scene where "ip_preInit P (svPaused x) (p, svScene x) = Some (ok, q, scene)" "J q"
      using assms unfolding params_return_def by blast
    with that show ?thesis by (auto simp: Service_preInit_def ready_def calm_def)
  qed
  have post: "\<exists>ok x'. Service_postInit P p x = Some (ok, x') \<and> ready J A b k x'" if "ready J A b k x" "svParams x = Some p" for p x
  proof -
    have "J p" using that by (simp add: ready_def calm_def)
    then obtain ok q where "ip_init P (svPaused x) p = Some (ok, q)" "J q"
      using assms unfolding params_return_def by blast
    with that show ?thesis by (auto simp: Service_postInit_def ready_def calm_def)
  qed
  have some: "svParams x \<noteq> None" if "ready J A b k x" for x using that by (auto simp: ready_def calm_def)
  show "returns (ready J A b k) (stage bPreInit bPreInit_update (with_params (Service_preInit P)))"
    by (intro returns_stage returns_with_params some pre) (auto simp: ready_def calm_def)
  show "returns (ready J A b k) (stage bPostInit bPostInit_update (with_params (Service_postInit P)))"
    by (intro returns_stage returns_with_params some post) (auto simp: ready_def calm_def)
  show "returns (ready J A b k) (stage bInit bInit_update (with_params (startService now L P)))"
    by (intro returns_stage returns_with_params some returnsD [OF startService_ready]) (auto simp: ready_def calm_def)
qed

lemma Service_init_calm:
  fixes L :: "('s, 'k, 'm) libs" and P :: "('p, 'm, 'h) IServiceParams"
  assumes "params_return P J A"
  shows "returns (calm J A b k) (Service_init now L P)"
proof (rule returnsI)
  fix x :: "('s, 'm, 'h, 'p) Service" assume x: "calm J A b k x"
  let ?late = "andThen (stage bPreInit bPreInit_update (with_params (Service_preInit P)))
    (andThen (stage bInit bInit_update (with_params (startService now L P)))
      (stage bPostInit bPostInit_update (with_params (Service_postInit P)) :: ('s, 'm, 'h, 'p) Service \<Rightarrow> _))"
  let ?scene = "stage bSceneSetup bSceneSetup_update (with_params (Service_setupScene P)) :: ('s, 'm, 'h, 'p) Service \<Rightarrow> _"
  have late: "returns (ready J A b k) ?late" by (intro returns_andThen late_stages_ready [OF assms])
  have "returns (calm J A b k) (andThen ?scene ?late)"
  proof (rule returnsI)
    fix y :: "('s, 'm, 'h, 'p) Service" assume "calm J A b k y"
    then obtain z where "?scene y = Some (True, z)" "ready J A b k z" using setupScene_ready [OF assms] by blast
    with returnsD [OF late, of z] show "\<exists>ok y'. andThen ?scene ?late y = Some (ok, y') \<and> calm J A b k y'"
      by (auto simp: andThen_def [of ?scene] ready_def)
  qed
  then have "returns (calm J A b k) (andThen (stage bSignalsInit bSignalsInit_update initSignals)
        (andThen (stage bArgsInit bArgsInit_update (with_params (initArgs P)))
        (andThen (stage bRandInit bRandInit_update initRand) (andThen ?scene ?late))))"
    by (intro returns_andThen [OF early_stages_calm(1) [OF assms]] returns_andThen [OF early_stages_calm(2) [OF assms]]
        returns_andThen [OF early_stages_calm(3) [OF assms]])
  then show "\<exists>ok x'. Service_init now L P x = Some (ok, x') \<and> calm J A b k x'"
    using x by (auto simp: Service_init_def calm_def dest!: returnsD [of _ _ x])
qed

lemma Service_init_installs:
  assumes "svParams x \<noteq> None" and "bSignalsInit x \<longrightarrow> svSignals x"
  shows "Service_init now L P x = Service_init now L P (x\<lparr>svSignals := True, bSignalsInit := True\<rparr>)"
proof (cases "bSignalsInit x")
  case True
  then have "x\<lparr>svSignals := True, bSignalsInit := True\<rparr> = x" using assms(2) by simp
  then show ?thesis by simp
next
  case False
  then have "stage bSignalsInit bSignalsInit_update initSignals x =
      stage bSignalsInit bSignalsInit_update initSignals (x\<lparr>svSignals := True, bSignalsInit := True\<rparr>)"
    by (simp add: stage_def initSignals_def)
  then show ?thesis
    using assms(1) by (auto simp: Service_init_def andThen_def [of "stage bSignalsInit bSignalsInit_update initSignals"])
qed

text \<open>Inputs under which a service can be stopped: any signals and subscribed events, requests to stop by the
  status, data on the port, and requests one at a time, each started only when the one before is complete.  \<open>b\<close> tells
  whether a request is running.\<close>

fun may_come :: "bool \<Rightarrow> 'm svc_input \<Rightarrow> bool" where
  "may_come b (InSignal sig) = True"
| "may_come b (InStatus c) = (c \<noteq> ScRunning)"
| "may_come b (InEvent i) = True"
| "may_come b (InApi ApReady) = True"
| "may_come b (InApi (ApStart addr)) = (\<not> b)"
| "may_come b (InApi (ApFinish i d msg)) = (i = 0)"

fun request_after :: "bool \<Rightarrow> 'm svc_input \<Rightarrow> bool" where
  "request_after b (InApi (ApStart addr)) = True"
| "request_after b (InApi (ApFinish i d msg)) = False"
| "request_after b _ = b"

fun orderly :: "bool \<Rightarrow> 'm svc_input list \<Rightarrow> bool" where
  "orderly b [] = True"
| "orderly b (i # is) = (may_come b i \<and> orderly (request_after b i) is)"

definition requests_start :: "'m svc_input list \<Rightarrow> bool" where
  "requests_start is \<longleftrightarrow> (\<exists>addr. InApi (ApStart addr) \<in> set is)"

definition sigints :: "'m svc_input list \<Rightarrow> nat" where
  "sigints is = length (filter (\<lambda>i. i = InSignal SigInt) is)"

lemma orderly_append: "orderly b (is @ js) \<longleftrightarrow> orderly b is \<and> orderly (fold (\<lambda>i b. request_after b i) is b) js"
  by (induction "is" arbitrary: b) auto

lemma handleRequest_awaiting:
  assumes "handleRequest z pb c handlers addr client data x = TaskDone x'"
  shows "length (awaiting x') \<le> Suc (length (awaiting x))"
  using assms by (auto simp: handleRequest_def Let_def split: option.splits if_splits prod.splits dest!: handleResponse_done)

lemma handleRequest_alone: "trove x = [] \<Longrightarrow> handleRequest z pb c handlers addr client data x \<noteq> TaskHang"
  by (auto simp: handleRequest_def handleResponse_def Let_def TreasureTrove_cleanup_eq split: option.splits if_splits prod.splits)

text \<open>A request that is alone does not hang its port; it may fault.\<close>

lemma api_step_alone:
  assumes "one_request b x" and "may_come b (InApi e)"
  shows "(\<exists>x'. api_step z pb c handlers x e = TaskDone x' \<and> one_request (request_after b (InApi e)) x') \<or>
    api_step z pb c handlers x e = TaskFault \<and> requests_start [InApi e]"
proof (cases e)
  case ApReady
  then show ?thesis
    using assms ApiPort_ready_returns [of z AsioOk x] by (auto simp: one_request_def api_inv_def)
next
  case (ApStart addr)
  then have none: "awaiting x = []" "trove x = []" "api_inv x" using assms by (auto simp: one_request_def api_inv_def)
  show ?thesis
  proof (cases "spawned x")
    case (Cons r rest)
    obtain client data where r: "r = (client, data)" by fastforce
    show ?thesis
    proof (cases "api_step z pb c handlers x e")
      case (TaskDone x')
      moreover have "api_inv x'" by (rule api_step_keeps [OF none(3) _ TaskDone]) (simp add: ApStart none)
      moreover have "length (awaiting x') \<le> 1"
        using TaskDone ApStart Cons r none handleRequest_awaiting [of z pb c handlers addr client data "x\<lparr>spawned := rest\<rparr>" x'] by simp
      ultimately show ?thesis using ApStart by (simp add: one_request_def)
    qed (use ApStart Cons r none handleRequest_alone [of "x\<lparr>spawned := rest\<rparr>"] in \<open>auto simp: requests_start_def\<close>)
  qed (use ApStart none in \<open>auto simp: one_request_def\<close>)
next
  case (ApFinish i d msg)
  then have i: "i = 0" "api_inv x" "length (awaiting x) \<le> 1" using assms by (auto simp: one_request_def split: if_splits)
  show ?thesis
  proof (cases "awaiting x")
    case (Cons r rs)
    then obtain x' where x': "api_step z pb c handlers x e = TaskDone x'"
      using finish_eq [OF i(2), of 0 z pb c handlers d msg] ApFinish i(1) by (cases "api_step z pb c handlers x e") auto
    moreover have "api_inv x'" by (rule api_step_keeps [OF i(2) _ x']) (simp add: ApFinish)
    moreover have "awaiting x' = []"
      using x' ApFinish i Cons by (auto split: prod.splits dest!: handleResponse_done)
    ultimately show ?thesis using ApFinish by (simp add: one_request_def)
  qed (use ApFinish i in \<open>simp add: one_request_def\<close>)
qed

lemma svc_step_calm:
  assumes "calm J A b k x" and "may_come b i" and "k + sigints [i] < MAX_INTERRUPTS"
  shows "(\<exists>y. svc_step L i x = SvcRunning y \<and> calm J A (request_after b i) (k + sigints [i]) y \<and>
      (svStatus x \<noteq> ScRunning \<or> i = InSignal SigTerm \<longrightarrow> svStatus y \<noteq> ScRunning)) \<or>
    svc_step L i x = SvcFault \<and> requests_start [i]"
proof (cases i)
  case (InSignal sig)
  with assms show ?thesis
    by (cases sig) (auto simp: svc_step_def handleSignal_def calm_def sigints_def Service_setStatus_def Let_def)
next
  case (InStatus c)
  with assms show ?thesis by (auto simp: svc_step_def calm_def sigints_def Service_setStatus_def)
next
  case (InEvent j)
  with assms show ?thesis by (auto simp: svc_step_def calm_def sigints_def)
next
  case (InApi e)
  show ?thesis
  proof (cases "apiProcessor x")
    case (Some port)
    then have "one_request b port" using assms(1) by (simp add: calm_def)
    from api_step_alone [OF this, of e "lb_zmq L" "lb_pb L" "svCatalog x" "svApiMap x"] show ?thesis
      using Some InApi assms by (auto simp: svc_step_def calm_def sigints_def)
  qed (use InApi assms in \<open>auto simp: svc_step_def calm_def sigints_def\<close>)
qed

lemma svc_inputs_calm:
  assumes "calm J A b k x" and "orderly b is" and "k + sigints is < MAX_INTERRUPTS"
  shows "(\<exists>y. svc_inputs L is x = SvcRunning y \<and> calm J A (fold (\<lambda>i b. request_after b i) is b) (k + sigints is) y \<and>
      (svStatus x \<noteq> ScRunning \<or> InSignal SigTerm \<in> set is \<longrightarrow> svStatus y \<noteq> ScRunning)) \<or>
    svc_inputs L is x = SvcFault \<and> requests_start is"
  using assms
proof (induction "is" arbitrary: x b k)
  case (Cons i "is")
  have split: "sigints (i # is) = sigints [i] + sigints is" by (simp add: sigints_def)
  from svc_step_calm [OF Cons.prems(1), of i L] Cons.prems(2,3) split consider
      (fault) "svc_step L i x = SvcFault" "requests_start [i]"
    | (run) y where "svc_step L i x = SvcRunning y" "calm J A (request_after b i) (k + sigints [i]) y"
        "svStatus x \<noteq> ScRunning \<or> i = InSignal SigTerm \<longrightarrow> svStatus y \<noteq> ScRunning"
    by auto
  then show ?case
  proof cases
    case fault
    then show ?thesis by (auto simp: requests_start_def)
  next
    case run
    with Cons.IH [OF run(2)] Cons.prems(2,3) split show ?thesis by (auto simp: requests_start_def add.assoc)
  qed
qed (simp add: sigints_def)

lemma exec_end_calm:
  assumes "\<not> svStuck x"
  shows "\<exists>y. exec_end P x = SvcEnded y"
  using assms by (simp add: exec_end_def Service_cleanup_def stopService_def Let_def reset_api_def reset_processor_def)

lemma exec_stops:
  assumes "params_return P J A" and "A (svArgv x)" "\<not> svStuck x" "svParams x \<noteq> None" "bSignalsInit x \<longrightarrow> svSignals x"
    and "bSceneSetup x \<longrightarrow> J (the (svParams x))" and "\<forall>port. apiProcessor x = Some port \<longrightarrow> one_request b port"
    and "orderly b (concat rounds)" and "interrupts x + sigints (concat rounds) < MAX_INTERRUPTS"
    and "InSignal SigTerm \<in> set (concat rounds) \<or> svStatus x \<noteq> ScRunning"
  shows "(\<exists>y. exec now L P rounds x = SvcEnded y) \<or> exec now L P rounds x = SvcFault \<and> requests_start (concat rounds)"
  using assms(2-)
proof (induction rounds arbitrary: x b)
  case Nil
  then show ?case using exec_end_calm [of x P] by simp
next
  case (Cons r rounds)
  show ?case
  proof (cases "svStatus x = ScRunning")
    case True
    have "calm J A b (interrupts x) (x\<lparr>svSignals := True, bSignalsInit := True\<rparr>)" using Cons.prems by (auto simp: calm_def)
    then obtain ok y where y: "Service_init now L P x = Some (ok, y)" "calm J A b (interrupts x) y"
      using returnsD [OF Service_init_calm [OF assms(1)]] Service_init_installs [OF Cons.prems(3,4)] by metis
    have "interrupts x + sigints r < MAX_INTERRUPTS" "orderly b r"
      using Cons.prems(7,8) by (simp_all add: sigints_def orderly_append)
    from svc_inputs_calm [OF y(2) this(2,1), of L] consider
        (fault) "svc_inputs L r y = SvcFault" "requests_start r"
      | (run) z where "svc_inputs L r y = SvcRunning z"
          "calm J A (fold (\<lambda>i b. request_after b i) r b) (interrupts x + sigints r) z"
          "InSignal SigTerm \<in> set r \<longrightarrow> svStatus z \<noteq> ScRunning" by blast
    then show ?thesis
    proof cases
      case fault
      with True y show ?thesis by (auto simp: requests_start_def)
    next
      case run
      have "(\<exists>y. exec now L P rounds z = SvcEnded y) \<or> exec now L P rounds z = SvcFault \<and> requests_start (concat rounds)"
        by (rule Cons.IH [of z "fold (\<lambda>i b. request_after b i) r b"])
          (use run Cons.prems True in \<open>auto simp: calm_def sigints_def orderly_append\<close>)
      with True y run show ?thesis by (auto simp: requests_start_def)
    qed
  qed (use Cons.prems(2) exec_end_calm [of x P] in simp)
qed


lemma ArgParser_parse_name: "ArgParser_parse q (Some [prog]) = Some Args_new"
  by (simp add: ArgParser_parse_def Args_hasError_def Args_new_def)


section \<open>A service that cannot be stopped\<close>

lemma stuck_stages:
  "keeps_inv svStuck initSignals" "keeps_inv svStuck (initArgs P p)" "keeps_inv svStuck initRand"
  "keeps_inv svStuck (Service_setupScene P p)" "keeps_inv svStuck (Service_preInit P p)" "keeps_inv svStuck (Service_postInit P p)"
  "keeps_inv svStuck (start_publisher L P p)" "keeps_inv svStuck (start_api L P p)" "keeps_inv svStuck (start_processor L P p)"
proof -
  show "keeps_inv svStuck (initArgs P p)"
    by (rule keeps_invI) (auto dest!: initArgs_changes)
qed (rule keeps_invI, auto simp: initSignals_def initRand_def Service_setupScene_def Service_preInit_def Service_postInit_def
      start_publisher_def start_api_def start_processor_def reset_publisher_def reset_api_def reset_processor_def Let_def
      split: prod.splits if_splits)+

lemma startService_stuck: "keeps_inv svStuck (startService now L P p)"
proof (rule keeps_invI)
  fix x ok x' assume x: "svStuck x" and st: "startService now L P p x = Some (ok, x')"
  let ?y = "x\<lparr>svScheduler := Scheduler_start now (Scheduler_setThreads now (ip_getNumEventThreads P p) (svScheduler x))\<rparr>"
  have "svStuck ?y" using x by simp
  moreover have "andThen (start_publisher L P p) (andThen (start_api L P p) (start_processor L P p)) ?y = Some (ok, x')"
    using st by (simp add: startService_def)
  ultimately show "svStuck x'"
    by (rule keeps_invD [OF keeps_andThen [OF stuck_stages(7) keeps_andThen [OF stuck_stages(8,9)]]])
qed

lemma Service_init_stuck: "keeps_inv svStuck (Service_init now L P)"
  by (rule keeps_Service_init) (simp_all add: stuck_stages startService_stuck)

lemma svc_inputs_stuck: "svStuck x \<Longrightarrow> svc_inputs L is x = SvcRunning y \<Longrightarrow> svStuck y"
proof (induction "is" arbitrary: x)
  case (Cons i "is")
  obtain z where z: "svc_step L i x = SvcRunning z" "svc_inputs L is z = SvcRunning y"
    using Cons.prems(2) by (auto split: svc_result.splits)
  have "svStuck z" using z(1) Cons.prems(1)
    by (cases i) (auto simp: svc_step_def handleSignal_def Service_setStatus_def Let_def
        split: signal.splits if_splits option.splits)
  then show ?case using Cons.IH z(2) by blast
qed simp

lemma exec_end_stuck: "svStuck x \<Longrightarrow> exec_end P x = SvcHang"
  by (simp add: exec_end_def Service_cleanup_def stopService_def reset_api_def reset_processor_def Let_def)

lemma exec_stuck: "svStuck x \<Longrightarrow> exec now L P rounds x \<noteq> SvcEnded y"
proof (induction rounds arbitrary: x)
  case (Cons r rounds)
  show ?case
  proof
    assume e: "exec now L P (r # rounds) x = SvcEnded y"
    then obtain ok z u where "Service_init now L P x = Some (ok, z)" "svc_inputs L r z = SvcRunning u"
      "exec now L P rounds u = SvcEnded y"
      by (auto simp: svc_inputs_not_ended exec_end_stuck [OF Cons.prems] split: option.splits svc_result.splits if_splits)
    with Cons show False using keeps_invD [OF Service_init_stuck] svc_inputs_stuck by blast
  qed
qed (simp add: exec_end_stuck)

text \<open>Claim C27.
  Two requests that complete out of order take the service down for good.  When a running request that is not the
  oldest completes, in a state the port can reach, the service never ends its run any more, whatever it is
  sent afterwards: SIGTERM, a shutdown from the scene or further requests.\<close>

theorem Service_out_of_order_never_ends:
  assumes "apiProcessor x = Some port" and "api_reachable (lb_zmq L) (lb_pb L) (svCatalog x) (svApiMap x) port"
    and "0 < i" and "i < length (awaiting port)" and "\<not> svStuck x"
  shows "\<exists>y. svc_step L (InApi (ApFinish i d msg)) x = SvcRunning y \<and>
    (\<forall>is now P rounds z u. svc_inputs L is y = SvcRunning z \<longrightarrow> exec now L P rounds z \<noteq> SvcEnded u)"
proof (intro exI conjI allI impI)
  show "svc_step L (InApi (ApFinish i d msg)) x = SvcRunning (x\<lparr>svStuck := True\<rparr>)"
    using finish_eq [OF api_reachable_inv [OF assms(2)] assms(4), of "lb_zmq L" "lb_pb L" "svCatalog x" "svApiMap x" d msg] assms
    by (simp add: svc_step_def)
next
  fix "is" now P rounds z u assume "svc_inputs L is (x\<lparr>svStuck := True\<rparr>) = SvcRunning z"
  from svc_inputs_stuck [OF _ this] have "svStuck z" by simp
  then show "exec now L P rounds z \<noteq> SvcEnded u" by (rule exec_stuck)
qed

theorem Service_out_of_order_never_ends_witness:
  "\<exists>x y. svc_step demo_libs (InApi (ApFinish 1 Details_new None)) x = SvcRunning y \<and> svStatus x = ScRunning \<and>
    (\<forall>is now P rounds z u. svc_inputs demo_libs is y = SvcRunning z \<longrightarrow>
       exec now demo_libs (P :: (unit, string \<times> bytes, string) IServiceParams) rounds z \<noteq> SvcEnded u)"
proof -
  obtain port where port: "api_reachable wide_zmq plain_pb demo_catalog [(5, ''h'')] port" "length (awaiting port) = 2"
    using demo_two_running by blast
  let ?x = "demo_running\<lparr>apiProcessor := Some port, svCatalog := demo_catalog, svApiMap := [(5, ''h'')]\<rparr>"
  have "apiProcessor ?x = Some port" "\<not> svStuck ?x" "svStatus ?x = ScRunning"
    by (simp_all add: demo_running_def demo_service_defs)
  moreover have "api_reachable (lb_zmq demo_libs) (lb_pb demo_libs) (svCatalog ?x) (svApiMap ?x) port"
    using port(1) by (simp add: demo_libs_simps)
  ultimately show ?thesis
    using Service_out_of_order_never_ends [of ?x port demo_libs 1 Details_new None] port(2) by fastforce
qed

section \<open>Exit codes\<close>

text \<open>Every run that ends gives the exit code 0: the statuses other than a shutdown that leave the loop have the
  value 0 as well.\<close>

lemma run_exit_code: "run now L P renew p code argv live c l rounds = SvcEnded e \<Longrightarrow> e = 0"
proof (induction rounds arbitrary: p code argv live c l)
  case (Cons r rounds)
  then show ?case
    by (auto simp: Let_def split: svc_result.splits if_splits) (metis ServiceStatusCode.exhaust ServiceStatusCode_value.simps(1))
qed simp

text \<open>The process exits at once exactly with the fifth interrupt.\<close>

lemma interrupts_exit:
  assumes "svSignals x" and "interrupts x < MAX_INTERRUPTS"
  shows "svc_inputs L (replicate n (InSignal SigInt)) x = SvcExit \<longleftrightarrow> MAX_INTERRUPTS \<le> interrupts x + n"
  using assms
proof (induction n arbitrary: x)
  case (Suc n)
  let ?y = "(if interrupts x = 0 then Service_setStatus ScShutdown (x\<lparr>interrupts := 1\<rparr>) else x\<lparr>interrupts := interrupts x + 1\<rparr>)"
  show ?case
  proof (cases "interrupts x + 1 < MAX_INTERRUPTS")
    case True
    then have "svc_step L (InSignal SigInt) x = SvcRunning ?y"
      using Suc.prems by (simp add: svc_step_def handleSignal_def Let_def)
    moreover have "svSignals ?y" "interrupts ?y = interrupts x + 1"
      using Suc.prems by (simp_all add: Service_setStatus_def)
    ultimately show ?thesis using Suc.IH [of ?y] True by simp
  next
    case False
    then show ?thesis using Suc.prems
      by (simp add: svc_step_def handleSignal_def Let_def MAX_INTERRUPTS_def)
  qed
qed simp

end
