(* ===== verification/FC_Nodes.thy ===== *)
theory FC_Nodes
  imports FC_Service FC_Pending
begin

text \<open>
  The two services of the node as parameters of the service life cycle: the curator,
  \<^verbatim>\<open>services/curator/core/CuratorServiceParams\<close>, with the connection of \<^verbatim>\<open>db/Database\<close>, and the peer
  service, \<^verbatim>\<open>services/p2p/core/P2pServiceParams\<close>.

  The environment variables, the connection pool of the database client, the addresses of the members and
  the hashes of their types are arguments.  A coroutine that a hook spawns is recorded with its
  arguments; it runs on the loop of the scheduler.
\<close>

section \<open>Model\<close>

subsection \<open>Database\<close>

text \<open>A database is connected when it has a pool.  \<open>pool\<close> tells the error of making one.\<close>

record Database =
  dbImpl :: bool

definition Database_new :: Database where
  "Database_new = \<lparr>dbImpl = False\<rparr>"

definition Database_move :: "Database \<Rightarrow> Database \<times> Database" where
  "Database_move rhs = (\<lparr>dbImpl = dbImpl rhs\<rparr>, rhs\<lparr>dbImpl := False\<rparr>)"

definition Database_assign :: "Database \<Rightarrow> Database \<Rightarrow> Database \<times> Database" where
  "Database_assign x rhs = (x\<lparr>dbImpl := dbImpl rhs\<rparr>, rhs\<lparr>dbImpl := False\<rparr>)"

definition Database_connect :: "(string \<Rightarrow> string option) \<Rightarrow> string \<Rightarrow> Details \<Rightarrow> Database \<Rightarrow> Details \<times> Database" where
  "Database_connect pool params d x =
     (case pool params of
        None \<Rightarrow> (d, x\<lparr>dbImpl := True\<rparr>)
      | Some e \<Rightarrow>
          (setError EcDatabaseError ''connect'' (''Failed to connect to database: '' @ e) d, x\<lparr>dbImpl := False\<rparr>))"

subsection \<open>Curator\<close>

record curator_host =
  ch_getenv :: "string \<Rightarrow> string option"
  ch_pool :: "string \<Rightarrow> string option"
  ch_storage :: "u64 \<times> nat"
  ch_db :: "u64 \<times> nat"
  ch_integrator :: "u64 \<times> nat"

text \<open>\<open>cpCtx\<close> tells whether the pointer to the scene is set.\<close>

record CuratorServiceParams =
  cpReloadFrom :: u32
  cpStorageDir :: string
  cpCtx :: bool
  cpFsBlocks :: BlockStorage
  cpDb :: "Database option"
  cpIntegrator :: "BlockIntegrator option"
  cpSpawned :: "u32 list"

definition CuratorServiceParams_new :: "curator_host \<Rightarrow> CuratorServiceParams" where
  "CuratorServiceParams_new H =
     \<lparr>cpReloadFrom = 4294967295,
      cpStorageDir =
        (case ch_getenv H ''FLUFFYCOIN_RESOURCE_DIR'' of
           Some dir \<Rightarrow> if dir \<noteq> [] then dir @ ''/blocks'' else ''~/.fluffycoin/blocks''
         | None \<Rightarrow> ''~/.fluffycoin/blocks''),
      cpCtx = False, cpFsBlocks = \<lparr>storageDir = []\<rparr>, cpDb = None, cpIntegrator = None, cpSpawned = []\<rparr>"

definition Curator_getLogFile :: string where
  "Curator_getLogFile = ''/var/log/fluffycoin/curator.log''"

definition Curator_setupScene :: "curator_host \<Rightarrow> CuratorServiceParams \<Rightarrow> ServiceScene \<Rightarrow> CuratorServiceParams \<times> ServiceScene" where
  "Curator_setupScene H x scene = (x\<lparr>cpCtx := True\<rparr>, ServiceScene_setPtr (fst (ch_storage H)) (snd (ch_storage H)) scene)"

definition Curator_initCmdLineParams :: "CuratorServiceParams \<Rightarrow> ArgParser \<Rightarrow> ArgParser" where
  "Curator_initCmdLineParams x a =
     (let a = ArgParser_addParam CHR ''b'' ''block-dir''
                (''Location to read/write blocks from (Default: '' @ cpStorageDir x @ '')'') a
      in ArgParser_addParam CHR ''r'' ''reload-from'' ''Reconciliation block to reload from (0=Reload all)'' a)"

definition Curator_setCmdLineArgs :: "Args \<Rightarrow> CuratorServiceParams \<Rightarrow> CuratorServiceParams" where
  "Curator_setCmdLineArgs a x =
     (let x = (if Args_hasArg ''block-dir'' a then x\<lparr>cpStorageDir := Args_getArg ''block-dir'' a\<rparr> else x)
      in if Args_hasArg ''reload-from'' a then x\<lparr>cpReloadFrom := ucast (Args_getSizeT ''reload-from'' a)\<rparr> else x)"

definition Curator_API_PORT :: u16 where
  "Curator_API_PORT = 0x4643"

definition Curator_EVENT_PORT :: u16 where
  "Curator_EVENT_PORT = 0x4663"

text \<open>Formatting a null pointer as a string throws, and nothing catches it: \<open>None\<close>.\<close>

definition connection_params :: "curator_host \<Rightarrow> string option" where
  "connection_params H =
     do { db \<leftarrow> ch_getenv H ''PGDATABASE''; host \<leftarrow> ch_getenv H ''PGHOST''; port \<leftarrow> ch_getenv H ''PGPORT'';
          user \<leftarrow> ch_getenv H ''PGUSER''; pw \<leftarrow> ch_getenv H ''PGPASSWORD'';
          Some (''dbname='' @ db @ '' host='' @ host @ '' port='' @ port @ '' user='' @ user @ '' password='' @ pw) }"

definition Curator_preInit ::
  "curator_host \<Rightarrow> bool \<Rightarrow> CuratorServiceParams \<times> ServiceScene \<Rightarrow> (bool \<times> CuratorServiceParams \<times> ServiceScene) option"
where
  "Curator_preInit H paused s =
     (case s of (x, scene) \<Rightarrow>
      if paused then Some (True, x, scene)
      else if cpDb x \<noteq> None then Some (True, x, scene)
      else if \<not> cpCtx x then None
      else
        do { params \<leftarrow> connection_params H;
             let (d, db) = Database_connect (ch_pool H) params Details_new Database_new;
             if \<not> isOk d then Some (False, x\<lparr>cpDb := None\<rparr>, scene)
             else
               Some (True, x\<lparr>cpDb := Some db, cpIntegrator := Some BlockIntegrator_new\<rparr>,
                     ServiceScene_setPtr (fst (ch_integrator H)) (snd (ch_integrator H))
                       (ServiceScene_setPtr (fst (ch_db H)) (snd (ch_db H)) scene)) })"

definition Curator_init :: "bool \<Rightarrow> CuratorServiceParams \<Rightarrow> (bool \<times> CuratorServiceParams) option" where
  "Curator_init paused x =
     (if paused then Some (True, x)
      else if \<not> cpCtx x then None
      else Some (True, x\<lparr>cpFsBlocks := BlockStorage_setDirectory (cpStorageDir x) (cpFsBlocks x),
                         cpSpawned := cpSpawned x @ [cpReloadFrom x]\<rparr>))"

definition Curator_postCleanup :: "CuratorServiceParams \<Rightarrow> CuratorServiceParams" where
  "Curator_postCleanup x = x\<lparr>cpIntegrator := None, cpDb := None\<rparr>"

definition Curator_params :: "curator_host \<Rightarrow> (CuratorServiceParams, 'm, 'h) IServiceParams" where
  "Curator_params H =
     AbstractServiceParams
       \<lparr>ip_initCmdLineParams := Curator_initCmdLineParams,
        ip_setCmdLineArgs := (\<lambda>a argv x. Some (Curator_setCmdLineArgs a x, argv)),
        ip_getLogFile := (\<lambda>_. Curator_getLogFile),
        ip_getApiPort := (\<lambda>_. Curator_API_PORT), ip_getEventPort := (\<lambda>_. Curator_EVENT_PORT),
        ip_setupScene := Curator_setupScene H, ip_preInit := Curator_preInit H, ip_init := Curator_init,
        ip_postCleanup := Curator_postCleanup\<rparr>"

subsection \<open>Peer service\<close>

text \<open>The state is the parameters and the environment variable with the password; \<open>msg\<close> is the type id and the
  default of the one message that has a handler.\<close>

record ('k, 'm) p2p_host =
  ph_json :: "string \<Rightarrow> json option"
  ph_keys :: "'k keylib"
  ph_disk :: disk
  ph_pb :: "'m pblib"
  ph_msg :: "u64 \<times> 'm"
  ph_stakeKey :: "u64 \<times> nat"
  ph_bruteForce :: "u64 \<times> nat"

definition P2p_API_PORT :: u16 where
  "P2p_API_PORT = 0x4643"

definition P2p_EVENT_PORT :: u16 where
  "P2p_EVENT_PORT = 0x4663"

definition P2p_addApiHandlers ::
  "('k, 'm) p2p_host \<Rightarrow> bool \<Rightarrow> (u64, string) omap \<times> 'm Catalog \<Rightarrow> (u64, string) omap \<times> 'm Catalog"
where
  "P2p_addApiHandlers H paused s =
     (if paused then s
      else ApiHandlerMap_add (ph_pb H) (fst (ph_msg H)) (snd (ph_msg H)) ''Handshake::process'' s)"

definition P2p_setScenePtrs :: "('k, 'm) p2p_host \<Rightarrow> ServiceScene \<Rightarrow> ServiceScene" where
  "P2p_setScenePtrs H scene =
     ServiceScene_setPtr (fst (ph_bruteForce H)) (snd (ph_bruteForce H))
       (ServiceScene_setPtr (fst (ph_stakeKey H)) (snd (ph_stakeKey H)) scene)"

definition P2p_params :: "('k, 'm) p2p_host \<Rightarrow> ('k P2pServiceParams \<times> string option, 'm, string) IServiceParams" where
  "P2p_params H =
     AbstractServiceParams
       \<lparr>ip_initCmdLineParams := (\<lambda>_. P2p_initCmdLineParams),
        ip_setCmdLineArgs := (\<lambda>a argv (x, env).
          map_option (\<lambda>(x, argv, env). ((x, env), argv)) (P2p_setCmdLineArgs a argv env x)),
        ip_getLogFile := (\<lambda>_. P2p_getLogFile),
        ip_getApiPort := (\<lambda>_. P2p_API_PORT), ip_getEventPort := (\<lambda>_. P2p_EVENT_PORT),
        ip_getServerKey := (\<lambda>(x, env). bd_bytes (P2p_getServerKey x)),
        ip_setupScene := (\<lambda>p scene. (p, P2p_setScenePtrs H scene)),
        ip_addApiHandlers := (\<lambda>_. P2p_addApiHandlers H),
        ip_preInit := (\<lambda>paused ((x, env), scene).
          map_option (\<lambda>(ok, x). (ok, (x, env), scene)) (P2p_preInit (ph_json H) (ph_keys H) (ph_disk H) paused x))\<rparr>"

text \<open>The parameters of the next run: a new object in the environment the last one left.\<close>

definition P2p_renew :: "('k P2pServiceParams \<times> string option) option \<Rightarrow> 'k P2pServiceParams \<times> string option" where
  "P2p_renew p = (P2pServiceParams_new, case p of None \<Rightarrow> None | Some (_, env) \<Rightarrow> env)"

section \<open>The curator loads its blocks when it starts\<close>

lemma Curator_params_simps:
  "ip_getApiPort (Curator_params H) p = 0x4643" "ip_getEventPort (Curator_params H) p = 0x4663"
  "ip_setupScene (Curator_params H) = Curator_setupScene H" "ip_preInit (Curator_params H) = Curator_preInit H"
  "ip_init (Curator_params H) = Curator_init" "ip_initCmdLineParams (Curator_params H) = Curator_initCmdLineParams"
  "ip_setCmdLineArgs (Curator_params H) a argv q = Some (Curator_setCmdLineArgs a q, argv)"
  "ip_getLogFile (Curator_params H) q = Curator_getLogFile"
  by (simp_all add: Curator_params_def AbstractServiceParams_def Curator_API_PORT_def Curator_EVENT_PORT_def)

text \<open>The objects of the curator have types of their own.\<close>

definition host_ok :: "curator_host \<Rightarrow> bool" where
  "host_ok H \<longleftrightarrow> distinct [fst (ch_storage H), fst (ch_db H), fst (ch_integrator H)]"

text \<open>What the stages have done to the parameters and the scene.\<close>

definition curator_state :: "curator_host \<Rightarrow> CuratorServiceParams \<Rightarrow> bool \<Rightarrow> bool \<Rightarrow> bool \<Rightarrow> CuratorServiceParams \<Rightarrow> ServiceScene \<Rightarrow> bool" where
  "curator_state H p0 sc pre post q scene \<longleftrightarrow>
     cpReloadFrom q = cpReloadFrom p0 \<and> cpStorageDir q = cpStorageDir p0 \<and>
     (sc \<longrightarrow> cpCtx q \<and> ServiceScene_getPtr (fst (ch_storage H)) scene = Some (snd (ch_storage H))) \<and>
     (cpDb q \<noteq> None \<longrightarrow> cpDb q = Some \<lparr>dbImpl = True\<rparr> \<and> cpIntegrator q = Some BlockIntegrator_new \<and>
        ServiceScene_getPtr (fst (ch_db H)) scene = Some (snd (ch_db H)) \<and>
        ServiceScene_getPtr (fst (ch_integrator H)) scene = Some (snd (ch_integrator H))) \<and>
     (pre \<longrightarrow> cpDb q \<noteq> None) \<and>
     (if post then cpSpawned q = [cpReloadFrom p0] \<and> cpFsBlocks q = \<lparr>storageDir = cpStorageDir p0\<rparr> else cpSpawned q = [])"

definition curator_inv :: "curator_host \<Rightarrow> string \<Rightarrow> CuratorServiceParams \<Rightarrow> ('s, 'm, 'h, CuratorServiceParams) Service \<Rightarrow> bool" where
  "curator_inv H prog p0 x \<longleftrightarrow> svArgv x = [prog] \<and> \<not> svPaused x \<and>
     (\<exists>q. svParams x = Some q \<and> curator_state H p0 (bSceneSetup x) (bPreInit x) (bPostInit x) q (svScene x))"

lemma setupScene_state:
  assumes "host_ok H" and "curator_state H p0 sc pre post q scene" and "Curator_setupScene H q scene = (q', scene')"
  shows "curator_state H p0 True pre post q' scene'"
  using assms
  by (auto simp: curator_state_def Curator_setupScene_def host_ok_def ServiceScene_setPtr_def ServiceScene_getPtr_def om.find_put)

lemma preInit_state:
  assumes "host_ok H" and "curator_state H p0 sc pre post q scene" and "Curator_preInit H False (q, scene) = Some (ok, q', scene')"
  shows "curator_state H p0 sc ok post q' scene'"
proof (cases "cpDb q")
  case None
  then obtain params where p: "cpCtx q" "connection_params H = Some params"
    using assms(3) by (cases "connection_params H") (auto simp: Curator_preInit_def split: if_splits)
  obtain d db where c: "Database_connect (ch_pool H) params Details_new Database_new = (d, db)" by fastforce
  have "db = \<lparr>dbImpl = True\<rparr>" if "isOk d"
    using c that by (auto simp: Database_connect_def Database_new_def split: option.splits)
  then show ?thesis
    using assms None p c
    by (auto simp: curator_state_def Curator_preInit_def host_ok_def ServiceScene_setPtr_def ServiceScene_getPtr_def om.find_put
        split: if_splits)
qed (use assms in \<open>auto simp: curator_state_def Curator_preInit_def\<close>)

lemma init_state:
  assumes "curator_state H p0 sc pre False q scene" and "Curator_init False q = Some (ok, q')"
  shows "curator_state H p0 sc pre ok q' scene"
  using assms by (auto simp: curator_state_def Curator_init_def BlockStorage_setDirectory_def split: if_splits)

text \<open>Opening the ports changes neither the parameters nor the scene.\<close>

definition frame :: "('s, 'm, 'h, 'p) Service \<Rightarrow> string list \<times> bool \<times> 'p option \<times> ServiceScene \<times> bool list" where
  "frame x = (svArgv x, svPaused x, svParams x, svScene x, flags x)"

lemma start_frame:
  "keeps_inv (\<lambda>x. frame x = F) (start_publisher L P p)" "keeps_inv (\<lambda>x. frame x = F) (start_api L P p)"
  "keeps_inv (\<lambda>x. frame x = F) (start_processor L P p)"
  by (rule keeps_invI, auto simp: start_publisher_def start_api_def start_processor_def Let_def frame_def flags_def
      reset_publisher_def reset_api_def reset_processor_def split: if_splits prod.splits)+

lemma startService_frame: "startService now L P p x = Some (ok, x') \<Longrightarrow> frame x' = frame x"
proof -
  assume st: "startService now L P p x = Some (ok, x')"
  let ?y = "x\<lparr>svScheduler := Scheduler_start now (Scheduler_setThreads now (ip_getNumEventThreads P p) (svScheduler x))\<rparr>"
  have "andThen (start_publisher L P p) (andThen (start_api L P p) (start_processor L P p)) ?y = Some (ok, x')"
    using st by (simp add: startService_def)
  then have "frame x' = frame ?y"
    by (rule keeps_invD [OF keeps_andThen [OF start_frame(1) keeps_andThen [OF start_frame(2,3)]] refl])
  then show "frame x' = frame x" by (simp add: frame_def flags_def)
qed

lemma keeps_stageI:
  assumes "\<And>x ok x'. I x \<Longrightarrow> \<not> get x \<Longrightarrow> f x = Some (ok, x') \<Longrightarrow> I (upd (\<lambda>_. ok) x')"
  shows "keeps_inv I (stage get upd f)"
proof (rule keeps_invI)
  fix x ok x' assume x: "I x" and st: "stage get upd f x = Some (ok, x')"
  show "I x'"
  proof (cases "get x")
    case False
    then obtain y where "f x = Some (ok, y)" "x' = upd (\<lambda>_. ok) y" using st by (cases "f x") (auto simp: stage_def)
    with assms [OF x False] show ?thesis by simp
  qed (use st x in \<open>simp add: stage_def\<close>)
qed

text \<open>A command line that is only the name of the program changes none of the parameters.\<close>

lemma Curator_initArgs_name:
  assumes "svArgv x = [prog]" and "initArgs (Curator_params H) q x = Some (ok, x')"
  shows "ok \<and> (\<exists>l. x' = x\<lparr>svLog := l, svParams := Some q\<rparr>)"
proof -
  have args: "\<not> Args_hasError Args_new" "Curator_setCmdLineArgs Args_new q = q"
    by (simp_all add: Args_hasError_def Args_new_def Curator_setCmdLineArgs_def Args_hasArg_def om_empty_def)
  let ?l = "if LogArgs_logFile Args_new = []
    then log_setFile Curator_getLogFile (LogArgs_setCmdLineArgs Args_new (svLog x))
    else LogArgs_setCmdLineArgs Args_new (svLog x)"
  have "initArgs (Curator_params H) q x = Some (True, x\<lparr>svLog := ?l, svParams := Some q\<rparr>)"
    using assms(1) args by (simp add: initArgs_def ArgParser_parse_name Curator_params_simps Let_def)
  with assms(2) show ?thesis by auto
qed

lemma curator_stages:
  assumes "host_ok H"
  defines "P \<equiv> Curator_params H"
  shows "keeps_inv (curator_inv H prog p0) (stage bSignalsInit bSignalsInit_update initSignals)"
    "keeps_inv (curator_inv H prog p0) (stage bArgsInit bArgsInit_update (with_params (initArgs P)))"
    "keeps_inv (curator_inv H prog p0) (stage bRandInit bRandInit_update initRand)"
    "keeps_inv (curator_inv H prog p0) (stage bSceneSetup bSceneSetup_update (with_params (Service_setupScene P)))"
    "keeps_inv (curator_inv H prog p0) (stage bPreInit bPreInit_update (with_params (Service_preInit P)))"
    "keeps_inv (curator_inv H prog p0) (stage bInit bInit_update (with_params (startService now L P)))"
    "keeps_inv (curator_inv H prog p0) (stage bPostInit bPostInit_update (with_params (Service_postInit P)))"
proof -
  show "keeps_inv (curator_inv H prog p0) (stage bSceneSetup bSceneSetup_update (with_params (Service_setupScene P)))"
    by (rule keeps_stageI) (auto simp: curator_inv_def with_params_def Service_setupScene_def P_def Curator_params_simps
        split: prod.splits dest: setupScene_state [OF assms(1)])
  show "keeps_inv (curator_inv H prog p0) (stage bPreInit bPreInit_update (with_params (Service_preInit P)))"
    by (rule keeps_stageI) (auto simp: curator_inv_def with_params_def Service_preInit_def P_def Curator_params_simps
        split: prod.splits, erule (1) preInit_state [OF assms(1)])
  show "keeps_inv (curator_inv H prog p0) (stage bPostInit bPostInit_update (with_params (Service_postInit P)))"
    by (rule keeps_stageI) (auto simp: curator_inv_def with_params_def Service_postInit_def P_def Curator_params_simps
        split: prod.splits, erule (1) init_state)
  show "keeps_inv (curator_inv H prog p0) (stage bInit bInit_update (with_params (startService now L P)))"
    by (rule keeps_stageI) (auto simp: curator_inv_def with_params_def frame_def flags_def dest!: startService_frame)
  show "keeps_inv (curator_inv H prog p0) (stage bArgsInit bArgsInit_update (with_params (initArgs P)))"
  proof (rule keeps_stageI)
    fix x ok x' assume x: "curator_inv H prog p0 x" and st: "with_params (initArgs P) x = Some (ok, x')"
    obtain q where q: "svParams x = Some q" "svArgv x = [prog]" using x by (auto simp: curator_inv_def)
    with st have "initArgs (Curator_params H) q x = Some (ok, x')" by (simp add: with_params_def P_def)
    from Curator_initArgs_name [OF q(2) this] x q(1) show "curator_inv H prog p0 (bArgsInit_update (\<lambda>_. ok) x')"
      by (auto simp: curator_inv_def)
  qed
qed (rule keeps_stageI, auto simp: curator_inv_def with_params_def initSignals_def initRand_def)+

lemma keeps_init_stages:
  assumes "keeps_inv I (stage bSignalsInit bSignalsInit_update initSignals)"
    and "keeps_inv I (stage bArgsInit bArgsInit_update (with_params (initArgs P)))"
    and "keeps_inv I (stage bRandInit bRandInit_update initRand)"
    and "keeps_inv I (stage bSceneSetup bSceneSetup_update (with_params (Service_setupScene P)))"
    and "keeps_inv I (stage bPreInit bPreInit_update (with_params (Service_preInit P)))"
    and "keeps_inv I (stage bInit bInit_update (with_params (startService now L P)))"
    and "keeps_inv I (stage bPostInit bPostInit_update (with_params (Service_postInit P)))"
  shows "keeps_inv I (Service_init now L P)"
proof (rule keeps_invI)
  fix x ok x' assume x: "I x" and st: "Service_init now L P x = Some (ok, x')"
  show "I x'"
  proof (cases "svParams x = None")
    case False
    then show ?thesis
      using st keeps_invD [OF keeps_andThen [OF assms(1) keeps_andThen [OF assms(2) keeps_andThen [OF assms(3)
        keeps_andThen [OF assms(4) keeps_andThen [OF assms(5) keeps_andThen [OF assms(6,7)]]]]]] x]
      by (auto simp: Service_init_def)
  qed (use st x in \<open>simp add: Service_init_def\<close>)
qed

lemma Curator_init_inv:
  assumes "host_ok H"
  shows "keeps_inv (curator_inv H prog p0) (Service_init now L (Curator_params H))"
  by (intro keeps_init_stages curator_stages [OF assms])

lemma svc_inputs_frame: "svc_inputs L is x = SvcRunning y \<Longrightarrow> frame y = frame x"
proof (induction "is" arbitrary: x)
  case (Cons i "is")
  then obtain z where z: "svc_step L i x = SvcRunning z" "svc_inputs L is z = SvcRunning y" by (auto split: svc_result.splits)
  have "frame z = frame x" using z(1)
    by (cases i) (auto simp: svc_step_def handleSignal_def Service_setStatus_def frame_def flags_def Let_def
        split: signal.splits if_splits option.splits task.splits)
  with Cons.IH [OF z(2)] show ?case by simp
qed simp

lemma Curator_exec_inv:
  assumes "host_ok H"
  shows "curator_inv H prog p0 x \<Longrightarrow> exec now L (Curator_params H) rounds x = SvcRunning y \<Longrightarrow> curator_inv H prog p0 y"
proof (induction rounds arbitrary: x)
  case (Cons r rounds)
  from Cons.prems(2) obtain ok x1 x2 where i: "Service_init now L (Curator_params H) x = Some (ok, x1)"
    and r: "svc_inputs L r x1 = SvcRunning x2" and e: "exec now L (Curator_params H) rounds x2 = SvcRunning y"
    by (auto simp: exec_end_def split: if_splits option.splits svc_result.splits)
  have "curator_inv H prog p0 x1" using keeps_invD [OF Curator_init_inv [OF assms] Cons.prems(1) i] .
  then have "curator_inv H prog p0 x2" using svc_inputs_frame [OF r] by (simp add: curator_inv_def frame_def flags_def)
  then show ?case by (rule Cons.IH [OF _ e])
qed (auto simp: exec_end_def split: if_splits option.splits)

text \<open>Claim C7.
  A curator that has come up loads the blocks of its directory, all of them.  When the service was started without
  options and without pause and its initialization is complete, its scene holds the storage and the integrator, exactly
  one load was spawned, and that load, run on a directory that holds the files of a chain (a genesis block and
  reconciliation blocks, no node blocks) and nothing else, and on a working database whose table of imported blocks is
  empty, integrates the whole chain, for chains of up to a hundred million blocks and whatever happened during the
  start.\<close>

theorem Curator_comes_up_and_loads:
  assumes "host_ok H" and "Service_run now L (Curator_params H) (CuratorServiceParams_new H) [prog] False n c l rounds = SvcRunning x"
    and "bPostInit x"
    and "env_works e val" and "asn1_lengths e" and "chain_bins e bins blocks cs" and "init_ready e DbIntegrator_new d"
    and "BlockStorage_getFiles \<lparr>storageDir = cpStorageDir (CuratorServiceParams_new H)\<rparr> fs = Some (Some (map chain_file js))"
    and "set js = {..<length bins}"
    and "\<forall>i < length bins. BlockStorage_readBlock \<lparr>storageDir = cpStorageDir (CuratorServiceParams_new H)\<rparr> fs (of_nat i) 0 0
           = bins ! i \<and> bins ! i \<noteq> []"
    and "length bins \<le> 10 ^ 8"
  shows "\<exists>q bi from bi' d'. svParams x = Some q \<and> cpIntegrator q = Some bi \<and> cpSpawned q = [from] \<and>
    ServiceScene_getPtr (fst (ch_storage H)) (svScene x) = Some (snd (ch_storage H)) \<and>
    ServiceScene_getPtr (fst (ch_integrator H)) (svScene x) = Some (snd (ch_integrator H)) \<and>
    LoadFromFs_init e (cpFsBlocks q) fs from bi d = Some (bi', d') \<and>
    chain_of (dbIntegrator bi') = cs ! length bins \<and> (\<forall>k. pend_find bi' k = None)"
proof -
  let ?p = "CuratorServiceParams_new H"
  let ?s = "Service_setParams ?p (Service_setPaused False (Service_setArgs [prog] (Service_new n c l)))"
  have "curator_inv H prog ?p ?s"
    by (simp add: curator_inv_def curator_state_def CuratorServiceParams_new_def Service_setParams_def Service_setPaused_def
        Service_setArgs_def Service_new_def)
  then have inv: "curator_inv H prog ?p x" using Curator_exec_inv [OF assms(1)] assms(2) unfolding Service_run_def by blast
  have "stages_ok ?s"
    by (simp add: stages_ok_def flags_def Service_setParams_def Service_setPaused_def Service_setArgs_def Service_new_def)
  then have "stages_ok x" using exec_stages assms(2) unfolding Service_run_def by blast
  then have "bPreInit x" "bSceneSetup x" using assms(3) by (simp_all add: stages_ok_def flags_def)
  with inv assms(3) obtain q where q: "svParams x = Some q" "curator_state H ?p True True True q (svScene x)"
    by (auto simp: curator_inv_def)
  then have "cpFsBlocks q = \<lparr>storageDir = cpStorageDir ?p\<rparr>" "cpIntegrator q = Some BlockIntegrator_new"
    "cpSpawned q = [cpReloadFrom ?p]" by (auto simp: curator_state_def)
  with q LoadFromFs_loads_chain [OF assms(4-11), of "cpReloadFrom ?p"] show ?thesis
    by (auto simp: curator_state_def)
qed

definition demo_host :: curator_host where
  "demo_host =
     \<lparr>ch_getenv = (\<lambda>v. if v = ''FLUFFYCOIN_RESOURCE_DIR'' then Some ''/b'' else Some ''pg''), ch_pool = (\<lambda>_. None),
      ch_storage = (1, 101), ch_db = (2, 102), ch_integrator = (3, 103)\<rparr>"

definition demo_curator_disk :: disk where
  "demo_curator_disk = \<lparr>dirs = [''/b/blocks''],
     files = [(''/b/blocks/'' @ chain_file 0, [0]), (''/b/blocks/'' @ chain_file 1, [1])], home = None, quota = (\<lambda>_. None), io = plain_io\<rparr>"

lemma demo_curator_dir: "cpStorageDir (CuratorServiceParams_new demo_host) = ''/b/blocks''"
  by (simp add: CuratorServiceParams_new_def demo_host_def)

lemma demo_curator_start:
  fixes x :: "(zmq_queues, string \<times> bytes, string, CuratorServiceParams) Service"
  assumes "\<not> svPaused x" and "eventPublisher x = None" and "apiProcessor x = None" and "eventProcessor x = None"
    and "svSubs x = EventSubscriptionMap_new"
  shows "startService 0 demo_libs (Curator_params H) p x = Some (True, x\<lparr>svScheduler := Scheduler_start 0 (Scheduler_setThreads 0 1 (svScheduler x)),
    eventPublisher := Some (Some \<lparr>pCtx = True, pSocket = Some ([], [], [])\<rparr>), apiProcessor := Some (demo_port []),
    eventProcessor := Some EventProcessor_new, svLive := svLive x + 2\<rparr>)"
proof -
  have port: "ApiPort_setAuthenticator None ApiPort_new = ApiPort_new" by (simp add: ApiPort_setAuthenticator_def ApiPort_new_def)
  have P: "ip_getServerKey (Curator_params H) p = []" "ip_getAuthenticator (Curator_params H) p = None"
    "ip_addApiHandlers (Curator_params H) p b h = h" "ip_addEventSubscriptions (Curator_params H) p ev = ev"
    "ip_getNumEventThreads (Curator_params H) p = 1" for b h ev
    by (simp_all add: Curator_params_def AbstractServiceParams_def)
  show ?thesis using assms
    by (simp add: startService_def andThen_def start_publisher_def start_api_def start_processor_def P Curator_params_simps
        demo_libs_simps demo_publisher demo_api demo_subscribe reset_publisher_def reset_api_def reset_processor_def Let_def port)
qed

lemma demo_curator_up:
  "\<exists>x :: (zmq_queues, string \<times> bytes, string, CuratorServiceParams) Service.
     Service_run 0 demo_libs (Curator_params demo_host) (CuratorServiceParams_new demo_host) [''curator''] False 0 Catalog_new
     (log_init demo_curator_disk) [[]] = SvcRunning x \<and> bPostInit x"
proof -
  let ?p = "CuratorServiceParams_new demo_host"
  let ?s = "Service_setParams ?p (Service_setPaused False (Service_setArgs [''curator''] (Service_new 0 Catalog_new (log_init demo_curator_disk))))
    :: (zmq_queues, string \<times> bytes, string, CuratorServiceParams) Service"
  obtain params where con: "connection_params demo_host = Some params" by (simp add: connection_params_def demo_host_def)
  have pool: "Database_connect (ch_pool demo_host) params Details_new Database_new = (Details_new, \<lparr>dbImpl = True\<rparr>)"
    by (simp add: Database_connect_def demo_host_def Database_new_def)
  have "cpDb ?p = None" by (simp add: CuratorServiceParams_new_def)
  moreover have "\<not> Args_hasError Args_new" "Curator_setCmdLineArgs Args_new ?p = ?p"
    by (simp_all add: Args_hasError_def Args_new_def Curator_setCmdLineArgs_def Args_hasArg_def om_empty_def)
  ultimately obtain x where "Service_init 0 demo_libs (Curator_params demo_host) ?s = Some (True, x)" "bPostInit x" "svStatus x = ScRunning"
    by (simp add: Service_init_def andThen_def stage_def with_params_def initSignals_def initArgs_def initRand_def
      Service_setupScene_def Service_preInit_def Service_postInit_def Curator_params_simps Curator_setupScene_def Curator_preInit_def
      Curator_init_def con pool demo_curator_start ArgParser_parse_name Let_def Service_setParams_def Service_setPaused_def Service_setArgs_def Service_new_def)
  moreover have "svStatus ?s = ScRunning"
    by (simp add: Service_setParams_def Service_setPaused_def Service_setArgs_def Service_new_def)
  ultimately show ?thesis by (intro exI [of _ x]) (simp add: Service_run_def)
qed

theorem Curator_comes_up_and_loads_witness:
  "\<exists>(x :: (zmq_queues, string \<times> bytes, string, CuratorServiceParams) Service) q bi from bi' d'.
    svParams x = Some q \<and> cpIntegrator q = Some bi \<and> cpSpawned q = [from] \<and>
    LoadFromFs_init demo_chain_env (cpFsBlocks q) demo_curator_disk from bi [] = Some (bi', d') \<and>
    chain_of (dbIntegrator bi') = demo_states ! 2 \<and> (\<forall>k. pend_find bi' k = None)"
proof -
  let ?st = "\<lparr>storageDir = ''/b/blocks''\<rparr>"
  obtain x :: "(zmq_queues, string \<times> bytes, string, CuratorServiceParams) Service" where
    x: "Service_run 0 demo_libs (Curator_params demo_host) (CuratorServiceParams_new demo_host) [''curator''] False 0 Catalog_new
      (log_init demo_curator_disk) [[]] = SvcRunning x" "bPostInit x"
    using demo_curator_up by blast
  have host: "host_ok demo_host" by (simp add: host_ok_def demo_host_def)
  have slash: "CHR ''/'' \<notin> set (chain_file i)" for i
    by (simp add: chain_file_def BlockFilename_no_slash)
  have ne: "chain_file 1 \<noteq> chain_file 0"
    by (simp add: chain_file_def BlockFilename_get_inject)
  have list: "BlockStorage_getFiles ?st demo_curator_disk = Some (Some (map chain_file [0, 1]))"
    by (simp add: BlockStorage_getFiles_def FileTools_listFiles_def demo_curator_disk_def FileTools_exists_def
        FileTools_isDir_def om_keys_def below_def map_filter_simps slash)
  have "BlockStorage_readBlock ?st demo_curator_disk (of_nat i) 0 0 = [[0], [1]] ! i" if "i < 2" for i
    using that ne by (auto simp: less_2_cases_iff BlockStorage_readBlock_def FileTools_read_def demo_curator_disk_def
        block_path_def expandTilde_def chain_file_def om_find_Cons)
  then have read: "\<forall>i < length [[0], [1 :: byte]]. BlockStorage_readBlock ?st demo_curator_disk (of_nat i) 0 0 = [[0], [1]] ! i \<and>
      [[0], [1 :: byte]] ! i \<noteq> []"
    by (auto simp: less_2_cases_iff numeral_2_eq_2 less_Suc_eq)
  have js: "set [0, 1] = {..<length [[0], [1 :: byte]]}" by auto
  show ?thesis
    using Curator_comes_up_and_loads [OF host x demo_chain_env_works(1,2) demo_chain_bins demo_chain_env_works(3),
        unfolded demo_curator_dir, OF list js read] by (intro exI [of _ x]) (auto simp: numeral_2_eq_2)
qed

section \<open>The default directory\<close>

text \<open>Without a resource directory the curator lists a directory that starts with a tilde, which is not expanded: nothing
  is loaded, unless a directory of that very name exists below the working directory.\<close>

lemma Curator_default_loads_nothing:
  assumes "ch_getenv H ''FLUFFYCOIN_RESOURCE_DIR'' = None" and "\<not> FileTools_exists fs ''~/.fluffycoin/blocks''"
  shows "LoadFromFs_init e \<lparr>storageDir = cpStorageDir (CuratorServiceParams_new H)\<rparr> fs from bi d = Some (bi, d)"
  using assms by (simp add: LoadFromFs_init_def BlockStorage_getFiles_def FileTools_listFiles_def CuratorServiceParams_new_def)

section \<open>Stopping the curator\<close>

text \<open>With the variables of the database set, all hooks of the curator return once the scene is set up.  It accepts
  every command line that its parser accepts.\<close>

lemma Curator_params_return:
  assumes "connection_params H \<noteq> None"
    and "\<And>q. ArgParser_parse (Curator_initCmdLineParams q (LogArgs_initCmdLineParams ArgParser_new)) (Some argv) \<noteq> None"
  shows "params_return (Curator_params H) cpCtx (\<lambda>a. a = argv)"
proof -
  have "cpCtx (Curator_setCmdLineArgs a q) = cpCtx q" for a q by (simp add: Curator_setCmdLineArgs_def Let_def)
  with assms show ?thesis
  by (auto simp: params_return_def Curator_params_simps Curator_setupScene_def Curator_preInit_def Curator_init_def
      split: prod.splits)
qed

text \<open>Without one of them a curator that is not paused ends by an exception that nothing catches.\<close>

lemma Curator_needs_environment:
  assumes "connection_params H = None" and "cpDb q = None"
  shows "Curator_preInit H False (q, scene) = None"
  using assms by (simp add: Curator_preInit_def)

text \<open>So a curator can be stopped at any point of its start.\<close>

lemma Curator_stops:
  fixes L :: "('s, 'k, 'm) libs"
  assumes "connection_params H \<noteq> None"
    and "\<And>q. ArgParser_parse (Curator_initCmdLineParams q (LogArgs_initCmdLineParams ArgParser_new)) (Some argv) \<noteq> None"
    and "orderly False (concat rounds)" and "sigints (concat rounds) < MAX_INTERRUPTS" and "InSignal SigTerm \<in> set (concat rounds)"
  shows "case Service_run now L (Curator_params H :: (CuratorServiceParams, 'm, 'h) IServiceParams) p argv paused n c l rounds of
      SvcEnded x \<Rightarrow> True | SvcFault \<Rightarrow> requests_start (concat rounds) | _ \<Rightarrow> False"
  using exec_stops [OF Curator_params_return [OF assms(1,2)],
      of "Service_setParams p (Service_setPaused paused (Service_setArgs argv (Service_new n c l))) ::
        ('s, 'm, 'h, CuratorServiceParams) Service" False rounds now L] assms(3-)
  by (auto simp: Service_run_def Service_setParams_def Service_setPaused_def Service_setArgs_def Service_new_def)

section \<open>Restarting the peer service\<close>

text \<open>The password is taken out of the environment, so the run after a restart opens the wallet with an empty one.\<close>

lemma P2p_restart_forgets_password:
  assumes "\<not> Args_hasArg ''wallet-password'' a" and "P2p_setCmdLineArgs a argv (Some pw) x = Some (x', argv', env)"
    and "\<not> Args_hasArg ''wallet-password'' b"
    and "P2p_setCmdLineArgs b argv' (snd (P2p_renew (Some (x', env)))) (fst (P2p_renew (Some (x', env)))) = Some (y, argv'', env')"
  shows "ppWalletPassword x' = string_bytes pw" and "ppWalletPassword y = []"
  using assms by (auto simp: P2p_setCmdLineArgs_def P2p_renew_def P2pServiceParams_new_def string_bytes_def Let_def)

section \<open>Ports\<close>

lemma bindSocket_port_in_use:
  assumes "\<forall>s. fst (zl_bind z (''tcp://*:'' @ dec (unat port)) s) \<noteq> None"
    and "bindSocket z os c pop hasCtx t [] port key d n = (sock, d', n')"
  shows "\<not> isOk d'"
proof (cases "hasCtx \<and> isOk d \<and> zl_socket z t \<noteq> None")
  case False
  with assms(2) show ?thesis by (auto simp: bindSocket_def Let_def split: option.splits if_splits)
next
  case True
  then obtain s where s: "zl_socket z t = Some s" by blast
  have b: "\<exists>e s2. zl_bind z (''tcp://*:'' @ dec (unat port)) s1 = (Some e, s2)" for s1
    using assms(1) by (metis option.exhaust prod.collapse)
  obtain d1 s1 where c: "setupServerCurve z os c pop key d s = (d1, s1)" by fastforce
  show ?thesis
  proof (cases "key = []")
    case True
    with \<open>hasCtx \<and> _\<close> assms(2) s b [of s] show ?thesis by (auto simp: bindSocket_def)
  next
    case False
    with \<open>hasCtx \<and> _\<close> assms(2) s c b [of s1] show ?thesis by (auto simp: bindSocket_def split: if_splits)
  qed
qed

lemma EventPublisher_port_in_use:
  fixes z :: "'s zmqlib"
  assumes "\<forall>s. fst (zl_bind z (''tcp://*:'' @ dec (unat port)) s) \<noteq> None"
    and "EventPublisher_openPort z os c pop port key e live = (ok, e', live')"
  shows "\<not> ok"
proof -
  obtain p :: "'s Publisher" and n0 where p: "Publisher_close Publisher_new (EventPublisher_reset e live) = (p, n0)" by fastforce
  obtain s d n where b: "bindSocket z os c pop (pCtx p) ZMQ_PUB [] port key Details_new n0 = (s, d, n)" by (metis prod_cases3)
  obtain p' n' where "Publisher_close (p\<lparr>pSocket := s\<rparr>) n = (p', n')" by fastforce
  with bindSocket_port_in_use [OF assms(1) b] assms(2) p b show ?thesis
    by (auto simp: EventPublisher_openPort_def Publisher_bind_def Let_def)
qed

text \<open>A service that is not paused and has not opened its ports.\<close>

definition portless :: "('s, 'm, 'h, 'p) Service \<Rightarrow> bool" where
  "portless x \<longleftrightarrow> \<not> svPaused x \<and> \<not> bInit x"

lemma startService_port_in_use:
  assumes "\<forall>s. fst (zl_bind (lb_zmq L) (''tcp://*:'' @ dec (unat (ip_getEventPort P p))) s) \<noteq> None" and "ip_getEventPort P p > 0"
    and "\<not> svPaused x" and "startService now L P p x = Some (ok, x')"
  shows "\<not> ok"
proof -
  let ?y = "x\<lparr>svScheduler := Scheduler_start now (Scheduler_setThreads now (ip_getNumEventThreads P p) (svScheduler x))\<rparr>"
  obtain ok1 y1 where y1: "start_publisher L P p ?y = Some (ok1, y1)"
    by (cases "start_publisher L P p ?y") (auto simp: start_publisher_def Let_def split: if_splits prod.splits)
  then have "\<not> ok1"
    using assms(2,3)
    by (auto simp: start_publisher_def Let_def split: prod.splits dest: EventPublisher_port_in_use [OF assms(1)])
  with y1 assms(4) show ?thesis by (simp add: startService_def andThen_def)
qed

lemma portless_init:
  assumes "\<And>p. ip_getEventPort P p = port" and "port > 0" and "\<forall>s. fst (zl_bind (lb_zmq L) (''tcp://*:'' @ dec (unat port)) s) \<noteq> None"
  shows "keeps_inv portless (Service_init now L P)"
proof (rule keeps_init_stages)
  show "keeps_inv portless (stage bInit bInit_update (with_params (startService now L P)))"
  proof (rule keeps_stageI)
    fix x ok x' assume x: "portless x" and "with_params (startService now L P) x = Some (ok, x')"
    then have "\<not> ok \<and> frame x' = frame x"
      using startService_port_in_use [of L P _ x now ok x'] assms
      by (auto simp: with_params_def portless_def dest: startService_frame split: option.splits)
    then show "portless (bInit_update (\<lambda>_. ok) x')" using x by (simp add: portless_def frame_def)
  qed
  show "keeps_inv portless (stage bArgsInit bArgsInit_update (with_params (initArgs P)))"
    by (rule keeps_stageI) (auto simp: with_params_def portless_def split: option.splits dest!: initArgs_changes)
qed (rule keeps_stageI, auto simp: portless_def initSignals_def initRand_def with_params_def Service_setupScene_def
    Service_preInit_def Service_postInit_def split: option.splits prod.splits)+

lemma portless_exec:
  assumes "\<And>p. ip_getEventPort P p = port" and "port > 0" and "\<forall>s. fst (zl_bind (lb_zmq L) (''tcp://*:'' @ dec (unat port)) s) \<noteq> None"
  shows "portless x \<Longrightarrow> exec now L P rounds x = SvcRunning y \<Longrightarrow> portless y"
proof (induction rounds arbitrary: x)
  case (Cons r rounds)
  from Cons.prems(2) obtain ok x1 x2 where i: "Service_init now L P x = Some (ok, x1)"
    and r: "svc_inputs L r x1 = SvcRunning x2" and e: "exec now L P rounds x2 = SvcRunning y"
    by (auto simp: exec_end_def split: if_splits option.splits svc_result.splits)
  have "portless x1" using keeps_invD [OF portless_init [OF assms] Cons.prems(1) i] .
  then have "portless x2" using svc_inputs_frame [OF r] by (simp add: portless_def frame_def flags_def)
  then show ?case by (rule Cons.IH [OF _ e])
qed (auto simp: exec_end_def split: if_splits option.splits)

text \<open>A curator and a peer service cannot run on one host: they have the same ports.  While the event port of the
  curator is taken, so that binding its address fails, the peer service never opens its ports, however
  often it tries and whatever its command line.\<close>

lemma P2p_never_up_beside_curator:
  assumes "\<forall>s. fst (zl_bind (lb_zmq L) (''tcp://*:'' @ dec (unat Curator_EVENT_PORT)) s) \<noteq> None"
    and "Service_run now L (P2p_params H) p argv False n c l rounds = SvcRunning x"
  shows "\<not> bInit x \<and> \<not> bPostInit x"
proof -
  let ?s = "Service_setParams p (Service_setPaused False (Service_setArgs argv (Service_new n c l)))"
  have port: "ip_getEventPort (P2p_params H) q = Curator_EVENT_PORT" for q
    by (simp add: P2p_params_def AbstractServiceParams_def P2p_EVENT_PORT_def Curator_EVENT_PORT_def)
  have "portless ?s" "stages_ok ?s"
    by (simp_all add: portless_def stages_ok_def flags_def Service_setParams_def Service_setPaused_def Service_setArgs_def
        Service_new_def)
  then have "portless x" "stages_ok x"
    using portless_exec [where P = "P2p_params H", OF port _ assms(1)] exec_stages assms(2)
    unfolding Service_run_def Curator_EVENT_PORT_def by auto
  then show ?thesis by (simp add: portless_def stages_ok_def flags_def)
qed

lemma startService_refused:
  assumes "\<forall>s. fst (zl_bind (lb_zmq L) (''tcp://*:'' @ dec (unat (ip_getEventPort P p))) s) \<noteq> None" and "ip_getEventPort P p > 0"
    and "\<not> svPaused x"
  shows "\<exists>x'. startService now L P p x = Some (False, x') \<and> svStatus x' = svStatus x"
proof -
  let ?y = "x\<lparr>svScheduler := Scheduler_start now (Scheduler_setThreads now (ip_getNumEventThreads P p) (svScheduler x))\<rparr>"
  obtain ok1 e n where e: "EventPublisher_openPort (lb_zmq L) (lb_ossl L) (lb_curve L) (lb_pop L) (ip_getEventPort P p)
      (ip_getServerKey P p) None (svLive (reset_publisher ?y)) = (ok1, e, n)" by (metis prod_cases3)
  with EventPublisher_port_in_use [OF assms(1) e] assms(2,3) show ?thesis
    by (simp add: startService_def andThen_def start_publisher_def Let_def reset_publisher_def)
qed

definition busy_libs :: "(zmq_queues, bytes, string \<times> bytes) libs" where
  "busy_libs = demo_libs\<lparr>lb_zmq := wide_zmq\<lparr>zl_bind := \<lambda>_ s. (Some ''Address already in use'', s)\<rparr>\<rparr>"

lemma P2p_never_up_beside_curator_witness:
  "\<exists>(H :: (bytes, string \<times> bytes) p2p_host) x. Service_run 0 busy_libs (P2p_params H)
       (P2pServiceParams_new\<lparr>ppWalletFile := ''w'', ppWalletPassword := [112]\<rparr>, None) [] False 0 Catalog_new
       (log_init demo_curator_disk) [[]] = SvcRunning x \<and> bPreInit x \<and> \<not> bInit x \<and> \<not> bPostInit x"
proof -
  let ?q = "P2pServiceParams_new\<lparr>ppWalletFile := ''w'', ppWalletPassword := [112]\<rparr> :: bytes P2pServiceParams"
  obtain parse k q' where q': "P2p_preInit parse plain_keylib k False ?q = Some (True, q')" using demo_stake_loads by blast
  let ?H = "\<lparr>ph_json = parse, ph_keys = plain_keylib, ph_disk = k, ph_pb = plain_pb, ph_msg = (5, (''Auth'', [])),
    ph_stakeKey = (1, 101), ph_bruteForce = (2, 102)\<rparr> :: (bytes, string \<times> bytes) p2p_host"
  let ?s = "Service_setParams (?q, None) (Service_setPaused False (Service_setArgs [] (Service_new 0 Catalog_new
    (log_init demo_curator_disk)))) :: (zmq_queues, string \<times> bytes, string, bytes P2pServiceParams \<times> string option) Service"
  have bind: "\<forall>s. fst (zl_bind (lb_zmq busy_libs) a s) \<noteq> None" for a by (simp add: busy_libs_def)
  have P: "ip_getEventPort (P2p_params ?H) p = 18019" "ip_setupScene (P2p_params ?H) p sc = (p, P2p_setScenePtrs ?H sc)"
    "ip_preInit (P2p_params ?H) False ((?q, None), sc) = Some (True, (q', None), sc)" for p sc
    using q' by (simp_all add: P2p_params_def AbstractServiceParams_def P2p_EVENT_PORT_def)
  have start: "\<exists>y. startService 0 busy_libs (P2p_params ?H) p z = Some (False, y) \<and> svStatus y = svStatus z" if "\<not> svPaused z" for z p
    using startService_refused [OF bind _ that, of "P2p_params ?H" p 0] by (simp add: P)
  let ?z = "?s\<lparr>svSignals := True, bSignalsInit := True, bArgsInit := True, bRandInit := True,
    svScene := P2p_setScenePtrs ?H om_empty, bSceneSetup := True, svParams := Some (q', None), bPreInit := True\<rparr>"
  obtain y where y: "startService 0 busy_libs (P2p_params ?H) (q', None) ?z = Some (False, y)" "svStatus y = svStatus ?z"
    using start [of ?z "(q', None)"] by (auto simp: Service_setParams_def Service_setPaused_def)
  have "Service_init 0 busy_libs (P2p_params ?H) ?s = Some (False, y\<lparr>bInit := False\<rparr>)"
    using y(1)
    by (simp add: Service_init_def andThen_def stage_def with_params_def initSignals_def initArgs_def initRand_def
      Service_setupScene_def Service_preInit_def P Service_setParams_def Service_setPaused_def Service_setArgs_def Service_new_def)
  moreover have "svStatus ?s = ScRunning" "svStatus y = ScRunning" "bPreInit y"
    using y(2) startService_frame [OF y(1)]
    by (simp_all add: Service_setParams_def Service_setPaused_def Service_setArgs_def Service_new_def frame_def flags_def)
  ultimately have run: "Service_run 0 busy_libs (P2p_params ?H) (?q, None) [] False 0 Catalog_new (log_init demo_curator_disk) [[]]
      = SvcRunning (y\<lparr>bInit := False\<rparr>)"
    by (simp add: Service_run_def)
  show ?thesis
    using run P2p_never_up_beside_curator [OF bind run] \<open>bPreInit y\<close> by (intro exI [of _ ?H] exI [of _ "y\<lparr>bInit := False\<rparr>"]) simp
qed

end
