(* ===== verification/Spec2Isabelle.thy ===== *)
theory Spec2Isabelle
  imports FC_Prelude FC_AnyMap FC_BinData FC_Codecs FC_Base58 FC_Crypto FC_Address FC_Filename FC_Block FC_Pending FC_Peers FC_Log FC_Nodes
begin

text \<open>
  Verification library for the Fluffycoin node.
\<close>

end
